(* ===== verification/Prelude.thy ===== *)
theory Prelude
  imports Complex_Main
begin

text \<open>
  Shared vocabulary of the sheetmail model (\<open>src/sheetmail.py\<close>, Python 2):
  the Python exceptions the program raises or catches, the values a spreadsheet
  cell can hold with Python's truthiness on them, the arithmetic of \<open>ceil\<close> and
  of Python 2's integer \<open>/\<close>, and the world the program runs in: a clock read by
  \<open>now()\<close> and advanced by \<open>sleep\<close>, a transport oracle that answers every SMTP
  interaction, and a log of the observable effects in the order they happen.
\<close>

named_theorems world_simps "how the world primitives change clock, ticks and log"

section \<open>Python exceptions\<close>

text \<open>
  The exception classes that reach an \<open>except\<close> clause of the program. The SMTP
  classes are smtplib's; \<open>SMTPOtherError\<close> stands for every other subclass of
  \<open>SMTPException\<close> (e.g. \<open>SMTPServerDisconnected\<close>, "no suitable authentication
  method"); \<open>SocketError\<close> is \<open>socket.error\<close>; the next four are raised by the
  program itself and are caught by none of its SMTP handlers. The last four come
  from loading the inputs: openpyxl's \<open>CellCoordinatesException\<close> and
  \<open>InvalidFileException\<close>, \<open>json.load\<close>'s \<open>ValueError\<close>, and the \<open>KeyError\<close> of a
  missing dict key.
\<close>

datatype exc =
    SMTPRecipientsRefused
  | SMTPSenderRefused
  | SMTPAuthenticationError
  | SMTPHeloError
  | SMTPDataError
  | SMTPConnectError
  | SMTPOtherError
  | SocketError
  | ZeroDivisionError
  | TypeError
  | IndexError
  | OtherError
  | CellCoordinatesException
  | InvalidFileException
  | ValueError
  | KeyError

type_synonym 'a result = "exc + 'a"

section \<open>Spreadsheet cells and Python truthiness\<close>

text \<open>
  A cell value as openpyxl returns it: \<open>None\<close> for an empty cell, a number, or a
  (unicode) string. Numbers are whole numbers here.
\<close>

datatype cell = Empty | Num int | Str string

fun truthy :: "cell \<Rightarrow> bool" where
  "truthy Empty = False"
| "truthy (Num n) = (n \<noteq> 0)"
| "truthy (Str s) = (s \<noteq> [])"

text \<open>
  Python 2's \<open>v >= 1\<close> on a cell: \<open>None\<close> is smaller than every number, and every
  string is greater than every number.
\<close>

fun ge_one :: "cell \<Rightarrow> bool" where
  "ge_one Empty = False"
| "ge_one (Num n) = (1 \<le> n)"
| "ge_one (Str s) = True"

section \<open>Division\<close>

text \<open>
  \<open>ceil(a / b)\<close> where \<open>a\<close> is a float (a difference of \<open>time()\<close> values): the
  true ceiling, computed on integers. Python 2's \<open>a / b\<close> on two ints is floor
  division, which is HOL's \<open>div\<close> on \<open>int\<close>; \<open>ceil\<close> of an int is the int.
\<close>

definition ceil_div :: "int \<Rightarrow> int \<Rightarrow> int" where
  "ceil_div a b = - ((- a) div b)"

lemma ceil_div_split:
  "0 < b \<Longrightarrow> ceil_div a b * b = a + (- a) mod b \<and> 0 \<le> (- a) mod b \<and> (- a) mod b < b"
proof -
  assume b: "0 < b"
  have eq: "(- a) div b * b + (- a) mod b = - a" by (rule div_mult_mod_eq)
  have "ceil_div a b * b = - ((- a) div b * b)" by (simp add: ceil_div_def)
  also have "\<dots> = a + (- a) mod b" using eq by linarith
  finally have "ceil_div a b * b = a + (- a) mod b" .
  with b show ?thesis by simp
qed
lemma ceil_div_upper: "0 < b \<Longrightarrow> a \<le> ceil_div a b * b"
  using ceil_div_split [of b a] by linarith
lemma ceil_div_lower: "0 < b \<Longrightarrow> (ceil_div a b - 1) * b < a"
  using ceil_div_split [of b a] by (simp add: algebra_simps)
lemma ceil_div_pos: "0 < b \<Longrightarrow> 0 < a \<Longrightarrow> 0 < ceil_div a b"
proof -
  assume "0 < b" "0 < a"
  then have "0 < ceil_div a b * b" using ceil_div_upper [of b a] by linarith
  with \<open>0 < b\<close> show ?thesis by (simp add: zero_less_mult_iff)
qed
lemma ceil_div_le: "1 \<le> b \<Longrightarrow> 0 \<le> a \<Longrightarrow> ceil_div a b \<le> a"
proof -
  assume b: "1 \<le> b" and a: "0 \<le> a"
  have "(ceil_div a b - 1) * b < a" using ceil_div_lower [of b a] b by simp
  moreover have "(ceil_div a b - 1) * 1 \<le> (ceil_div a b - 1) * b" if "1 \<le> ceil_div a b"
    using that b by (intro mult_left_mono) simp_all
  ultimately show ?thesis using a by (cases "1 \<le> ceil_div a b") simp_all
qed
lemma ceil_div_real: "ceil_div a b = \<lceil>real_of_int a / real_of_int b\<rceil>"
proof -
  have "\<lceil>real_of_int a / real_of_int b\<rceil> = - \<lfloor>- (real_of_int a / real_of_int b)\<rfloor>"
    by (simp add: floor_minus)
  also have "- (real_of_int a / real_of_int b) = real_of_int (- a) / real_of_int b"
    by simp
  finally show ?thesis
    by (simp only: floor_divide_of_int_eq ceil_div_def)
qed

section \<open>The world\<close>

text \<open>
  Observable effects, in the order the program causes them. Senders are named by
  their object identity (CPython's \<open>id\<close>, which old-style instances are
  compared by).
\<close>

datatype event =
    Connect nat              \<comment> \<open>\<open>connect_to_server\<close> attempted by a sender\<close>
  | Sendmail nat bool        \<comment> \<open>\<open>server.sendmail\<close> called; \<open>True\<close> when accepted\<close>
  | Quit nat                 \<comment> \<open>\<open>close()\<close>: best-effort \<open>server.quit()\<close>\<close>
  | Sleep int                \<comment> \<open>\<open>time.sleep\<close>\<close>
  | Persist nat              \<comment> \<open>\<open>quota_persist()\<close>: the JSON config rewritten\<close>
  | SaveBook                 \<comment> \<open>\<open>wb.save\<close>: the spreadsheet written back\<close>

record world =
  clock :: int
  ticks :: nat
  log :: "event list"

text \<open>
  The transport oracle answers the \<open>k\<close>-th SMTP interaction of the run, a login
  (\<open>connect_to_server\<close>) or a transmission (\<open>server.sendmail\<close>), with the exception
  it raises, if any, and the seconds it takes. Theorems quantify over all oracles,
  so the model admits every behaviour of the network and the servers.
\<close>

datatype interaction = Login | Transmit

type_synonym transport = "nat \<Rightarrow> interaction \<Rightarrow> exc option \<times> nat"

definition emit :: "event \<Rightarrow> world \<Rightarrow> world" where
  "emit e w = w\<lparr>log := log w @ [e]\<rparr>"

definition sleep :: "int \<Rightarrow> world \<Rightarrow> world" where
  "sleep d w = emit (Sleep d) (w\<lparr>clock := clock w + d\<rparr>)"

definition interact ::
  "transport \<Rightarrow> interaction \<Rightarrow> (bool \<Rightarrow> event) \<Rightarrow> world \<Rightarrow> exc option \<times> world" where
  "interact env k ev w =
     (let (r, d) = env (ticks w) k
      in (r, emit (ev (r = None)) (w\<lparr>clock := clock w + int d, ticks := Suc (ticks w)\<rparr>)))"

lemma emit_fields [world_simps, simp]:
  "clock (emit e w) = clock w" "ticks (emit e w) = ticks w" "log (emit e w) = log w @ [e]"
  by (simp_all add: emit_def)

lemma sleep_fields [world_simps, simp]:
  "clock (sleep d w) = clock w + d" "ticks (sleep d w) = ticks w"
  "log (sleep d w) = log w @ [Sleep d]"
  by (simp_all add: sleep_def)

lemma interact_fields [world_simps]:
  "interact env k ev w = (r, w') \<Longrightarrow>
     r = fst (env (ticks w) k) \<and> clock w' = clock w + int (snd (env (ticks w) k))
     \<and> ticks w' = Suc (ticks w) \<and> log w' = log w @ [ev (r = None)]"
  by (auto simp: interact_def split: prod.splits)

section \<open>Counting in the log\<close>

definition sleeps :: "event list \<Rightarrow> nat" where
  "sleeps es = length (filter (\<lambda>e. case e of Sleep _ \<Rightarrow> True | _ \<Rightarrow> False) es)"

definition quits :: "event list \<Rightarrow> nat" where
  "quits es = length (filter (\<lambda>e. case e of Quit _ \<Rightarrow> True | _ \<Rightarrow> False) es)"

definition deliveries :: "event list \<Rightarrow> nat" where
  "deliveries es = length (filter (\<lambda>e. case e of Sendmail _ b \<Rightarrow> b | _ \<Rightarrow> False) es)"

lemma sleeps_simps [simp]:
  "sleeps [] = 0" "sleeps (es @ fs) = sleeps es + sleeps fs"
  "sleeps (Sleep d # es) = Suc (sleeps es)" "sleeps (Connect i # es) = sleeps es"
  "sleeps (Sendmail i b # es) = sleeps es" "sleeps (Quit i # es) = sleeps es"
  "sleeps (Persist i # es) = sleeps es" "sleeps (SaveBook # es) = sleeps es"
  by (simp_all add: sleeps_def)

lemma quits_simps [simp]:
  "quits [] = 0" "quits (es @ fs) = quits es + quits fs"
  "quits (Quit i # es) = Suc (quits es)" "quits (Connect i # es) = quits es"
  "quits (Sendmail i b # es) = quits es" "quits (Sleep d # es) = quits es"
  "quits (Persist i # es) = quits es" "quits (SaveBook # es) = quits es"
  by (simp_all add: quits_def)

lemma deliveries_simps [simp]:
  "deliveries [] = 0" "deliveries (es @ fs) = deliveries es + deliveries fs"
  "deliveries (Sendmail i b # es) = (if b then Suc (deliveries es) else deliveries es)"
  "deliveries (Connect i # es) = deliveries es" "deliveries (Quit i # es) = deliveries es"
  "deliveries (Sleep d # es) = deliveries es" "deliveries (Persist i # es) = deliveries es"
  "deliveries (SaveBook # es) = deliveries es"
  by (simp_all add: deliveries_def)

end
