(* ===== verification/Quota.thy ===== *)
theory Quota
  imports Prelude
begin

text \<open>
  The quota tracker of one account: the quota entries of the account's JSON
  config dict (\<open>server_config['mail_user'][i]\<close>), the \<open>Mail_sender\<close> object that
  owns them, and \<open>Mail_sender._update_quotas\<close> (\<open>src/sheetmail.py\<close>, lines 42-65),
  split as the code is into window rollover, send counting, persisting and pacing.
  The invariants say when an account never sends more than its quota in a window.
\<close>

section \<open>State\<close>

record quota_cfg =
  timeframe :: int
  timeframe_end :: int
  allowed_requests :: int
  remaining_requests :: int
  use_fixed_delay :: bool
  update_config :: bool

text \<open>
  A \<open>Mail_sender\<close>. \<open>ident\<close> is the object's identity; \<open>quota_persist\<close> says whether
  a persist callback was passed (\<open>Excel_Mail_Sender.init\<close> passes one, \<open>test_mail\<close>
  passes \<open>None\<close>). Host, port, credentials and \<open>use_ssl\<close> only parameterise the
  transport, which the oracle of the world stands for.
\<close>

record mail_sender =
  ident :: nat
  cfg :: quota_cfg
  next_send :: int
  connected :: bool
  nosend :: bool
  quota_persist :: bool

section \<open>Operations of \<open>_update_quotas\<close>\<close>

text \<open>Lines 43-48: a new timeframe once \<open>curtime >= timeframe_end\<close>.\<close>

definition roll_window :: "int \<Rightarrow> mail_sender \<Rightarrow> mail_sender" where
  "roll_window t s =
     (if timeframe_end (cfg s) \<le> t
      then s\<lparr>cfg := (cfg s)\<lparr>timeframe_end := t + timeframe (cfg s),
                             remaining_requests := allowed_requests (cfg s)\<rparr>,
             next_send := t + timeframe (cfg s)\<rparr>
      else s)"

text \<open>Lines 50-51: a send is counted, with no check that it was allowed.\<close>

definition count_send :: "bool \<Rightarrow> mail_sender \<Rightarrow> mail_sender" where
  "count_send mail_send s =
     (if mail_send
      then s\<lparr>cfg := (cfg s)\<lparr>remaining_requests := remaining_requests (cfg s) - 1\<rparr>\<rparr>
      else s)"

text \<open>Lines 52-53: \<open>self.quota_persist()\<close>; calling \<open>None\<close> raises \<open>TypeError\<close>.\<close>

definition persist_quota :: "mail_sender \<Rightarrow> world \<Rightarrow> unit result \<times> world" where
  "persist_quota s w =
     (if update_config (cfg s)
      then (if quota_persist s then (Inr (), emit (Persist (ident s)) w) else (Inl TypeError, w))
      else (Inr (), w))"

text \<open>
  Lines 54-65: the next permitted send. Fixed delay divides the two JSON ints with
  Python 2's \<open>/\<close> (floor division, \<open>ZeroDivisionError\<close> on 0); adaptive delay
  divides a float time difference, so its \<open>ceil\<close> is the true ceiling.
\<close>

definition pace :: "int \<Rightarrow> bool \<Rightarrow> mail_sender \<Rightarrow> mail_sender result" where
  "pace t mail_send s =
     (let c = cfg s in
      if use_fixed_delay c then
        (if mail_send then
           (if allowed_requests c = 0 then Inl ZeroDivisionError
            else Inr (s\<lparr>next_send := t + timeframe c div allowed_requests c\<rparr>))
         else Inr (s\<lparr>next_send := t\<rparr>))
      else if 0 < remaining_requests c then
        Inr (s\<lparr>next_send := t + (if mail_send
                                 then ceil_div (timeframe_end c - t) (remaining_requests c)
                                 else 0)\<rparr>)
      else Inr (s\<lparr>next_send := timeframe_end c\<rparr>))"

text \<open>
  The whole method. \<open>now()\<close> is read as one instant \<open>clock w\<close>. An exception leaves
  the mutations made before it in place, as in Python.
\<close>

definition update_quotas :: "bool \<Rightarrow> world \<Rightarrow> mail_sender \<Rightarrow> unit result \<times> world \<times> mail_sender" where
  "update_quotas mail_send w s =
     (let t = clock w;
          s2 = count_send mail_send (roll_window t s)
      in case persist_quota s2 w of
           (Inl e, w') \<Rightarrow> (Inl e, w', s2)
         | (Inr _, w') \<Rightarrow>
             (case pace t mail_send s2 of
                Inl e \<Rightarrow> (Inl e, w', s2)
              | Inr s3 \<Rightarrow> (Inr (), w', s3)))"

text \<open>\<open>Mail_sender.__init__\<close> (lines 27-40): fields set, then \<open>_update_quotas(False)\<close>.\<close>

definition init_sender ::
  "nat \<Rightarrow> quota_cfg \<Rightarrow> bool \<Rightarrow> bool \<Rightarrow> world \<Rightarrow> mail_sender result \<times> world" where
  "init_sender i c persist ns w =
     (let s = \<lparr>ident = i, cfg = c, next_send = 0, connected = False,
               nosend = ns, quota_persist = persist\<rparr>
      in case update_quotas False w s of
           (Inl e, w', _) \<Rightarrow> (Inl e, w')
         | (Inr _, w', s') \<Rightarrow> (Inr s', w'))"

section \<open>Invariants\<close>

text \<open>
  Within quota: the budget is between 0 and the allowance, and an exhausted
  budget defers the next send to the end of the window, where the window rolls
  over. For fixed delay, the cadence left must reach the end of the window.
\<close>

definition adaptive_ok :: "mail_sender \<Rightarrow> bool" where
  "adaptive_ok s \<longleftrightarrow>
     \<not> use_fixed_delay (cfg s) \<and> 1 \<le> allowed_requests (cfg s)
     \<and> 0 \<le> remaining_requests (cfg s) \<and> remaining_requests (cfg s) \<le> allowed_requests (cfg s)
     \<and> (remaining_requests (cfg s) = 0 \<longrightarrow> timeframe_end (cfg s) \<le> next_send s)"

definition fixed_ok :: "mail_sender \<Rightarrow> bool" where
  "fixed_ok s \<longleftrightarrow>
     use_fixed_delay (cfg s) \<and> 1 \<le> allowed_requests (cfg s)
     \<and> 0 \<le> remaining_requests (cfg s) \<and> remaining_requests (cfg s) \<le> allowed_requests (cfg s)
     \<and> timeframe_end (cfg s) \<le> next_send s
          + remaining_requests (cfg s) * (timeframe (cfg s) div allowed_requests (cfg s))"

section \<open>A single account paced by its own tracker\<close>

text \<open>
  For stating quota properties of the tracker alone: \<open>n\<close> sends by one account, each
  made as soon as the tracker permits (the scheduler's wait, \<open>Dispatcher\<close>, does
  the same), each taking no time. \<open>fixed_sender\<close> builds an account's state as the
  config file gives it.
\<close>

fun sends_when_due :: "nat \<Rightarrow> world \<Rightarrow> mail_sender \<Rightarrow> mail_sender" where
  "sends_when_due 0 w s = s"
| "sends_when_due (Suc n) w s =
     (case update_quotas True (w\<lparr>clock := max (clock w) (next_send s)\<rparr>) s of
        (_, w', s') \<Rightarrow> sends_when_due n w' s')"

definition fixed_sender :: "int \<Rightarrow> int \<Rightarrow> int \<Rightarrow> int \<Rightarrow> mail_sender" where
  "fixed_sender T e A R = \<lparr>ident = 0, cfg = \<lparr>timeframe = T, timeframe_end = e,
      allowed_requests = A, remaining_requests = R, use_fixed_delay = True, update_config = False\<rparr>,
     next_send = 0, connected = False, nosend = False, quota_persist = True\<rparr>"

definition ex_world :: "int \<Rightarrow> world" where "ex_world t = \<lparr>clock = t, ticks = 0, log = []\<rparr>"

definition adaptive_sender :: "int \<Rightarrow> int \<Rightarrow> int \<Rightarrow> int \<Rightarrow> mail_sender" where
  "adaptive_sender T e A R =
     (fixed_sender T e A R)\<lparr>cfg := (cfg (fixed_sender T e A R))\<lparr>use_fixed_delay := False\<rparr>\<rparr>"

section \<open>Lemmas\<close>

lemmas quota_defs = update_quotas_def roll_window_def count_send_def persist_quota_def pace_def Let_def

lemmas example_defs = ex_world_def fixed_sender_def adaptive_sender_def

lemma update_quotas_split: "update_quotas b w s = (fst (update_quotas b w s), fst (snd (update_quotas b w s)), snd (snd (update_quotas b w s)))"
  by simp

lemma update_quotas_frame:
  assumes "update_quotas b w s = (r, w', s')"
  shows "ident s' = ident s \<and> connected s' = connected s \<and> nosend s' = nosend s
    \<and> quota_persist s' = quota_persist s \<and> clock w' = clock w \<and> ticks w' = ticks w
    \<and> timeframe (cfg s') = timeframe (cfg s) \<and> allowed_requests (cfg s') = allowed_requests (cfg s)
    \<and> use_fixed_delay (cfg s') = use_fixed_delay (cfg s) \<and> update_config (cfg s') = update_config (cfg s)
    \<and> (log w' = log w \<or> log w' = log w @ [Persist (ident s)])"
  using assms by (auto simp: quota_defs split: if_splits sum.splits prod.splits)

lemma update_quotas_adaptive_ok:
  assumes "adaptive_ok s" "quota_persist s" "next_send s \<le> clock w"
    and "update_quotas True w s = (r, w', s')"
  shows "r = Inr () \<and> adaptive_ok s'"
proof (cases "timeframe_end (cfg s) \<le> clock w")
  case True
  with assms show ?thesis
    by (auto simp: quota_defs adaptive_ok_def split: if_splits)
next
  case False
  with assms have "0 < remaining_requests (cfg s)"
    by (auto simp: adaptive_ok_def)
  with False assms show ?thesis
    by (auto simp: quota_defs adaptive_ok_def split: if_splits)
qed

lemma init_sender_adaptive_ok:
  assumes "\<not> use_fixed_delay c" "1 \<le> allowed_requests c"
    "0 \<le> remaining_requests c" "remaining_requests c \<le> allowed_requests c"
  shows "\<exists>s w'. init_sender i c True ns w = (Inr s, w') \<and> adaptive_ok s"
  using assms by (auto simp: init_sender_def quota_defs adaptive_ok_def)

text \<open>C19: With fixed delay, a send made no earlier than next_send keeps the account within its quota (budget between 0 and the allowance, and the remaining cadence reaching the end of the window), provided the allowance divides the timeframe.\<close>

lemma update_quotas_fixed_ok:
  assumes "fixed_ok s" "allowed_requests (cfg s) dvd timeframe (cfg s)"
    "quota_persist s" "next_send s \<le> clock w"
    and "update_quotas True w s = (r, w', s')"
  shows "r = Inr () \<and> fixed_ok s'"
proof (cases "timeframe_end (cfg s) \<le> clock w")
  case True
  have "allowed_requests (cfg s) * (timeframe (cfg s) div allowed_requests (cfg s)) = timeframe (cfg s)"
    using assms(2) by simp
  then have "clock w + timeframe (cfg s) \<le> clock w + timeframe (cfg s) div allowed_requests (cfg s)
      + (allowed_requests (cfg s) - 1) * (timeframe (cfg s) div allowed_requests (cfg s))"
    by (simp add: algebra_simps)
  with True assms show ?thesis
    by (auto simp: quota_defs fixed_ok_def split: if_splits)
next
  case False
  let ?g = "timeframe (cfg s) div allowed_requests (cfg s)"
  let ?r = "remaining_requests (cfg s)"
  have r: "0 < ?r"
  proof (rule ccontr)
    assume "\<not> 0 < ?r"
    with assms(1) have "?r = 0" by (simp add: fixed_ok_def)
    with assms(1,4) False show False by (simp add: fixed_ok_def)
  qed
  have "timeframe_end (cfg s) \<le> next_send s + ?r * ?g"
    using assms by (simp add: fixed_ok_def)
  then have "timeframe_end (cfg s) \<le> clock w + ?g + (?r - 1) * ?g"
    using assms(4) by (simp add: algebra_simps)
  with False r assms show ?thesis
    by (auto simp: quota_defs fixed_ok_def split: if_splits)
qed

theorem update_quotas_fixed_ok_witness:
  "fixed_ok ((fixed_sender 60 60 3 2)\<lparr>next_send := 20\<rparr>) \<and> (3::int) dvd 60
   \<and> fst (update_quotas True (ex_world 20) ((fixed_sender 60 60 3 2)\<lparr>next_send := 20\<rparr>)) = Inr ()
   \<and> fixed_ok (snd (snd (update_quotas True (ex_world 20) ((fixed_sender 60 60 3 2)\<lparr>next_send := 20\<rparr>))))"
proof -
  let ?s = "(fixed_sender 60 60 3 2)\<lparr>next_send := 20\<rparr>" and ?w = "ex_world 20"
  have h: "fixed_ok ?s" "allowed_requests (cfg ?s) dvd timeframe (cfg ?s)" "quota_persist ?s"
    "next_send ?s \<le> clock ?w"
    by (simp_all add: fixed_ok_def example_defs)
  from update_quotas_fixed_ok [OF h update_quotas_split] h show ?thesis
    by (simp add: fixed_sender_def)
qed

text \<open>C31: A fixed-delay account whose persisted window has expired starts within quota when its allowance divides its timeframe.\<close>

lemma init_sender_fixed_ok:
  assumes "use_fixed_delay c" "1 \<le> allowed_requests c" "allowed_requests c dvd timeframe c"
    "timeframe_end c \<le> clock w"
  shows "\<exists>s w'. init_sender i c True ns w = (Inr s, w') \<and> fixed_ok s"
proof -
  have "allowed_requests c * (timeframe c div allowed_requests c) = timeframe c"
    using assms(3) by simp
  with assms show ?thesis
    by (auto simp: init_sender_def quota_defs fixed_ok_def)
qed

theorem init_sender_fixed_ok_witness:
  "\<exists>s w'. init_sender 0 (cfg (fixed_sender 60 0 3 0)) True False (ex_world 5) = (Inr s, w') \<and> fixed_ok s"
  using init_sender_fixed_ok [of "cfg (fixed_sender 60 0 3 0)" "ex_world 5" 0 False]
  by (simp add: example_defs)

lemma roll_window_fields [simp]:
  "ident (roll_window t s) = ident s" "quota_persist (roll_window t s) = quota_persist s"
  "connected (roll_window t s) = connected s" "nosend (roll_window t s) = nosend s"
  by (simp_all add: roll_window_def)

lemma ceil_div_eq_div_iff: "0 < b \<Longrightarrow> ceil_div a b = a div b \<longleftrightarrow> b dvd a"
proof -
  assume b: "0 < b"
  have u: "ceil_div a b * b = a + (- a) mod b" "0 \<le> (- a) mod b"
    using ceil_div_split [OF b, of a] by simp_all
  have d: "a div b * b = a - a mod b" "0 \<le> a mod b"
    using div_mult_mod_eq [of a b] b by (simp_all add: algebra_simps)
  show ?thesis
  proof
    assume "ceil_div a b = a div b"
    with u d have "a mod b = 0" by (metis add.commute add_le_same_cancel1 diff_add_cancel
          le_add_same_cancel2 le_iff_diff_le_0 order.antisym)
    then show "b dvd a" by (simp add: dvd_eq_mod_eq_0)
  next
    assume "b dvd a"
    then obtain k where "a = b * k" by (rule dvdE)
    with b have "(- a) div b = - k" "a div b = k"
      by (metis mult_minus_right nonzero_mult_div_cancel_left less_irrefl)+
    then show "ceil_div a b = a div b" by (simp add: ceil_div_def)
  qed
qed

text \<open>C30: With fixed delay, a successful send sets next_send to now + timeframe div allowed_requests (floor division); this equals the ceiling the spec states exactly when the allowance divides the timeframe.\<close>

lemma fixed_cadence:
  assumes "use_fixed_delay (cfg s)" "0 < allowed_requests (cfg s)"
    and "update_quotas True w s = (Inr (), w', s')"
  shows "next_send s' = clock w + timeframe (cfg s) div allowed_requests (cfg s)
    \<and> (next_send s' = clock w + \<lceil>real_of_int (timeframe (cfg s)) / real_of_int (allowed_requests (cfg s))\<rceil>
         \<longleftrightarrow> allowed_requests (cfg s) dvd timeframe (cfg s))"
proof -
  have "next_send s' = clock w + timeframe (cfg s) div allowed_requests (cfg s)"
    using assms by (auto simp: quota_defs split: if_splits sum.splits)
  then show ?thesis
    using ceil_div_eq_div_iff [OF assms(2), of "timeframe (cfg s)"]
    by (auto simp flip: ceil_div_real)
qed

theorem fixed_cadence_witness:
  "fst (update_quotas True (ex_world 0) (fixed_sender 60 0 7 7)) = Inr ()
   \<and> next_send (snd (snd (update_quotas True (ex_world 0) (fixed_sender 60 0 7 7)))) = 8
   \<and> \<lceil>real_of_int 60 / real_of_int 7\<rceil> = 9"
proof -
  let ?u = "update_quotas True (ex_world 0) (fixed_sender 60 0 7 7)"
  have h: "fst ?u = Inr ()" by (simp add: quota_defs example_defs)
  have "?u = (Inr (), fst (snd ?u), snd (snd ?u))" using h by (metis prod.collapse)
  from fixed_cadence [OF _ _ this] h show ?thesis by (simp add: example_defs)
qed

text \<open>
  A send inside the window on a fixed-delay account, as the loop makes it: counted,
  and the next one allowed \<open>timeframe div allowed_requests\<close> later.
\<close>

lemma fixed_send_in_window:
  assumes "use_fixed_delay (cfg s)" "0 < allowed_requests (cfg s)" "clock w < timeframe_end (cfg s)"
    "update_config (cfg s) \<longrightarrow> quota_persist s" "update_quotas True w s = (r, w', s')"
  shows "clock w' = clock w \<and> next_send s' = clock w + timeframe (cfg s) div allowed_requests (cfg s)
    \<and> cfg s' = (cfg s)\<lparr>remaining_requests := remaining_requests (cfg s) - 1\<rparr> \<and> quota_persist s' = quota_persist s"
  using assms by (auto simp: quota_defs split: if_splits)

lemma fixed_sends_in_window:
  assumes "use_fixed_delay (cfg s)" "0 < allowed_requests (cfg s)" "0 \<le> timeframe (cfg s)"
    "update_config (cfg s) \<longrightarrow> quota_persist s" "next_send s = t" "clock w \<le> t"
    "t + int k * (timeframe (cfg s) div allowed_requests (cfg s)) < timeframe_end (cfg s)"
  shows "cfg (sends_when_due (Suc k) w s)
    = (cfg s)\<lparr>remaining_requests := remaining_requests (cfg s) - int (Suc k)\<rparr>"
  using assms
proof (induction k arbitrary: w s t)
  case 0
  obtain r w' s' where u: "update_quotas True (w\<lparr>clock := t\<rparr>) s = (r, w', s')" by (metis prod.exhaust)
  from fixed_send_in_window [OF _ _ _ _ u] 0 have "cfg s' = (cfg s)\<lparr>remaining_requests := remaining_requests (cfg s) - 1\<rparr>"
    by simp
  with u 0 show ?case by (simp add: max_def)
next
  case (Suc k)
  let ?g = "timeframe (cfg s) div allowed_requests (cfg s)"
  have g: "0 \<le> ?g" using Suc.prems(2,3) by (simp add: pos_imp_zdiv_nonneg_iff)
  obtain r w' s' where u: "update_quotas True (w\<lparr>clock := t\<rparr>) s = (r, w', s')" by (metis prod.exhaust)
  have "0 \<le> int (Suc k) * ?g" using g by simp
  then have lt: "t < timeframe_end (cfg s)" using Suc.prems(7) g by linarith
  from fixed_send_in_window [OF _ _ _ _ u] Suc.prems(1,2,4) lt
  have f: "clock w' = t" "next_send s' = t + ?g"
    "cfg s' = (cfg s)\<lparr>remaining_requests := remaining_requests (cfg s) - 1\<rparr>" "quota_persist s' = quota_persist s"
    by simp_all
  have "cfg (sends_when_due (Suc k) w' s')
      = (cfg s')\<lparr>remaining_requests := remaining_requests (cfg s') - int (Suc k)\<rparr>"
    using Suc.prems g f by (intro Suc.IH [where t = "t + ?g"]) (simp_all add: algebra_simps)
  with u f Suc.prems(5,6) show ?case by (simp add: max_def)
qed

text \<open>C20: A fixed-delay account whose allowance A does not divide its timeframe T, started with an expired window and then sending whenever it is due, makes A + 1 sends inside its first window: floor division paces them T div A apart, and A * (T div A) < T, so the budget reaches -1 before the window ends and the quota is exceeded.\<close>

theorem fixed_floor_overruns:
  assumes "use_fixed_delay c" "0 < allowed_requests c" "0 < timeframe c" "\<not> allowed_requests c dvd timeframe c"
    "timeframe_end c \<le> clock w" "init_sender i c True ns w = (Inr s0, w0)"
  shows "remaining_requests (cfg (sends_when_due (Suc (nat (allowed_requests c))) w0 s0)) = -1
    \<and> timeframe_end (cfg (sends_when_due (Suc (nat (allowed_requests c))) w0 s0)) = clock w + timeframe c"
proof -
  let ?A = "allowed_requests c" and ?T = "timeframe c"
  have s0: "cfg s0 = c\<lparr>timeframe_end := clock w + ?T, remaining_requests := ?A\<rparr>" "next_send s0 = clock w"
    "clock w0 = clock w" "quota_persist s0"
    using assms(1,5,6) by (auto simp: init_sender_def quota_defs split: if_splits)
  have "?T div ?A * ?A + ?T mod ?A = ?T" by (rule div_mult_mod_eq)
  moreover have "0 < ?T mod ?A" using assms(2,4) by (simp add: dvd_eq_mod_eq_0 order_le_neq_trans)
  moreover have "int (nat ?A) * (?T div ?A) = ?T div ?A * ?A" using assms(2) by simp
  ultimately have "clock w + int (nat ?A) * (?T div ?A) < clock w + ?T" by linarith
  then have "cfg (sends_when_due (Suc (nat ?A)) w0 s0)
      = (cfg s0)\<lparr>remaining_requests := remaining_requests (cfg s0) - int (Suc (nat ?A))\<rparr>"
    using s0 assms(1-3) fixed_sends_in_window [of s0 "clock w" w0 "nat ?A"] by simp
  with s0 assms(2) show ?thesis by simp
qed

theorem fixed_floor_overruns_witness:
  "remaining_requests (cfg (sends_when_due 8 (snd (init_sender 0 (cfg (fixed_sender 60 0 7 7)) True False (ex_world 0)))
      (projr (fst (init_sender 0 (cfg (fixed_sender 60 0 7 7)) True False (ex_world 0)))))) = -1"
  using fixed_floor_overruns [of "cfg (fixed_sender 60 0 7 7)" "ex_world 0" 0 False
      "projr (fst (init_sender 0 (cfg (fixed_sender 60 0 7 7)) True False (ex_world 0)))"
      "snd (init_sender 0 (cfg (fixed_sender 60 0 7 7)) True False (ex_world 0))"]
  by (simp add: init_sender_def quota_defs example_defs)

text \<open>C21: A fixed-delay account restarted inside a window whose persisted budget is already used up (remaining_requests at most 0) is still allowed to send at once: init sets next_send to now, and the next send drives the budget below 0 inside the same window.\<close>

theorem fixed_ignores_persisted_budget:
  assumes "use_fixed_delay c" "0 < allowed_requests c" "0 \<le> timeframe c" "clock w < timeframe_end c"
    "remaining_requests c \<le> 0" "init_sender i c True ns w = (Inr s0, w0)"
  shows "next_send s0 = clock w
    \<and> remaining_requests (cfg (sends_when_due 1 w0 s0)) = remaining_requests c - 1
    \<and> remaining_requests (cfg (sends_when_due 1 w0 s0)) < 0
    \<and> timeframe_end (cfg (sends_when_due 1 w0 s0)) = timeframe_end c"
proof -
  have s0: "cfg s0 = c" "next_send s0 = clock w" "clock w0 = clock w" "quota_persist s0"
    using assms(1,4,6) by (auto simp: init_sender_def quota_defs split: if_splits)
  then have "cfg (sends_when_due (Suc 0) w0 s0) = c\<lparr>remaining_requests := remaining_requests c - 1\<rparr>"
    using fixed_sends_in_window [of s0 "clock w" w0 0] assms(1-4) by simp
  with s0 assms(5) show ?thesis by simp
qed

theorem fixed_ignores_persisted_budget_witness:
  "next_send (projr (fst (init_sender 0 (cfg (fixed_sender 60 50 3 0)) True False (ex_world 0)))) = 0
   \<and> remaining_requests (cfg (sends_when_due 1 (snd (init_sender 0 (cfg (fixed_sender 60 50 3 0)) True False (ex_world 0)))
      (projr (fst (init_sender 0 (cfg (fixed_sender 60 50 3 0)) True False (ex_world 0)))))) = -1"
  using fixed_ignores_persisted_budget [of "cfg (fixed_sender 60 50 3 0)" "ex_world 0" 0 False
      "projr (fst (init_sender 0 (cfg (fixed_sender 60 50 3 0)) True False (ex_world 0)))"
      "snd (init_sender 0 (cfg (fixed_sender 60 50 3 0)) True False (ex_world 0))"]
  by (simp add: init_sender_def quota_defs example_defs)

end
