(* ===== verification/Sender.thy ===== *)
theory Sender
  imports Quota
begin

text \<open>
  The transport session and the retrying sender of one account: the methods
  \<open>connect_to_server\<close>, \<open>_send_mail\<close>, \<open>send_mail\<close> and \<open>close\<close> of \<open>Mail_sender\<close>
  (\<open>src/sheetmail.py\<close>, lines 68-156). Every SMTP interaction goes to the transport
  oracle of the world; the retry loop is a recursion on the attempt index \<open>i\<close> of
  \<open>for i in xrange(retries)\<close>, with the \<open>except\<close> clauses in their source order.
\<close>

section \<open>Operations\<close>

text \<open>
  Lines 68-79: open the connection (SSL or STARTTLS), greet and log in; any of the
  calls may raise, and only full success marks the sender connected. The four
  library calls are one login interaction of the oracle.
\<close>

definition connect_to_server :: "transport \<Rightarrow> world \<Rightarrow> mail_sender \<Rightarrow> unit result \<times> world \<times> mail_sender" where
  "connect_to_server env w s =
     (case interact env Login (\<lambda>_. Connect (ident s)) w of
        (None, w') \<Rightarrow> (Inr (), w', s\<lparr>connected := True\<rparr>)
      | (Some e, w') \<Rightarrow> (Inl e, w', s))"

text \<open>Lines 152-156: \<open>server.quit()\<close> with every exception swallowed.\<close>

definition close :: "world \<Rightarrow> mail_sender \<Rightarrow> world \<times> mail_sender" where
  "close w s = (emit (Quit (ident s)) w, s\<lparr>connected := False\<rparr>)"

text \<open>
  Lines 88-94: a string recipient becomes a one-element list; anything else reaches
  \<open>",".join(mail_to)\<close> and raises \<open>TypeError\<close>.
\<close>

definition mail_to_list :: "cell \<Rightarrow> string list result" where
  "mail_to_list mail_to = (case mail_to of Str a \<Rightarrow> Inr [a] | _ \<Rightarrow> Inl TypeError)"

text \<open>
  Line 91: \<open>MIMEText(mail_body, "plain", "utf-8")\<close> base64-encodes the body
  (\<open>email.base64mime.body_encode\<close>), which returns a false value as it is and
  takes \<open>len\<close> of any other: a non-zero number raises \<open>TypeError\<close>.
\<close>

definition mime_text :: "cell \<Rightarrow> unit result" where
  "mime_text mail_body = (case mail_body of Num i \<Rightarrow> if i = 0 then Inr () else Inl TypeError | _ \<Rightarrow> Inr ())"

text \<open>
  Line 97: \<open>msg.as_string()\<close> renders the payload, which must be a string or
  \<open>None\<close>, and the \<open>Subject\<close> header of line 92 through \<open>email.header.Header\<close>,
  which takes its \<open>len\<close>: a number in either place raises \<open>TypeError\<close>.
\<close>

definition as_string :: "cell \<Rightarrow> cell \<Rightarrow> unit result" where
  "as_string subject mail_body =
     (case (subject, mail_body) of (Num _, _) \<Rightarrow> Inl TypeError | (_, Num _) \<Rightarrow> Inl TypeError | _ \<Rightarrow> Inr ())"

text \<open>
  Lines 96-97: unless \<open>nosend\<close>, render the message and hand it to
  \<open>server.sendmail\<close>; \<open>None\<close> is success.
\<close>

definition transmit :: "transport \<Rightarrow> cell \<Rightarrow> cell \<Rightarrow> world \<Rightarrow> mail_sender \<Rightarrow> exc option \<times> world" where
  "transmit env subject mail_body w s =
     (if nosend s then (None, w)
      else (case as_string subject mail_body of
              Inl e \<Rightarrow> (Some e, w)
            | Inr _ \<Rightarrow> interact env Transmit (Sendmail (ident s)) w))"

text \<open>The arguments \<open>(mail_to, subject, mail_body)\<close> of \<open>_send_mail\<close> and \<open>send_mail\<close>.\<close>

type_synonym message = "cell \<times> cell \<times> cell"

text \<open>
  Lines 85-99, \<open>_send_mail\<close>: connect if needed, build the
  message (the body at line 91, the recipient list at line 94),
  transmit unless \<open>nosend\<close>, then count the send in the quota.
\<close>

definition send_mail_once :: "transport \<Rightarrow> message \<Rightarrow> world \<Rightarrow> mail_sender \<Rightarrow> unit result \<times> world \<times> mail_sender" where
  "send_mail_once env msg w s =
     (case msg of (mail_to, subject, mail_body) \<Rightarrow>
       (case (if connected s then (Inr (), w, s) else connect_to_server env w s) of
          (Inl e, w1, s1) \<Rightarrow> (Inl e, w1, s1)
        | (Inr _, w1, s1) \<Rightarrow>
            (case mime_text mail_body of
               Inl e \<Rightarrow> (Inl e, w1, s1)
             | Inr _ \<Rightarrow>
                 (case mail_to_list mail_to of
                    Inl e \<Rightarrow> (Inl e, w1, s1)
                  | Inr _ \<Rightarrow>
                      (case transmit env subject mail_body w1 s1 of
                         (Some e, w2) \<Rightarrow> (Inl e, w2, s1)
                       | (None, w2) \<Rightarrow> update_quotas True w2 s1)))))"

text \<open>
  Lines 113-148: the first \<open>except\<close> clause that matches. \<open>Reraise\<close> is
  \<open>raise e\<close>, \<open>GiveUp\<close> is \<open>return False\<close>, \<open>Reconnect\<close> closes, sleeps and
  retries, and \<open>Uncaught\<close> exceptions leave \<open>send_mail\<close> unhandled.
\<close>

datatype handling = Reraise | GiveUp | Reconnect | Uncaught

fun handler :: "exc \<Rightarrow> handling" where
  "handler SMTPRecipientsRefused = Reraise"
| "handler SMTPSenderRefused = GiveUp"
| "handler SMTPAuthenticationError = GiveUp"
| "handler SMTPHeloError = GiveUp"
| "handler SMTPDataError = Reconnect"
| "handler SocketError = Reconnect"
| "handler SMTPConnectError = Reconnect"
| "handler SMTPOtherError = GiveUp"
| "handler ZeroDivisionError = Uncaught"
| "handler TypeError = Uncaught"
| "handler IndexError = Uncaught"
| "handler OtherError = Uncaught"
| "handler CellCoordinatesException = Uncaught"
| "handler InvalidFileException = Uncaught"
| "handler ValueError = Uncaught"
| "handler KeyError = Uncaught"

text \<open>Lines 128-131 (and 135-138, 142-145): close, sleep, mark disconnected.\<close>

definition reconnect :: "int \<Rightarrow> world \<Rightarrow> mail_sender \<Rightarrow> world \<times> mail_sender" where
  "reconnect sleep_time w s =
     (case close w s of (w1, s1) \<Rightarrow> (sleep sleep_time w1, s1\<lparr>connected := False\<rparr>))"

text \<open>
  Lines 108-150: attempt \<open>i\<close> of \<open>retries\<close>. The guard \<open>if i < retries\<close> of the
  handlers is kept as the source writes it.
\<close>

function send_mail_loop ::
  "transport \<Rightarrow> message \<Rightarrow> nat \<Rightarrow> int \<Rightarrow> nat \<Rightarrow> world \<Rightarrow> mail_sender
   \<Rightarrow> bool result \<times> world \<times> mail_sender" where
  "send_mail_loop env msg retries sleep_time i w s =
     (if i < retries then
        (case send_mail_once env msg w s of
           (Inr _, w1, s1) \<Rightarrow> (Inr True, w1, s1)
         | (Inl e, w1, s1) \<Rightarrow>
             (case handler e of
                Reraise \<Rightarrow> (Inl e, w1, s1)
              | GiveUp \<Rightarrow> (Inr False, w1, s1)
              | Uncaught \<Rightarrow> (Inl e, w1, s1)
              | Reconnect \<Rightarrow>
                  (case (if i < retries then reconnect sleep_time w1 s1 else (w1, s1)) of
                     (w2, s2) \<Rightarrow> send_mail_loop env msg retries sleep_time (Suc i) w2 s2)))
      else (Inr False, w, s))"
  by pat_completeness auto
termination
  by (relation "measure (\<lambda>(env, msg, retries, sleep_time, i, w, s). retries - i)") auto

definition send_mail ::
  "transport \<Rightarrow> message \<Rightarrow> nat \<Rightarrow> int \<Rightarrow> world \<Rightarrow> mail_sender \<Rightarrow> bool result \<times> world \<times> mail_sender" where
  "send_mail env msg retries sleep_time w s = send_mail_loop env msg retries sleep_time 0 w s"

section \<open>Assumptions on the environment\<close>

text \<open>
  The exceptions a login can raise: connection and greeting failures, socket
  errors, authentication failures, and the other \<open>SMTPException\<close>s of
  \<open>starttls\<close> and \<open>login\<close>. Recipient, sender and data refusals only answer a
  transmission.
\<close>

fun login_exc :: "exc \<Rightarrow> bool" where
  "login_exc SMTPRecipientsRefused = False"
| "login_exc SMTPSenderRefused = False"
| "login_exc SMTPDataError = False"
| "login_exc CellCoordinatesException = False"
| "login_exc InvalidFileException = False"
| "login_exc ValueError = False"
| "login_exc KeyError = False"
| "login_exc _ = True"

definition sane_transport :: "transport \<Rightarrow> bool" where
  "sane_transport env \<longleftrightarrow> (\<forall>k. case fst (env k Login) of None \<Rightarrow> True | Some e \<Rightarrow> login_exc e)"

text \<open>A network that is down: every interaction fails with a retryable error.\<close>

definition transient_env :: "transport \<Rightarrow> bool" where
  "transient_env env \<longleftrightarrow> (\<forall>k m. case fst (env k m) of None \<Rightarrow> False | Some e \<Rightarrow> handler e = Reconnect)"

text \<open>Example transports: every interaction answers the same; or every transmission is refused.\<close>

definition env_const :: "exc option \<Rightarrow> transport" where "env_const r = (\<lambda>k m. (r, 1))"

definition env_refuse :: transport where
  "env_refuse = (\<lambda>k m. (if m = Transmit then Some SMTPRecipientsRefused else None, 0))"

text \<open>
  A message \<open>_send_mail\<close> can build and, unless \<open>nosend\<close>, render: the body
  passes \<open>MIMEText\<close>, the recipient is a string, subject and payload render.
\<close>

definition message_ok :: "bool \<Rightarrow> message \<Rightarrow> bool" where
  "message_ok ns msg = (case msg of (mail_to, subject, mail_body) \<Rightarrow>
     mime_text mail_body = Inr () \<and> \<not> isl (mail_to_list mail_to) \<and> (ns \<or> as_string subject mail_body = Inr ()))"

section \<open>Lemmas\<close>

declare send_mail_loop.simps [simp del]

lemmas send_mail_eval = send_mail_def send_mail_loop.simps send_mail_once_def connect_to_server_def
  interact_def reconnect_def close_def sleep_def emit_def mail_to_list_def env_const_def env_refuse_def
  mime_text_def as_string_def transmit_def quota_defs example_defs

lemma send_mail_split: "send_mail env to R st w s = (fst (send_mail env to R st w s),
    fst (snd (send_mail env to R st w s)), snd (snd (send_mail env to R st w s)))"
  by simp

lemma connect_step:
  assumes "(if connected s then (Inr (), w, s) else connect_to_server env w s) = (r0, w0, s0)"
  shows "s0 = (if r0 = Inr () then s\<lparr>connected := True\<rparr> else s)
    \<and> clock w \<le> clock w0 \<and> ticks w0 \<le> Suc (ticks w)
    \<and> (log w0 = log w \<or> log w0 = log w @ [Connect (ident s)])
    \<and> (connected s \<longrightarrow> r0 = Inr () \<and> w0 = w)
    \<and> (\<not> connected s \<longrightarrow> r0 = (case fst (env (ticks w) Login) of None \<Rightarrow> Inr () | Some e \<Rightarrow> Inl e)
        \<and> ticks w0 = Suc (ticks w) \<and> log w0 = log w @ [Connect (ident s)])"
proof (cases "connected s")
  case True
  with assms show ?thesis by auto
next
  case False
  obtain a w1 where i: "interact env Login (\<lambda>_. Connect (ident s)) w = (a, w1)"
    by (cases "interact env Login (\<lambda>_. Connect (ident s)) w")
  from interact_fields [OF i] have f: "fst (env (ticks w) Login) = a" "clock w \<le> clock w1"
    "ticks w1 = Suc (ticks w)" "log w1 = log w @ [Connect (ident s)]"
    by simp_all
  show ?thesis
  proof (cases a)
    case None
    with False assms i f show ?thesis by (simp add: connect_to_server_def)
  next
    case (Some e)
    with False assms i f show ?thesis by (auto simp: connect_to_server_def)
  qed
qed

lemma transmit_step:
  assumes "transmit env sj b w s = (r2, w2)"
  shows "clock w \<le> clock w2 \<and> ticks w2 \<le> Suc (ticks w)
    \<and> (log w2 = log w \<and> nosend s \<and> r2 = None
       \<or> w2 = w \<and> \<not> nosend s \<and> as_string sj b = Inl TypeError \<and> r2 = Some TypeError
       \<or> log w2 = log w @ [Sendmail (ident s) (r2 = None)] \<and> \<not> nosend s \<and> as_string sj b = Inr ()
         \<and> r2 = fst (env (ticks w) Transmit))"
proof (cases "nosend s")
  case True
  with assms show ?thesis by (simp add: transmit_def)
next
  case False
  show ?thesis
  proof (cases "as_string sj b")
    case (Inl e)
    then have "e = TypeError" by (simp add: as_string_def split: prod.splits cell.splits)
    with False Inl assms show ?thesis by (simp add: transmit_def)
  next
    case (Inr u)
    with False assms interact_fields [of env Transmit "Sendmail (ident s)" w r2 w2] show ?thesis
      by (simp add: transmit_def)
  qed
qed

lemma update_quotas_log:
  assumes "update_quotas b w s = (r, w', s')"
  shows "clock w' = clock w \<and> ticks w' = ticks w \<and> sleeps (log w') = sleeps (log w)
    \<and> quits (log w') = quits (log w) \<and> deliveries (log w') = deliveries (log w)"
  using update_quotas_frame [OF assms] by auto

lemma send_mail_once_cases:
  assumes "send_mail_once env msg w s = (r, w1, s1)"
  obtains (login_failed) e where "\<not> connected s" "fst (env (ticks w) Login) = Some e" "r = Inl e"
      "s1 = s" "clock w \<le> clock w1" "ticks w1 = Suc (ticks w)" "log w1 = log w @ [Connect (ident s)]"
  | (bad_message) pre where "\<not> message_ok (nosend s) msg" "r = Inl TypeError"
      "s1 = s\<lparr>connected := True\<rparr>" "clock w \<le> clock w1" "ticks w1 \<le> Suc (ticks w)"
      "log w1 = log w @ pre" "pre = [] \<or> pre = [Connect (ident s)]"
  | (refused) e w0 pre where "\<not> nosend s" "fst (env (ticks (w0 :: world)) Transmit) = Some e" "r = Inl e"
      "s1 = s\<lparr>connected := True\<rparr>" "clock w \<le> clock w1" "ticks w1 \<le> ticks w + 2"
      "log w1 = log w @ pre @ [Sendmail (ident s) False]" "pre = [] \<or> pre = [Connect (ident s)]"
      "message_ok (nosend s) msg" "ticks w0 = (if connected s then ticks w else Suc (ticks w))"
  | (transmitted) w2 pre where "update_quotas True w2 (s\<lparr>connected := True\<rparr>) = (r, w1, s1)"
      "clock w \<le> clock w2" "ticks w2 \<le> ticks w + 2" "log w2 = log w @ pre"
      "sleeps pre = 0" "quits pre = 0" "deliveries pre = (if nosend s then 0 else 1)"
      "nosend s \<or> fst (env (if connected s then ticks w else Suc (ticks w)) Transmit) = None"
      "message_ok (nosend s) msg"
proof -
  obtain mail_to sj b where m: "msg = (mail_to, sj, b)" by (cases msg) auto
  obtain r0 w0 s0 where c: "(if connected s then (Inr (), w, s) else connect_to_server env w s) = (r0, w0, s0)"
    using prod_cases3 by blast
  note C = connect_step [OF c]
  have def: "send_mail_once env msg w s = (case (r0, w0, s0) of
        (Inl e, w1, s1) \<Rightarrow> (Inl e, w1, s1)
      | (Inr _, w1, s1) \<Rightarrow>
          (case mime_text b of
             Inl e \<Rightarrow> (Inl e, w1, s1)
           | Inr _ \<Rightarrow>
               (case mail_to_list mail_to of
                  Inl e \<Rightarrow> (Inl e, w1, s1)
                | Inr _ \<Rightarrow>
                    (case transmit env sj b w1 s1 of
                       (Some e, w2) \<Rightarrow> (Inl e, w2, s1)
                     | (None, w2) \<Rightarrow> update_quotas True w2 s1))))"
    unfolding send_mail_once_def c m by simp
  have pre0: "\<exists>pre. log w0 = log w @ pre \<and> (pre = [] \<or> pre = [Connect (ident s)])"
    using C by auto
  show ?thesis
  proof (cases r0)
    case (Inl e)
    with assms def have "r = Inl e" "w1 = w0" "s1 = s0" by simp_all
    moreover from C Inl have "\<not> connected s" "fst (env (ticks w) Login) = Some e"
      "ticks w0 = Suc (ticks w)" "log w0 = log w @ [Connect (ident s)]" "s0 = s" "clock w \<le> clock w0"
      by (auto split: option.splits)
    ultimately show ?thesis using login_failed by simp
  next
    case (Inr u)
    with C have s0: "s0 = s\<lparr>connected := True\<rparr>" by simp
    have bad: "\<not> message_ok (nosend s) msg \<Longrightarrow> r = Inl TypeError \<Longrightarrow> w1 = w0 \<Longrightarrow> s1 = s0 \<Longrightarrow> thesis"
      using C s0 pre0 bad_message by auto
    show ?thesis
    proof (cases "mime_text b")
      case (Inl e)
      then have "e = TypeError" "\<not> message_ok (nosend s) msg"
        by (auto simp: mime_text_def message_ok_def m split: cell.splits if_splits)
      with Inl assms def \<open>r0 = Inr u\<close> show ?thesis by (intro bad) simp_all
    next
      case mt: (Inr u1)
      show ?thesis
      proof (cases "mail_to_list mail_to")
        case (Inl e)
        then have "e = TypeError" "\<not> message_ok (nosend s) msg"
          by (auto simp: mail_to_list_def message_ok_def m split: cell.splits)
        with Inl mt assms def \<open>r0 = Inr u\<close> show ?thesis by (intro bad) simp_all
      next
        case (Inr l)
        obtain r2 w2 where t: "transmit env sj b w0 s0 = (r2, w2)" by (metis prod.exhaust)
        note T = transmit_step [OF t]
        show ?thesis
        proof (cases "\<not> nosend s \<and> as_string sj b = Inl TypeError")
          case True
          then have "\<not> message_ok (nosend s) msg" by (simp add: message_ok_def m)
          moreover have "r2 = Some TypeError" "w2 = w0" using T True s0 by auto
          ultimately show ?thesis using assms def \<open>r0 = Inr u\<close> mt Inr t by (intro bad) simp_all
        next
          case False
          then have ok: "message_ok (nosend s) msg"
            using mt Inr T s0 by (auto simp: message_ok_def m)
          show ?thesis
          proof (cases r2)
            case None
            with assms def \<open>r0 = Inr u\<close> mt Inr t have u: "update_quotas True w2 s0 = (r, w1, s1)"
              by simp
            obtain pre where "log w2 = log w @ pre" "sleeps pre = 0" "quits pre = 0"
                "deliveries pre = (if nosend s then 0 else 1)"
              using C T None s0 False by (cases "connected s") auto
            moreover have "clock w \<le> clock w2" "ticks w2 \<le> ticks w + 2" using C T by auto
            moreover have "nosend s \<or> fst (env (if connected s then ticks w else Suc (ticks w)) Transmit) = None"
            proof (cases "nosend s")
              case False
              then have "fst (env (ticks w0) Transmit) = None" using T None s0 by auto
              with C show ?thesis by (cases "connected s") auto
            qed simp
            ultimately show ?thesis using u s0 ok transmitted by blast
          next
            case (Some e)
            with assms def \<open>r0 = Inr u\<close> mt Inr t have r: "r = Inl e" "w1 = w2" "s1 = s0" by simp_all
            have f: "\<not> nosend s" "fst (env (ticks w0) Transmit) = Some e"
              "log w2 = log w0 @ [Sendmail (ident s) False]" "clock w \<le> clock w2" "ticks w2 \<le> ticks w + 2"
              using Some s0 C T False by auto
            obtain pre where p: "log w0 = log w @ pre" "pre = [] \<or> pre = [Connect (ident s)]"
              using pre0 by blast
            have "s1 = s\<lparr>connected := True\<rparr>" "clock w \<le> clock w1" "ticks w1 \<le> ticks w + 2"
              "log w1 = log w @ pre @ [Sendmail (ident s) False]"
              using r f p s0 by simp_all
            moreover have "ticks w0 = (if connected s then ticks w else Suc (ticks w))"
              using C by auto
            ultimately show ?thesis using f(1,2) r(1) p(2) ok by (intro that(3) [of w0 e pre]) simp_all
          qed
        qed
      qed
    qed
  qed
qed


lemma send_mail_once_frame:
  assumes "send_mail_once env to w s = (r, w1, s1)"
  shows "ident s1 = ident s \<and> quota_persist s1 = quota_persist s \<and> nosend s1 = nosend s
    \<and> clock w \<le> clock w1 \<and> ticks w1 \<le> ticks w + 2
    \<and> sleeps (log w1) = sleeps (log w) \<and> quits (log w1) = quits (log w)
    \<and> use_fixed_delay (cfg s1) = use_fixed_delay (cfg s) \<and> update_config (cfg s1) = update_config (cfg s)"
  using assms
proof (cases rule: send_mail_once_cases)
  case (transmitted w2 pre)
  with update_quotas_frame [OF transmitted(1)] update_quotas_log [OF transmitted(1)]
  show ?thesis by auto
qed auto

lemma reconnect_fields:
  "reconnect st w s = (w', s') \<Longrightarrow>
     s' = s\<lparr>connected := False\<rparr> \<and> clock w' = clock w + st \<and> ticks w' = ticks w
     \<and> log w' = log w @ [Quit (ident s), Sleep st]"
  by (auto simp: reconnect_def close_def)

lemma send_mail_loop_retry:
  "i < R \<Longrightarrow> send_mail_once env to w s = (Inl e, w1, s1) \<Longrightarrow> handler e = Reconnect \<Longrightarrow>
   reconnect st w1 s1 = (w2, s2) \<Longrightarrow>
   send_mail_loop env to R st i w s = send_mail_loop env to R st (Suc i) w2 s2"
  by (simp add: send_mail_loop.simps [of env to R st i w s])

lemma send_mail_loop_done:
  "i < R \<Longrightarrow> send_mail_once env to w s = (r1, w1, s1) \<Longrightarrow>
   (\<And>e. r1 = Inl e \<Longrightarrow> handler e \<noteq> Reconnect) \<Longrightarrow>
   send_mail_loop env to R st i w s =
     ((case r1 of Inr _ \<Rightarrow> Inr True | Inl e \<Rightarrow> if handler e = GiveUp then Inr False else Inl e), w1, s1)"
  by (cases r1; cases "handler (projl r1)")
     (auto simp: send_mail_loop.simps [of env to R st i w s])

lemma send_mail_loop_exhausted: "\<not> i < R \<Longrightarrow> send_mail_loop env to R st i w s = (Inr False, w, s)"
  by (simp add: send_mail_loop.simps [of env to R st i w s])

lemma send_mail_loop_rule:
  assumes "send_mail_loop env to R st i w s = (r, w', s')" "I i w s"
    and retry: "\<And>i w s e w1 s1 w2 s2. I i w s \<Longrightarrow> i < R \<Longrightarrow>
        send_mail_once env to w s = (Inl e, w1, s1) \<Longrightarrow> handler e = Reconnect \<Longrightarrow>
        reconnect st w1 s1 = (w2, s2) \<Longrightarrow> I (Suc i) w2 s2"
    and stop: "\<And>i w s r1 w1 s1. I i w s \<Longrightarrow> i < R \<Longrightarrow> send_mail_once env to w s = (r1, w1, s1) \<Longrightarrow>
        (\<And>e. r1 = Inl e \<Longrightarrow> handler e \<noteq> Reconnect) \<Longrightarrow>
        Q (case r1 of Inr _ \<Rightarrow> Inr True | Inl e \<Rightarrow> if handler e = GiveUp then Inr False else Inl e) w1 s1"
    and exhausted: "\<And>i w s. I i w s \<Longrightarrow> \<not> i < R \<Longrightarrow> Q (Inr False) w s"
  shows "Q r w' s'"
  using assms(1,2)
proof (induction "R - i" arbitrary: i w s r w' s')
  case 0
  then have "\<not> i < R" by simp
  with "0.prems" have "r = Inr False" "w' = w" "s' = s" by (simp_all add: send_mail_loop_exhausted)
  with exhausted [OF "0.prems"(2) \<open>\<not> i < R\<close>] show ?case by simp
next
  case (Suc k)
  then have lt: "i < R" by simp
  obtain r1 w1 s1 where o: "send_mail_once env to w s = (r1, w1, s1)"
    using prod_cases3 by blast
  show ?case
  proof (cases "\<exists>e. r1 = Inl e \<and> handler e = Reconnect")
    case False
    then have nr: "\<And>e. r1 = Inl e \<Longrightarrow> handler e \<noteq> Reconnect" by blast
    have "send_mail_loop env to R st i w s =
      ((case r1 of Inr _ \<Rightarrow> Inr True | Inl e \<Rightarrow> if handler e = GiveUp then Inr False else Inl e), w1, s1)"
      using lt o nr by (rule send_mail_loop_done)
    with Suc.prems stop [OF Suc.prems(2) lt o nr] show ?thesis by simp
  next
    case True
    then obtain e where e: "r1 = Inl e" "handler e = Reconnect" by blast
    obtain w2 s2 where rc: "reconnect st w1 s1 = (w2, s2)" using prod.exhaust by blast
    have k: "k = R - Suc i" using Suc.hyps(2) by simp
    have "send_mail_loop env to R st (Suc i) w2 s2 = (r, w', s')"
      using send_mail_loop_retry [OF lt o [unfolded e(1)] e(2) rc] Suc.prems(1) by simp
    moreover have "I (Suc i) w2 s2"
      using retry [OF Suc.prems(2) lt o [unfolded e(1)] e(2) rc] .
    ultimately show ?thesis by (rule Suc.hyps(1) [OF k])
  qed
qed


lemma update_quotas_errors: "update_quotas b w s = (Inl e, w', s') \<Longrightarrow> e = TypeError \<or> e = ZeroDivisionError"
  by (auto simp: quota_defs split: if_splits)

lemma update_quotas_error_cause:
  "update_quotas b w s = (Inl e, w', s') \<Longrightarrow>
   e = TypeError \<and> update_config (cfg s) \<and> \<not> quota_persist s \<or> e = ZeroDivisionError \<and> use_fixed_delay (cfg s)"
  by (auto simp: quota_defs split: if_splits)

lemma adaptive_ok_connected [simp]: "adaptive_ok (s\<lparr>connected := b\<rparr>) = adaptive_ok s"
  by (simp add: adaptive_ok_def)

lemma send_mail_once_adaptive:
  assumes "send_mail_once env to w s = (r, w1, s1)"
    and "adaptive_ok s" "quota_persist s" "next_send s \<le> clock w"
  shows "adaptive_ok s1 \<and> quota_persist s1 \<and> (r = Inr () \<or> next_send s1 = next_send s \<and> cfg s1 = cfg s)"
  using assms(1)
proof (cases rule: send_mail_once_cases)
  case (transmitted w2 pre)
  have "r = Inr () \<and> adaptive_ok s1"
    using update_quotas_adaptive_ok [OF _ _ _ transmitted(1)] assms transmitted(2) by simp
  with update_quotas_frame [OF transmitted(1)] assms(3) show ?thesis by simp
qed (use assms in auto)

theorem send_mail_adaptive_ok:
  assumes "adaptive_ok s" "quota_persist s" "next_send s \<le> clock w" "0 \<le> st"
    and "send_mail env to R st w s = (r, w', s')"
  shows "adaptive_ok s' \<and> quota_persist s'"
proof (rule send_mail_loop_rule [where I = "\<lambda>i w s. adaptive_ok s \<and> quota_persist s \<and> next_send s \<le> clock w"
      and Q = "\<lambda>r w s. adaptive_ok s \<and> quota_persist s"])
  show "send_mail_loop env to R st 0 w s = (r, w', s')" using assms(5) by (simp add: send_mail_def)
  show "adaptive_ok s \<and> quota_persist s \<and> next_send s \<le> clock w" using assms(1-3) by simp
next
  fix i w s e w1 s1 w2 s2
  assume I: "adaptive_ok s \<and> quota_persist s \<and> next_send s \<le> clock w"
    and o: "send_mail_once env to w s = (Inl e, w1, s1)" and rc: "reconnect st w1 s1 = (w2, s2)"
  from send_mail_once_adaptive [OF o] I send_mail_once_frame [OF o] reconnect_fields [OF rc] assms(4)
  show "adaptive_ok s2 \<and> quota_persist s2 \<and> next_send s2 \<le> clock w2" by auto
next
  fix i w s r1 w1 s1
  assume I: "adaptive_ok s \<and> quota_persist s \<and> next_send s \<le> clock w"
    and o: "send_mail_once env to w s = (r1, w1, s1)"
  from send_mail_once_adaptive [OF o] I show "adaptive_ok s1 \<and> quota_persist s1" by simp
qed simp


text \<open>C22: When the sender is connected or can log in, the message is well formed and the first transmission is refused with SMTPRecipientsRefused, send_mail re-raises the refusal from its first attempt: no retry, no quit, no sleep; the log ends with the refused transmission and the sender stays connected.\<close>

theorem send_mail_recipients_refused:
  assumes "0 < R" "\<not> nosend s" "message_ok False msg"
    and "connected s \<or> fst (env (ticks w) Login) = None"
    and "fst (env (if connected s then ticks w else Suc (ticks w)) Transmit) = Some SMTPRecipientsRefused"
  shows "fst (send_mail env msg R st w s) = Inl SMTPRecipientsRefused
    \<and> snd (snd (send_mail env msg R st w s)) = s\<lparr>connected := True\<rparr>
    \<and> (\<exists>pre. log (fst (snd (send_mail env msg R st w s))) = log w @ pre @ [Sendmail (ident s) False]
         \<and> (pre = [] \<or> pre = [Connect (ident s)]))"
proof -
  obtain r1 w1 s1 where o: "send_mail_once env msg w s = (r1, w1, s1)" using prod_cases3 by blast
  from o have r: "r1 = Inl SMTPRecipientsRefused \<and> s1 = s\<lparr>connected := True\<rparr>
      \<and> (\<exists>pre. log w1 = log w @ pre @ [Sendmail (ident s) False] \<and> (pre = [] \<or> pre = [Connect (ident s)]))"
  proof (cases rule: send_mail_once_cases)
    case (refused e w0 pre)
    with assms(5) show ?thesis by auto
  qed (use assms(2-5) in auto)
  then have "send_mail env msg R st w s = (Inl SMTPRecipientsRefused, w1, s1)"
    using send_mail_loop_done [OF assms(1) o] by (simp add: send_mail_def)
  with r show ?thesis by simp
qed

theorem send_mail_recipients_refused_witness:
  "fst (send_mail env_refuse (Str ''a'', Str ''s'', Str ''b'') 3 5 (ex_world 0) (adaptive_sender 60 0 3 3))
     = Inl SMTPRecipientsRefused
   \<and> connected (snd (snd (send_mail env_refuse (Str ''a'', Str ''s'', Str ''b'') 3 5 (ex_world 0)
       (adaptive_sender 60 0 3 3))))"
  using send_mail_recipients_refused [where R = 3 and s = "adaptive_sender 60 0 3 3"
      and msg = "(Str ''a'', Str ''s'', Str ''b'')" and env = env_refuse and w = "ex_world 0" and st = 5]
  by (simp add: message_ok_def mime_text_def mail_to_list_def as_string_def env_refuse_def example_defs)

text \<open>C24: When an attempt raises SMTPSenderRefused, SMTPAuthenticationError, SMTPHeloError or another SMTPException than the three retried ones, send_mail returns False at once with the world and sender of that attempt: no retry, no quit, no sleep.\<close>

theorem send_mail_gives_up:
  assumes "0 < R" "send_mail_once env msg w s = (Inl e, w1, s1)"
    and "e \<in> {SMTPSenderRefused, SMTPAuthenticationError, SMTPHeloError, SMTPOtherError}"
  shows "send_mail env msg R st w s = (Inr False, w1, s1)"
  using send_mail_loop_done [OF assms(1,2)] assms(3) by (auto simp: send_mail_def)

theorem send_mail_gives_up_witness:
  "send_mail (env_const (Some SMTPAuthenticationError)) (Str ''a'', Str ''s'', Str ''b'') 3 5 (ex_world 0)
     (adaptive_sender 60 0 3 3)
   = (Inr False, \<lparr>clock = 1, ticks = 1, log = [Connect 0]\<rparr>, adaptive_sender 60 0 3 3)"
proof -
  have "send_mail_once (env_const (Some SMTPAuthenticationError)) (Str ''a'', Str ''s'', Str ''b'') (ex_world 0)
      (adaptive_sender 60 0 3 3)
      = (Inl SMTPAuthenticationError, \<lparr>clock = 1, ticks = 1, log = [Connect 0]\<rparr>, adaptive_sender 60 0 3 3)"
    by (simp add: send_mail_eval)
  from send_mail_gives_up [OF _ this] show ?thesis by simp
qed

text \<open>C33: A message that _send_mail cannot build or render (a non-zero number as body, a recipient that is not a string, or, unless nosend, a number as subject or payload) makes send_mail raise TypeError at its first attempt, which no except clause catches: no retry, and no mail is delivered.\<close>

theorem send_mail_bad_message:
  assumes "0 < R" "connected s \<or> fst (env (ticks w) Login) = None" "\<not> message_ok (nosend s) msg"
  shows "fst (send_mail env msg R st w s) = Inl TypeError
    \<and> deliveries (log (fst (snd (send_mail env msg R st w s)))) = deliveries (log w)"
proof -
  obtain r1 w1 s1 where o: "send_mail_once env msg w s = (r1, w1, s1)" using prod_cases3 by blast
  from o have r: "r1 = Inl TypeError \<and> deliveries (log w1) = deliveries (log w)"
  proof (cases rule: send_mail_once_cases)
    case (bad_message pre)
    then show ?thesis by auto
  qed (use assms(2,3) in auto)
  then have "send_mail env msg R st w s = (Inl TypeError, w1, s1)"
    using send_mail_loop_done [OF assms(1) o] by (simp add: send_mail_def)
  with r show ?thesis by simp
qed

theorem send_mail_bad_message_witness:
  "fst (send_mail (env_const None) (Str ''a'', Str ''s'', Num 5) 3 5 (ex_world 0) (adaptive_sender 60 0 3 3))
     = Inl TypeError"
  using send_mail_bad_message [where R = 3 and s = "adaptive_sender 60 0 3 3"
      and msg = "(Str ''a'', Str ''s'', Num 5)" and env = "env_const None" and w = "ex_world 0" and st = 5]
  by (simp add: message_ok_def mime_text_def env_const_def example_defs)

lemma send_mail_once_transient:
  assumes "transient_env env" "send_mail_once env msg w s = (r, w1, s1)" "\<not> nosend s"
    "message_ok False msg"
  shows "\<exists>e. r = Inl e \<and> handler e = Reconnect \<and> deliveries (log w1) = deliveries (log w)"
  using assms(2)
proof (cases rule: send_mail_once_cases)
  case (login_failed e)
  with assms(1) show ?thesis
    by (auto simp: transient_env_def dest!: spec [of _ "ticks w"] spec [of _ Login])
next
  case (refused e w0 pre)
  with assms(1) show ?thesis
    by (auto simp: transient_env_def dest!: spec [of _ "ticks w0"] spec [of _ Transmit])
next
  case (transmitted w2 pre)
  with assms(3) obtain k where "fst (env k Transmit) = None" by blast
  with assms(1) have False unfolding transient_env_def by (metis option.simps(4))
  then show ?thesis ..
qed (use assms(3,4) in simp)

text \<open>C23: When every SMTP interaction fails with a retryable error and the message is well formed, send_mail returns False after exactly `retries` reconnect cycles, each with its sleep (the last one included), delivers nothing and leaves the sender disconnected.\<close>

theorem send_mail_exhausts_retries:
  assumes "transient_env env" "\<not> nosend s" "message_ok False msg"
    and "send_mail env msg R st w s = (r, w', s')"
  shows "r = Inr False \<and> sleeps (log w') = sleeps (log w) + R
    \<and> deliveries (log w') = deliveries (log w) \<and> (0 < R \<longrightarrow> \<not> connected s')"
proof (rule send_mail_loop_rule [where I = "\<lambda>j ww ss. sleeps (log ww) = sleeps (log w) + j
        \<and> deliveries (log ww) = deliveries (log w) \<and> \<not> nosend ss \<and> j \<le> R \<and> (0 < j \<longrightarrow> \<not> connected ss)"
      and Q = "\<lambda>rr ww ss. rr = Inr False \<and> sleeps (log ww) = sleeps (log w) + R
        \<and> deliveries (log ww) = deliveries (log w) \<and> (0 < R \<longrightarrow> \<not> connected ss)"])
  show "send_mail_loop env msg R st 0 w s = (r, w', s')"
    using assms(4) by (simp add: send_mail_def)
next
  fix i w1 s1 e w2 s2 w3 s3
  assume I: "sleeps (log w1) = sleeps (log w) + i \<and> deliveries (log w1) = deliveries (log w)
      \<and> \<not> nosend s1 \<and> i \<le> R \<and> (0 < i \<longrightarrow> \<not> connected s1)"
    and lt: "i < R" and o: "send_mail_once env msg w1 s1 = (Inl e, w2, s2)"
    and rc: "reconnect st w2 s2 = (w3, s3)"
  from send_mail_once_transient [OF assms(1) o _ assms(3)] send_mail_once_frame [OF o] reconnect_fields [OF rc] I lt
  show "sleeps (log w3) = sleeps (log w) + Suc i \<and> deliveries (log w3) = deliveries (log w)
      \<and> \<not> nosend s3 \<and> Suc i \<le> R \<and> (0 < Suc i \<longrightarrow> \<not> connected s3)" by auto
next
  fix i w1 s1 r1 w2 s2
  assume I: "sleeps (log w1) = sleeps (log w) + i \<and> deliveries (log w1) = deliveries (log w)
      \<and> \<not> nosend s1 \<and> i \<le> R \<and> (0 < i \<longrightarrow> \<not> connected s1)"
    and o: "send_mail_once env msg w1 s1 = (r1, w2, s2)"
    and nr: "\<And>e. r1 = Inl e \<Longrightarrow> handler e \<noteq> Reconnect"
  from send_mail_once_transient [OF assms(1) o _ assms(3)] I nr
  show "(case r1 of Inr _ \<Rightarrow> Inr True | Inl e \<Rightarrow> if handler e = GiveUp then Inr False else Inl e) = Inr False
      \<and> sleeps (log w2) = sleeps (log w) + R \<and> deliveries (log w2) = deliveries (log w)
      \<and> (0 < R \<longrightarrow> \<not> connected s2)" by blast
next
  fix i w1 s1
  assume "sleeps (log w1) = sleeps (log w) + i \<and> deliveries (log w1) = deliveries (log w)
      \<and> \<not> nosend s1 \<and> i \<le> R \<and> (0 < i \<longrightarrow> \<not> connected s1)" "\<not> i < R"
  then show "Inr False = Inr False \<and> sleeps (log w1) = sleeps (log w) + R
      \<and> deliveries (log w1) = deliveries (log w) \<and> (0 < R \<longrightarrow> \<not> connected s1)" by auto
qed (use assms(2) in simp)

theorem send_mail_exhausts_retries_witness:
  "transient_env (env_const (Some SocketError))
   \<and> fst (send_mail (env_const (Some SocketError)) (Str ''a'', Str ''s'', Str ''b'') 3 5 (ex_world 0) (adaptive_sender 60 0 3 3)) = Inr False
   \<and> sleeps (log (fst (snd (send_mail (env_const (Some SocketError)) (Str ''a'', Str ''s'', Str ''b'') 3 5 (ex_world 0) (adaptive_sender 60 0 3 3))))) = 3"
proof -
  have t: "transient_env (env_const (Some SocketError))" by (simp add: transient_env_def env_const_def)
  from send_mail_exhausts_retries [OF t _ _ send_mail_split, where s = "adaptive_sender 60 0 3 3" and msg = "(Str ''a'', Str ''s'', Str ''b'')"
      and R = 3 and st = 5 and w = "ex_world 0"] t
  show ?thesis by (simp add: message_ok_def mime_text_def mail_to_list_def as_string_def example_defs)
qed

lemma send_mail_once_deliveries:
  assumes "send_mail_once env to w s = (r, w1, s1)" "\<not> nosend s"
  shows "deliveries (log w1) = deliveries (log w) + (if r = Inr () then 1 else 0)
    \<or> ((r = Inl TypeError \<or> r = Inl ZeroDivisionError) \<and> deliveries (log w1) = Suc (deliveries (log w)))"
  using assms(1)
proof (cases rule: send_mail_once_cases)
  case (transmitted w2 pre)
  with update_quotas_log [OF transmitted(1)] assms(2) show ?thesis
    by (cases r) (auto dest: update_quotas_errors)
qed auto

lemma send_mail_once_deliveries_ok:
  assumes "send_mail_once env to w s = (r, w1, s1)" "\<not> nosend s" "quota_persist s" "\<not> use_fixed_delay (cfg s)"
  shows "deliveries (log w1) = deliveries (log w) + (if r = Inr () then 1 else 0)"
  using assms(1)
proof (cases rule: send_mail_once_cases)
  case (transmitted w2 pre)
  with update_quotas_log [OF transmitted(1)] assms(2-4) show ?thesis
    by (cases r) (auto dest: update_quotas_error_cause)
qed auto

lemma send_mail_flags:
  assumes "send_mail env to R st w s = (r, w', s')"
  shows "ident s' = ident s \<and> nosend s' = nosend s \<and> quota_persist s' = quota_persist s"
proof (rule send_mail_loop_rule [where I = "\<lambda>j ww ss. ident ss = ident s \<and> nosend ss = nosend s
        \<and> quota_persist ss = quota_persist s"
      and Q = "\<lambda>rr ww ss. ident ss = ident s \<and> nosend ss = nosend s \<and> quota_persist ss = quota_persist s"])
  show "send_mail_loop env to R st 0 w s = (r, w', s')" using assms by (simp add: send_mail_def)
next
  fix i w1 s1 e w2 s2 w3 s3
  assume "ident s1 = ident s \<and> nosend s1 = nosend s \<and> quota_persist s1 = quota_persist s"
    and o: "send_mail_once env to w1 s1 = (Inl e, w2, s2)" and rc: "reconnect st w2 s2 = (w3, s3)"
  with send_mail_once_frame [OF o] reconnect_fields [OF rc]
  show "ident s3 = ident s \<and> nosend s3 = nosend s \<and> quota_persist s3 = quota_persist s" by simp
next
  fix i w1 s1 r1 w2 s2
  assume "ident s1 = ident s \<and> nosend s1 = nosend s \<and> quota_persist s1 = quota_persist s"
    and o: "send_mail_once env to w1 s1 = (r1, w2, s2)"
  with send_mail_once_frame [OF o]
  show "ident s2 = ident s \<and> nosend s2 = nosend s \<and> quota_persist s2 = quota_persist s" by simp
qed simp_all

text \<open>
  A network that answers every interaction with success: then a call with a string
  recipient on an adaptive account with its persist callback delivers at the first
  attempt.
\<close>

lemma message_ok_nosend: "message_ok False msg \<Longrightarrow> message_ok ns msg"
  by (auto simp: message_ok_def split: prod.splits)

lemma send_mail_once_up:
  assumes "\<forall>k m. fst (env k m) = None" "quota_persist s" "\<not> use_fixed_delay (cfg s)"
    and "send_mail_once env msg w s = (r, w1, s1)" "message_ok (nosend s) msg"
  shows "r = Inr ()"
  using assms(4)
proof (cases rule: send_mail_once_cases)
  case (transmitted w2 pre)
  show ?thesis
  proof (cases r)
    case (Inl e)
    with transmitted(1) assms(2,3) show ?thesis by (auto dest: update_quotas_error_cause)
  qed simp
qed (use assms(1,5) in simp_all)

lemma send_mail_up:
  assumes "\<forall>k m. fst (env k m) = None" "quota_persist s" "\<not> use_fixed_delay (cfg s)" "0 < R"
    and "send_mail env msg R st w s = (r, w', s')" "message_ok (nosend s) msg"
  shows "r = Inr True"
proof -
  obtain r1 w1 s1 where o: "send_mail_once env msg w s = (r1, w1, s1)" using prod_cases3 by blast
  with send_mail_once_up [OF assms(1-3) _ assms(6)] have "r1 = Inr ()" by simp
  with send_mail_loop_done [OF assms(4) o] assms(5) show ?thesis by (simp add: send_mail_def)
qed

text \<open>
  With the persist callback present and adaptive pacing, the quota update cannot
  fail, so a call delivers one mail exactly when it returns \<open>True\<close>.
\<close>

lemma send_mail_delivers_once:
  assumes "\<not> nosend s" "quota_persist s" "\<not> use_fixed_delay (cfg s)"
    and "send_mail env to R st w s = (r, w', s')"
  shows "deliveries (log w') = deliveries (log w) + (if r = Inr True then 1 else 0)"
proof (rule send_mail_loop_rule [where I = "\<lambda>j ww ss. deliveries (log ww) = deliveries (log w) \<and> \<not> nosend ss
        \<and> quota_persist ss \<and> \<not> use_fixed_delay (cfg ss)"
      and Q = "\<lambda>rr ww ss. deliveries (log ww) = deliveries (log w) + (if rr = Inr True then 1 else 0)"])
  show "send_mail_loop env to R st 0 w s = (r, w', s')" using assms(4) by (simp add: send_mail_def)
next
  fix i w1 s1 e w2 s2 w3 s3
  assume I: "deliveries (log w1) = deliveries (log w) \<and> \<not> nosend s1 \<and> quota_persist s1 \<and> \<not> use_fixed_delay (cfg s1)"
    and o: "send_mail_once env to w1 s1 = (Inl e, w2, s2)" and rc: "reconnect st w2 s2 = (w3, s3)"
  from send_mail_once_deliveries_ok [OF o] send_mail_once_frame [OF o] reconnect_fields [OF rc] I
  show "deliveries (log w3) = deliveries (log w) \<and> \<not> nosend s3 \<and> quota_persist s3 \<and> \<not> use_fixed_delay (cfg s3)"
    by auto
next
  fix i w1 s1 r1 w2 s2
  assume I: "deliveries (log w1) = deliveries (log w) \<and> \<not> nosend s1 \<and> quota_persist s1 \<and> \<not> use_fixed_delay (cfg s1)"
    and o: "send_mail_once env to w1 s1 = (r1, w2, s2)"
  from send_mail_once_deliveries_ok [OF o] I
  show "deliveries (log w2) = deliveries (log w) +
      (if (case r1 of Inr _ \<Rightarrow> Inr True | Inl e \<Rightarrow> if handler e = GiveUp then Inr False else Inl e) = Inr True
       then 1 else 0)"
    by (cases r1) auto
qed (use assms(1-3) in simp_all)

text \<open>C25: send_mail delivers exactly one mail when it returns True and none when it returns False or re-raises an SMTP error; the only other case is a quota update that crashes (TypeError or ZeroDivisionError) after the mail was delivered.\<close>

theorem send_mail_deliveries:
  assumes "\<not> nosend s" "send_mail env to R st w s = (r, w', s')"
  shows "deliveries (log w') = deliveries (log w) + (if r = Inr True then 1 else 0)
    \<or> ((r = Inl TypeError \<or> r = Inl ZeroDivisionError) \<and> deliveries (log w') = Suc (deliveries (log w)))"
proof (rule send_mail_loop_rule [where I = "\<lambda>j ww ss. deliveries (log ww) = deliveries (log w) \<and> \<not> nosend ss"
      and Q = "\<lambda>rr ww ss. deliveries (log ww) = deliveries (log w) + (if rr = Inr True then 1 else 0)
        \<or> ((rr = Inl TypeError \<or> rr = Inl ZeroDivisionError) \<and> deliveries (log ww) = Suc (deliveries (log w)))"])
  show "send_mail_loop env to R st 0 w s = (r, w', s')" using assms(2) by (simp add: send_mail_def)
next
  fix i w1 s1 e w2 s2 w3 s3
  assume I: "deliveries (log w1) = deliveries (log w) \<and> \<not> nosend s1"
    and o: "send_mail_once env to w1 s1 = (Inl e, w2, s2)" and h: "handler e = Reconnect"
    and rc: "reconnect st w2 s2 = (w3, s3)"
  from send_mail_once_deliveries [OF o] send_mail_once_frame [OF o] reconnect_fields [OF rc] I h
  show "deliveries (log w3) = deliveries (log w) \<and> \<not> nosend s3" by auto
next
  fix i w1 s1 r1 w2 s2
  assume I: "deliveries (log w1) = deliveries (log w) \<and> \<not> nosend s1"
    and o: "send_mail_once env to w1 s1 = (r1, w2, s2)"
  from send_mail_once_deliveries [OF o] I
  show "deliveries (log w2) = deliveries (log w) +
      (if (case r1 of Inr _ \<Rightarrow> Inr True | Inl e \<Rightarrow> if handler e = GiveUp then Inr False else Inl e) = Inr True
       then 1 else 0)
    \<or> (((case r1 of Inr _ \<Rightarrow> Inr True | Inl e \<Rightarrow> if handler e = GiveUp then Inr False else Inl e) = Inl TypeError
        \<or> (case r1 of Inr _ \<Rightarrow> Inr True | Inl e \<Rightarrow> if handler e = GiveUp then Inr False else Inl e)
           = Inl ZeroDivisionError)
       \<and> deliveries (log w2) = Suc (deliveries (log w)))"
    by (cases r1) auto
qed (use assms(1) in simp_all)

theorem send_mail_deliveries_witness:
  "fst (send_mail (env_const None) (Str ''a'', Str ''s'', Str ''b'') 3 5 (ex_world 0) (adaptive_sender 60 0 3 3)) = Inr True
   \<and> deliveries (log (fst (snd (send_mail (env_const None) (Str ''a'', Str ''s'', Str ''b'') 3 5 (ex_world 0) (adaptive_sender 60 0 3 3))))) = 1"
proof -
  let ?u = "send_mail (env_const None) (Str ''a'', Str ''s'', Str ''b'') 3 5 (ex_world 0) (adaptive_sender 60 0 3 3)"
  have h: "fst ?u = Inr True" by (simp add: send_mail_eval)
  from send_mail_deliveries [OF _ send_mail_split, where s = "adaptive_sender 60 0 3 3" and env = "env_const None"
      and to = "(Str ''a'', Str ''s'', Str ''b'')" and R = 3 and st = 5 and w = "ex_world 0"] h
  show ?thesis by (simp add: example_defs)
qed

text \<open>C26: send_mail always returns, after at most `retries` sleeps and 2 * `retries` SMTP interactions, never turns the clock back and keeps the sender's identity and flags.\<close>

theorem send_mail_bounds:
  assumes "send_mail env to R st w s = (r, w', s')" "0 \<le> st"
  shows "ident s' = ident s \<and> quota_persist s' = quota_persist s \<and> nosend s' = nosend s
    \<and> clock w \<le> clock w' \<and> sleeps (log w') \<le> sleeps (log w) + R \<and> ticks w' \<le> ticks w + 2 * R"
proof (rule send_mail_loop_rule [where I = "\<lambda>j ww ss. ident ss = ident s \<and> quota_persist ss = quota_persist s
        \<and> nosend ss = nosend s \<and> clock w \<le> clock ww \<and> sleeps (log ww) \<le> sleeps (log w) + j
        \<and> ticks ww \<le> ticks w + 2 * j \<and> j \<le> R"
      and Q = "\<lambda>rr ww ss. ident ss = ident s \<and> quota_persist ss = quota_persist s
        \<and> nosend ss = nosend s \<and> clock w \<le> clock ww \<and> sleeps (log ww) \<le> sleeps (log w) + R
        \<and> ticks ww \<le> ticks w + 2 * R"])
  show "send_mail_loop env to R st 0 w s = (r, w', s')" using assms(1) by (simp add: send_mail_def)
next
  fix i w1 s1 e w2 s2 w3 s3
  assume "ident s1 = ident s \<and> quota_persist s1 = quota_persist s \<and> nosend s1 = nosend s
      \<and> clock w \<le> clock w1 \<and> sleeps (log w1) \<le> sleeps (log w) + i \<and> ticks w1 \<le> ticks w + 2 * i \<and> i \<le> R"
    "i < R" and o: "send_mail_once env to w1 s1 = (Inl e, w2, s2)" and rc: "reconnect st w2 s2 = (w3, s3)"
  with send_mail_once_frame [OF o] reconnect_fields [OF rc] assms(2)
  show "ident s3 = ident s \<and> quota_persist s3 = quota_persist s \<and> nosend s3 = nosend s
      \<and> clock w \<le> clock w3 \<and> sleeps (log w3) \<le> sleeps (log w) + Suc i
      \<and> ticks w3 \<le> ticks w + 2 * Suc i \<and> Suc i \<le> R" by fastforce
next
  fix i w1 s1 r1 w2 s2
  assume "ident s1 = ident s \<and> quota_persist s1 = quota_persist s \<and> nosend s1 = nosend s
      \<and> clock w \<le> clock w1 \<and> sleeps (log w1) \<le> sleeps (log w) + i \<and> ticks w1 \<le> ticks w + 2 * i \<and> i \<le> R"
    "i < R" and o: "send_mail_once env to w1 s1 = (r1, w2, s2)"
  with send_mail_once_frame [OF o]
  show "ident s2 = ident s \<and> quota_persist s2 = quota_persist s \<and> nosend s2 = nosend s
      \<and> clock w \<le> clock w2 \<and> sleeps (log w2) \<le> sleeps (log w) + R \<and> ticks w2 \<le> ticks w + 2 * R"
    by fastforce
qed auto

theorem send_mail_bounds_witness:
  "sleeps (log (fst (snd (send_mail (env_const (Some SocketError)) (Str ''a'', Str ''s'', Str ''b'') 3 5 (ex_world 0) (adaptive_sender 60 0 3 3))))) \<le> 3
   \<and> ticks (fst (snd (send_mail (env_const (Some SocketError)) (Str ''a'', Str ''s'', Str ''b'') 3 5 (ex_world 0) (adaptive_sender 60 0 3 3)))) \<le> 6"
  using send_mail_bounds [OF send_mail_split, where env = "env_const (Some SocketError)" and to = "(Str ''a'', Str ''s'', Str ''b'')"
      and R = 3 and st = 5 and w = "ex_world 0" and s = "adaptive_sender 60 0 3 3"]
  by (simp add: example_defs)

end
