(* ===== verification/Scheduler.thy ===== *)
theory Scheduler
  imports Sender "HOL-Library.Product_Lexorder"
begin

text \<open>
  The account scheduler: \<open>Excel_Mail_Sender._find_free_server\<close> (\<open>src/sheetmail.py\<close>,
  lines 210-212) sorts the pairs \<open>(x.next_send, x)\<close> and takes the first; Python 2
  compares two \<open>Mail_sender\<close> instances (an old-style class without \<open>__cmp__\<close>) by
  their address, so ties are broken by object identity, not by registration order.
  An empty pool makes \<open>a[0]\<close> raise \<open>IndexError\<close>. \<open>run\<close> then sleeps until the
  chosen \<open>next_send\<close> (lines 228-231).
\<close>

section \<open>Operations\<close>

definition find_free_server :: "mail_sender list \<Rightarrow> (int \<times> mail_sender) result" where
  "find_free_server pool =
     (case sort_key (\<lambda>x. (next_send x, ident x)) pool of
        [] \<Rightarrow> Inl IndexError
      | x # _ \<Rightarrow> Inr (next_send x, x))"

definition wait_until :: "int \<Rightarrow> world \<Rightarrow> world" where
  "wait_until t w = (if clock w < t then sleep (t - clock w) w else w)"

text \<open>
  Lines 81-83, \<open>Mail_sender.can_send\<close> (unused by the program): the account may
  send now.
\<close>

definition can_send :: "world \<Rightarrow> mail_sender \<Rightarrow> bool" where
  "can_send w s \<longleftrightarrow> next_send s \<le> clock w"

section \<open>Lemmas\<close>

lemma sorted_head_le:
  assumes "sorted (map f (x # xs))" "y \<in> set xs"
  shows "f x \<le> f y"
  using assms by auto

lemma find_free_server_Inr:
  assumes "find_free_server pool = Inr (ns, x)"
  shows "x \<in> set pool \<and> ns = next_send x
    \<and> (\<forall>y \<in> set pool. (next_send x, ident x) \<le> (next_send y, ident y))"
proof -
  obtain ys where s: "sort_key (\<lambda>x. (next_send x, ident x)) pool = x # ys" and ns: "ns = next_send x"
    using assms by (auto simp: find_free_server_def split: list.splits)
  have "set (x # ys) = set pool" using s [symmetric] by simp
  moreover have "sorted (map (\<lambda>x. (next_send x, ident x)) (x # ys))"
    using sorted_sort_key [of "\<lambda>x. (next_send x, ident x)" pool] s by simp
  ultimately show ?thesis using ns by (auto dest: sorted_head_le)
qed

lemma find_free_server_Nil: "find_free_server [] = Inl IndexError"
  by (simp add: find_free_server_def)

lemma find_free_server_Cons: "\<exists>ns x. find_free_server (y # ys) = Inr (ns, x)"
proof -
  have "sort_key (\<lambda>x. (next_send x, ident x)) (y # ys) \<noteq> []"
    by (metis list.distinct(1) set_empty2 set_sort list.set_intros(1) empty_iff)
  then show ?thesis by (auto simp: find_free_server_def split: list.splits)
qed

text \<open>With distinct identities the least account is unique, so the scheduler returns it.\<close>

lemma find_free_server_unique:
  assumes "distinct (map ident pool)" "x \<in> set pool"
    and "\<forall>y \<in> set pool. (next_send x, ident x) \<le> (next_send y, ident y)"
  shows "find_free_server pool = Inr (next_send x, x)"
proof -
  obtain z zs where "pool = z # zs" using assms(2) by (cases pool) auto
  then obtain ns' x' where f: "find_free_server pool = Inr (ns', x')"
    using find_free_server_Cons by blast
  note x' = find_free_server_Inr [OF f]
  have "(next_send x, ident x) = (next_send x', ident x')"
    using assms(2,3) x' by (meson order_antisym)
  then have "ident x = ident x'" by simp
  moreover have "inj_on ident (set pool)" using assms(1) by (simp add: distinct_map)
  ultimately have "x = x'" using assms(2) x' by (meson inj_onD)
  with f x' show ?thesis by simp
qed

lemma wait_until_fields [simp]:
  "clock (wait_until t w) = max (clock w) t" "ticks (wait_until t w) = ticks w"
  "deliveries (log (wait_until t w)) = deliveries (log w)"
  "sleeps (log (wait_until t w)) \<le> Suc (sleeps (log w))"
  by (simp_all add: wait_until_def)

text \<open>C27: When the accounts have distinct identities, the scheduler returns exactly the account whose (next_send, identity) pair is least, with its next_send; it never returns an account outside the pool.\<close>

theorem find_free_server_spec:
  assumes "distinct (map ident pool)"
  shows "find_free_server pool = Inr (ns, x) \<longleftrightarrow>
    x \<in> set pool \<and> ns = next_send x
    \<and> (\<forall>y \<in> set pool. (next_send x, ident x) \<le> (next_send y, ident y))"
proof
  assume "find_free_server pool = Inr (ns, x)"
  then show "x \<in> set pool \<and> ns = next_send x
    \<and> (\<forall>y \<in> set pool. (next_send x, ident x) \<le> (next_send y, ident y))"
    by (rule find_free_server_Inr)
next
  assume "x \<in> set pool \<and> ns = next_send x
    \<and> (\<forall>y \<in> set pool. (next_send x, ident x) \<le> (next_send y, ident y))"
  with find_free_server_unique [OF assms] show "find_free_server pool = Inr (ns, x)" by simp
qed

theorem find_free_server_spec_witness:
  "find_free_server [adaptive_sender 60 0 3 3, (adaptive_sender 60 0 3 3)\<lparr>ident := 1, next_send := 30\<rparr>]
     = Inr (0, adaptive_sender 60 0 3 3)"
proof -
  let ?a = "adaptive_sender 60 0 3 3" and ?b = "(adaptive_sender 60 0 3 3)\<lparr>ident := 1, next_send := 30\<rparr>"
  have "distinct (map ident [?a, ?b])" by (simp add: example_defs)
  moreover have "?a \<in> set [?a, ?b] \<and> 0 = next_send ?a
    \<and> (\<forall>y \<in> set [?a, ?b]. (next_send ?a, ident ?a) \<le> (next_send y, ident y))"
    by (simp add: example_defs)
  ultimately show ?thesis using find_free_server_spec [of "[?a, ?b]" 0 ?a] by simp
qed

text \<open>C28: After the run's wait for the chosen account, that account may send (can_send holds), and no account of the pool could have sent at any instant between the start of the wait and its end: the wait is exactly as long as needed and is one sleep.\<close>

theorem wait_until_minimal:
  assumes "find_free_server pool = Inr (ns, c)"
  shows "can_send (wait_until ns w) c
    \<and> (\<forall>x \<in> set pool. \<forall>w2. clock w \<le> clock w2 \<and> clock w2 < clock (wait_until ns w) \<longrightarrow> \<not> can_send w2 x)
    \<and> (clock w < ns \<longrightarrow> log (wait_until ns w) = log w @ [Sleep (ns - clock w)])"
proof -
  note f = find_free_server_Inr [OF assms]
  have "\<forall>x \<in> set pool. ns \<le> next_send x"
  proof
    fix x assume "x \<in> set pool"
    with f have "(next_send c, ident c) \<le> (next_send x, ident x)" by blast
    with f show "ns \<le> next_send x" by (auto simp: less_eq_prod_def)
  qed
  with f show ?thesis by (auto simp: can_send_def wait_until_def)
qed

theorem wait_until_minimal_witness:
  "can_send (wait_until 30 (ex_world 10)) ((adaptive_sender 60 0 3 3)\<lparr>next_send := 30\<rparr>)
   \<and> log (wait_until 30 (ex_world 10)) = [Sleep 20]"
proof -
  have "find_free_server [(adaptive_sender 60 0 3 3)\<lparr>next_send := 30\<rparr>] = Inr (30, (adaptive_sender 60 0 3 3)\<lparr>next_send := 30\<rparr>)"
    by (simp add: find_free_server_def)
  from wait_until_minimal [OF this, of "ex_world 10"] show ?thesis by (simp add: ex_world_def)
qed

end
