(* ===== verification/Dispatcher.thy ===== *)
theory Dispatcher
  imports Scheduler
begin

text \<open>
  The dispatcher: \<open>Excel_Mail_Sender.run\<close> with \<open>excel_data_iterator\<close>
  (\<open>src/sheetmail.py\<close>, lines 18-23 and 217-255). Rows are read from the live
  sheet in order from \<open>rowoffset\<close>; a row already marked is skipped; otherwise an
  account is chosen and waited for, the row is validated, sent, and its status
  cell is written (1 sent, 2 error) and the workbook saved at once. \<open>False\<close> from
  \<open>send_mail\<close> ends the run with the row unmarked. The chosen sender is the very
  object in the pool, so its new state replaces the pool entry of the same
  identity.
\<close>

section \<open>State\<close>

text \<open>
  The options \<open>run\<close> reads from the params dict. \<open>staticsubject\<close> is \<open>None\<close> when
  the key is absent and \<open>Some v\<close> when it is present with value \<open>v\<close>.
\<close>

record run_cfg =
  colmail :: nat
  colsubject :: nat
  colbody :: nat
  colsend :: nat
  rowoffset :: int
  staticsubject :: "cell option"

text \<open>The sender pool, the open workbook's sheet, and the workbook as last saved.\<close>

record dstate =
  pool :: "mail_sender list"
  sheet :: "cell list list"
  saved :: "cell list list"

datatype row_outcome = RowSkipped | RowInvalid | RowRefused | RowSent | RowAbort

datatype run_ret = RetNone | RetFalse

section \<open>Operations\<close>

text \<open>Line 23: \<open>row[i].value\<close>, an \<open>IndexError\<close> past the row's end.\<close>

definition cell_at :: "cell list \<Rightarrow> nat \<Rightarrow> cell result" where
  "cell_at row i = (if i < length row then Inr (row ! i) else Inl IndexError)"

definition read_row :: "run_cfg \<Rightarrow> cell list \<Rightarrow> (cell \<times> cell \<times> cell \<times> cell) result" where
  "read_row rc row =
     (case cell_at row (colmail rc) of Inl e \<Rightarrow> Inl e | Inr m \<Rightarrow>
      case cell_at row (colsubject rc) of Inl e \<Rightarrow> Inl e | Inr sj \<Rightarrow>
      case cell_at row (colbody rc) of Inl e \<Rightarrow> Inl e | Inr b \<Rightarrow>
      case cell_at row (colsend rc) of Inl e \<Rightarrow> Inl e | Inr st \<Rightarrow> Inr (m, sj, b, st))"

text \<open>Line 223: \<open>row[4] and row[4] >= 1\<close>, a row whose status cell is already set.\<close>

definition already_sent :: "cell \<Rightarrow> bool" where
  "already_sent st \<longleftrightarrow> truthy st \<and> ge_one st"

text \<open>
  Lines 221-222: with the key \<open>'staticsubject'\<close> present, its value replaces the
  subject read from the row.
\<close>

definition row_subject :: "run_cfg \<Rightarrow> cell \<Rightarrow> cell" where
  "row_subject rc subj = (case staticsubject rc of None \<Rightarrow> subj | Some v \<Rightarrow> v)"

text \<open>
  Lines 244 and 249: \<open>sheet.cell(row=n+1, column=colsend+1).value = v\<close>, the
  status cell of the row the iterator numbered \<open>n\<close>.
\<close>

definition set_status :: "run_cfg \<Rightarrow> nat \<Rightarrow> int \<Rightarrow> cell list list \<Rightarrow> cell list list" where
  "set_status rc n v sh = sh[n := (sh ! n)[colsend rc := Num v]]"

text \<open>Lines 244-245 and 249-250: write the status cell, then \<open>wb.save\<close>.\<close>

definition mark_row :: "run_cfg \<Rightarrow> nat \<Rightarrow> int \<Rightarrow> world \<Rightarrow> dstate \<Rightarrow> world \<times> dstate" where
  "mark_row rc n v w d =
     (let sh = set_status rc n v (sheet d)
      in (emit SaveBook w, d\<lparr>sheet := sh, saved := sh\<rparr>))"

text \<open>The chosen \<open>Mail_sender\<close> object, mutated in place, seen through the pool.\<close>

definition update_pool :: "mail_sender \<Rightarrow> mail_sender list \<Rightarrow> mail_sender list" where
  "update_pool c ps = map (\<lambda>x. if ident x = ident c then c else x) ps"

text \<open>Lines 220-255: one row of the loop, with \<open>retries=3, sleep_time=5\<close>.\<close>

definition process_row ::
  "transport \<Rightarrow> run_cfg \<Rightarrow> nat \<Rightarrow> world \<Rightarrow> dstate \<Rightarrow> row_outcome result \<times> world \<times> dstate" where
  "process_row env rc n w d =
     (case read_row rc (sheet d ! n) of
        Inl e \<Rightarrow> (Inl e, w, d)
      | Inr (mail, subj0, body, sent) \<Rightarrow>
          (let subj = row_subject rc subj0 in
           if already_sent sent then (Inr RowSkipped, w, d)
           else
             (case find_free_server (pool d) of
                Inl e \<Rightarrow> (Inl e, w, d)
              | Inr (ns, conn) \<Rightarrow>
                  (let w1 = wait_until ns w in
                   if \<not> truthy mail \<or> \<not> truthy subj \<or> \<not> truthy body then
                     (case mark_row rc n 2 w1 d of (w2, d2) \<Rightarrow> (Inr RowInvalid, w2, d2))
                   else
                     (case send_mail env (mail, subj, body) 3 5 w1 conn of
                        (Inl e, w2, c2) \<Rightarrow>
                          (if e = SMTPRecipientsRefused
                           then (case mark_row rc n 2 w2 (d\<lparr>pool := update_pool c2 (pool d)\<rparr>) of
                                   (w3, d3) \<Rightarrow> (Inr RowRefused, w3, d3))
                           else (Inl e, w2, d\<lparr>pool := update_pool c2 (pool d)\<rparr>))
                      | (Inr True, w2, c2) \<Rightarrow>
                          (case mark_row rc n 1 w2 (d\<lparr>pool := update_pool c2 (pool d)\<rparr>) of
                             (w3, d3) \<Rightarrow> (Inr RowSent, w3, d3))
                      | (Inr False, w2, c2) \<Rightarrow>
                          (Inr RowAbort, w2, d\<lparr>pool := update_pool c2 (pool d)\<rparr>))))))"

text \<open>
  Lines 219-255 with the generator of lines 21-23: the rows by number, those before
  \<open>rowoffset\<close> passed over. The loop falls off its end returning \<open>None\<close>.
\<close>

fun run_rows ::
  "transport \<Rightarrow> run_cfg \<Rightarrow> nat list \<Rightarrow> world \<Rightarrow> dstate \<Rightarrow> run_ret result \<times> world \<times> dstate" where
  "run_rows env rc [] w d = (Inr RetNone, w, d)"
| "run_rows env rc (n # ns) w d =
     (if int n < rowoffset rc then run_rows env rc ns w d
      else
        (case process_row env rc n w d of
           (Inl e, w', d') \<Rightarrow> (Inl e, w', d')
         | (Inr RowAbort, w', d') \<Rightarrow> (Inr RetFalse, w', d')
         | (Inr _, w', d') \<Rightarrow> run_rows env rc ns w' d'))"

definition run :: "transport \<Rightarrow> run_cfg \<Rightarrow> world \<Rightarrow> dstate \<Rightarrow> run_ret result \<times> world \<times> dstate" where
  "run env rc w d = run_rows env rc [0..<length (sheet d)] w d"

text \<open>
  Lines 327 and 334: \<open>--staticsubject\<close> has no default, so argparse stores \<open>None\<close>,
  and \<open>vars(parser.parse_args(...))\<close> holds the key \<open>'staticsubject'\<close> whether or not
  the option was given.
\<close>

definition cli_staticsubject :: "string option \<Rightarrow> cell option" where
  "cli_staticsubject x = Some (case x of None \<Rightarrow> Empty | Some a \<Rightarrow> Str a)"

section \<open>Predicates of the lemmas and examples\<close>

text \<open>
  Every account of the pool is within its adaptive quota; a row whose cells are
  all readable and whose status cell is already set (the loop skips it).
\<close>

definition pool_ok :: "mail_sender list \<Rightarrow> bool" where
  "pool_ok ps = list_all (\<lambda>x. adaptive_ok x \<and> quota_persist x) ps"

definition row_done :: "run_cfg \<Rightarrow> cell list \<Rightarrow> bool" where
  "row_done rc row = (case read_row rc row of Inr (_, _, _, st) \<Rightarrow> already_sent st | Inl _ \<Rightarrow> False)"

text \<open>
  A header row and two rows to send, the second without an address; one adaptive
  account allowed 3 mails a minute.
\<close>

definition ex_rc :: run_cfg where
  "ex_rc = \<lparr>colmail = 0, colsubject = 1, colbody = 2, colsend = 3, rowoffset = 1, staticsubject = None\<rparr>"

definition ex_sheet :: "cell list list" where
  "ex_sheet = [[Str ''mail'', Str ''subject'', Str ''body'', Str ''sent''],
               [Str ''a@example.org'', Str ''hello'', Str ''text'', Empty],
               [Empty, Str ''hello'', Str ''text'', Empty]]"

definition ex_state :: dstate where
  "ex_state = \<lparr>pool = [adaptive_sender 60 0 3 3], sheet = ex_sheet, saved = ex_sheet\<rparr>"

section \<open>Lemmas\<close>

lemmas dispatch_eval = run_def process_row_def read_row_def cell_at_def already_sent_def row_subject_def
  find_free_server_def wait_until_def mark_row_def set_status_def update_pool_def send_mail_eval
  example_defs ex_rc_def ex_sheet_def ex_state_def

lemma process_row_cases:
  assumes "process_row env rc n w d = (r, w', d')"
  obtains (read_error) e where "read_row rc (sheet d ! n) = Inl e" "r = Inl e" "w' = w" "d' = d"
  | (skipped) m sj b st where "read_row rc (sheet d ! n) = Inr (m, sj, b, st)" "already_sent st"
      "r = Inr RowSkipped" "w' = w" "d' = d"
  | (no_server) m sj b st e where "read_row rc (sheet d ! n) = Inr (m, sj, b, st)" "\<not> (already_sent st)"
      "find_free_server (pool d) = Inl e" "r = Inl e" "w' = w" "d' = d"
  | (invalid) m sj b st ns c where "read_row rc (sheet d ! n) = Inr (m, sj, b, st)" "\<not> (already_sent st)"
      "find_free_server (pool d) = Inr (ns, c)"
      "\<not> truthy m \<or> \<not> truthy (row_subject rc sj) \<or> \<not> truthy b"
      "r = Inr RowInvalid" "(w', d') = mark_row rc n 2 (wait_until ns w) d"
  | (sent) m sj b st ns c w2 c2 where "read_row rc (sheet d ! n) = Inr (m, sj, b, st)" "\<not> (already_sent st)"
      "find_free_server (pool d) = Inr (ns, c)"
      "truthy m" "truthy (row_subject rc sj)" "truthy b"
      "send_mail env (m, row_subject rc sj, b) 3 5 (wait_until ns w) c = (Inr True, w2, c2)"
      "r = Inr RowSent" "(w', d') = mark_row rc n 1 w2 (d\<lparr>pool := update_pool c2 (pool d)\<rparr>)"
  | (refused) m sj b st ns c w2 c2 where "read_row rc (sheet d ! n) = Inr (m, sj, b, st)" "\<not> (already_sent st)"
      "find_free_server (pool d) = Inr (ns, c)"
      "truthy m" "truthy (row_subject rc sj)" "truthy b"
      "send_mail env (m, row_subject rc sj, b) 3 5 (wait_until ns w) c = (Inl SMTPRecipientsRefused, w2, c2)"
      "r = Inr RowRefused" "(w', d') = mark_row rc n 2 w2 (d\<lparr>pool := update_pool c2 (pool d)\<rparr>)"
  | (raised) m sj b st ns c e w2 c2 where "read_row rc (sheet d ! n) = Inr (m, sj, b, st)" "\<not> (already_sent st)"
      "find_free_server (pool d) = Inr (ns, c)"
      "truthy m" "truthy (row_subject rc sj)" "truthy b"
      "send_mail env (m, row_subject rc sj, b) 3 5 (wait_until ns w) c = (Inl e, w2, c2)" "e \<noteq> SMTPRecipientsRefused"
      "r = Inl e" "w' = w2" "d' = d\<lparr>pool := update_pool c2 (pool d)\<rparr>"
  | (abort) m sj b st ns c w2 c2 where "read_row rc (sheet d ! n) = Inr (m, sj, b, st)" "\<not> (already_sent st)"
      "find_free_server (pool d) = Inr (ns, c)"
      "truthy m" "truthy (row_subject rc sj)" "truthy b"
      "send_mail env (m, row_subject rc sj, b) 3 5 (wait_until ns w) c = (Inr False, w2, c2)"
      "r = Inr RowAbort" "w' = w2" "d' = d\<lparr>pool := update_pool c2 (pool d)\<rparr>"
proof (cases "read_row rc (sheet d ! n)")
  case (Inl e)
  moreover have "r = Inl e \<and> w' = w \<and> d' = d" using assms Inl by (simp add: process_row_def)
  ultimately show ?thesis by (intro read_error) auto
next
  case (Inr q)
  then obtain m sj b st where q: "read_row rc (sheet d ! n) = Inr (m, sj, b, st)" by (cases q) auto
  show ?thesis
  proof (cases "already_sent st")
    case True
    moreover have "r = Inr RowSkipped \<and> w' = w \<and> d' = d"
      using assms q True by (simp add: process_row_def)
    ultimately show ?thesis using q by (intro skipped) auto
  next
    case nm: False
    show ?thesis
    proof (cases "find_free_server (pool d)")
      case (Inl e)
      moreover have "r = Inl e \<and> w' = w \<and> d' = d"
        using assms q nm Inl by (simp add: process_row_def)
      ultimately show ?thesis using q nm by (intro no_server) auto
    next
      case (Inr p)
      then obtain ns c where f: "find_free_server (pool d) = Inr (ns, c)" by (cases p) auto
      show ?thesis
      proof (cases "\<not> truthy m \<or> \<not> truthy (row_subject rc sj) \<or> \<not> truthy b")
        case True
        moreover have "r = Inr RowInvalid \<and> (w', d') = mark_row rc n 2 (wait_until ns w) d"
          using assms q nm f True by (simp add: process_row_def Let_def split: prod.splits)
        ultimately show ?thesis using q nm f by (intro invalid) auto
      next
        case ok: False
        obtain res w2 c2 where sm: "send_mail env (m, row_subject rc sj, b) 3 5 (wait_until ns w) c = (res, w2, c2)"
          by (metis prod.collapse)
        show ?thesis
        proof (cases res)
          case (Inl e)
          show ?thesis
          proof (cases "e = SMTPRecipientsRefused")
            case True
            have "r = Inr RowRefused \<and> (w', d') = mark_row rc n 2 w2 (d\<lparr>pool := update_pool c2 (pool d)\<rparr>)"
              using assms q nm f ok sm Inl True by (simp add: process_row_def Let_def split: prod.splits)
            then show ?thesis using q nm f ok sm Inl True by (intro refused) auto
          next
            case False
            have "r = Inl e \<and> w' = w2 \<and> d' = d\<lparr>pool := update_pool c2 (pool d)\<rparr>"
              using assms q nm f ok sm Inl False by (simp add: process_row_def Let_def split: prod.splits)
            then show ?thesis using q nm f ok sm Inl False by (intro raised) auto
          qed
        next
          case (Inr bb)
          show ?thesis
          proof (cases bb)
            case True
            have "r = Inr RowSent \<and> (w', d') = mark_row rc n 1 w2 (d\<lparr>pool := update_pool c2 (pool d)\<rparr>)"
              using assms q nm f ok sm Inr True by (simp add: process_row_def Let_def split: prod.splits)
            then show ?thesis using q nm f ok sm Inr True by (intro sent) auto
          next
            case False
            have "r = Inr RowAbort \<and> w' = w2 \<and> d' = d\<lparr>pool := update_pool c2 (pool d)\<rparr>"
              using assms q nm f ok sm Inr False by (simp add: process_row_def Let_def split: prod.splits)
            then show ?thesis using q nm f ok sm Inr False by (intro abort) auto
          qed
        qed
      qed
    qed
  qed
qed

lemma mark_row_fields:
  assumes "mark_row rc n v w d = (w', d')"
  shows "pool d' = pool d \<and> sheet d' = set_status rc n v (sheet d) \<and> saved d' = sheet d'
    \<and> clock w' = clock w \<and> ticks w' = ticks w \<and> log w' = log w @ [SaveBook]"
  using assms by (auto simp: mark_row_def Let_def)

lemma set_status_length [simp]: "length (set_status rc n v sh) = length sh"
  by (simp add: set_status_def)

lemma set_status_other: "m \<noteq> n \<Longrightarrow> set_status rc n v sh ! m = sh ! m"
  by (simp add: set_status_def)

lemma set_status_row:
  "n < length sh \<Longrightarrow> length (set_status rc n v sh ! n) = length (sh ! n)
   \<and> (\<forall>j. j \<noteq> colsend rc \<longrightarrow> set_status rc n v sh ! n ! j = sh ! n ! j)"
  by (simp add: set_status_def)

lemma cell_at_update:
  "cell_at row i = Inr x \<Longrightarrow> \<exists>y. cell_at (row[j := z]) i = Inr y"
  by (simp add: cell_at_def split: if_splits)

lemma read_row_set_status:
  assumes "read_row rc (sh ! n) = Inr (m, sj, b, st)" "n < length sh" "0 < v"
  shows "row_done rc (set_status rc n v sh ! n)"
proof -
  let ?row = "(sh ! n)[colsend rc := Num v]"
  have c: "colsend rc < length (sh ! n)"
    using assms(1) by (auto simp: read_row_def cell_at_def split: sum.splits if_splits)
  have "cell_at ?row (colsend rc) = Inr (Num v)" using c by (simp add: cell_at_def)
  moreover obtain m' where "cell_at ?row (colmail rc) = Inr m'"
    using assms(1) cell_at_update by (fastforce simp: read_row_def split: sum.splits)
  moreover obtain sj' where "cell_at ?row (colsubject rc) = Inr sj'"
    using assms(1) cell_at_update by (fastforce simp: read_row_def split: sum.splits)
  moreover obtain b' where "cell_at ?row (colbody rc) = Inr b'"
    using assms(1) cell_at_update by (fastforce simp: read_row_def split: sum.splits)
  ultimately have "read_row rc ?row = Inr (m', sj', b', Num v)" by (simp add: read_row_def)
  with assms(2,3) show ?thesis
    by (simp add: row_done_def set_status_def already_sent_def)
qed

lemma update_pool_ident: "map ident (update_pool c ps) = map ident ps"
  by (induct ps) (auto simp: update_pool_def)

lemma update_pool_ok:
  "pool_ok ps \<Longrightarrow> adaptive_ok c \<Longrightarrow> quota_persist c \<Longrightarrow> pool_ok (update_pool c ps)"
  by (auto simp: pool_ok_def update_pool_def list_all_iff)

text \<open>What one row does to the sheet, the saved copy and the pool's identities.\<close>

lemma process_row_frame:
  assumes "process_row env rc n w d = (r, w', d')" "n < length (sheet d)"
  shows "length (sheet d') = length (sheet d) \<and> (\<forall>m. m \<noteq> n \<longrightarrow> sheet d' ! m = sheet d ! m)
    \<and> (saved d = sheet d \<longrightarrow> saved d' = sheet d') \<and> map ident (pool d') = map ident (pool d)
    \<and> length (sheet d' ! n) = length (sheet d ! n)
    \<and> (\<forall>j. j \<noteq> colsend rc \<longrightarrow> sheet d' ! n ! j = sheet d ! n ! j)
    \<and> (r \<noteq> Inr RowAbort \<and> (\<forall>e. r \<noteq> Inl e) \<longrightarrow> row_done rc (sheet d' ! n))"
  using assms(1)
proof (cases rule: process_row_cases)
  case (skipped m sj b st)
  then show ?thesis by (simp add: row_done_def)
next
  case (invalid m sj b st ns c)
  then show ?thesis using mark_row_fields [of rc n 2 "wait_until ns w" d w' d'] assms(2)
    by (auto simp: set_status_other set_status_row intro: read_row_set_status)
next
  case (sent m sj b st ns c w2 c2)
  then show ?thesis
    using mark_row_fields [of rc n 1 w2 "d\<lparr>pool := update_pool c2 (pool d)\<rparr>" w' d'] assms(2)
    by (auto simp: set_status_other set_status_row update_pool_ident intro: read_row_set_status)
next
  case (refused m sj b st ns c w2 c2)
  then show ?thesis
    using mark_row_fields [of rc n 2 w2 "d\<lparr>pool := update_pool c2 (pool d)\<rparr>" w' d'] assms(2)
    by (auto simp: set_status_other set_status_row update_pool_ident intro: read_row_set_status)
qed (simp_all add: update_pool_ident)

lemma wait_until_due: "find_free_server ps = Inr (ns, c) \<Longrightarrow> next_send c \<le> clock (wait_until ns w)"
  by (auto dest: find_free_server_Inr)

lemma pool_ok_member: "pool_ok ps \<Longrightarrow> c \<in> set ps \<Longrightarrow> adaptive_ok c \<and> quota_persist c"
  by (auto simp: pool_ok_def list_all_iff)

lemma send_from_pool_ok:
  assumes "pool_ok ps" "find_free_server ps = Inr (ns, c)"
    and "send_mail env (m, row_subject rc sj, b) 3 5 (wait_until ns w) c = (r, w2, c2)"
  shows "pool_ok (update_pool c2 ps)"
proof -
  have "c \<in> set ps" using find_free_server_Inr [OF assms(2)] by simp
  with assms(1) have "adaptive_ok c \<and> quota_persist c" by (rule pool_ok_member)
  with send_mail_adaptive_ok [OF _ _ wait_until_due [OF assms(2)] _ assms(3)]
  have "adaptive_ok c2 \<and> quota_persist c2" by simp
  with assms(1) show ?thesis by (simp add: update_pool_ok)
qed

lemma process_row_pool_ok:
  assumes "process_row env rc n w d = (r, w', d')" "pool_ok (pool d)"
  shows "pool_ok (pool d')"
  using assms(1)
proof (cases rule: process_row_cases)
  case (invalid m sj b st ns c)
  then show ?thesis using mark_row_fields [of rc n 2 "wait_until ns w" d w' d'] assms(2) by simp
next
  case (sent m sj b st ns c w2 c2)
  then show ?thesis using mark_row_fields [of rc n 1 w2 _ w' d'] send_from_pool_ok [OF assms(2)] by simp
next
  case (refused m sj b st ns c w2 c2)
  then show ?thesis using mark_row_fields [of rc n 2 w2 _ w' d'] send_from_pool_ok [OF assms(2)] by simp
next
  case (raised m sj b st ns c e w2 c2)
  then show ?thesis using send_from_pool_ok [OF assms(2)] by simp
next
  case (abort m sj b st ns c w2 c2)
  then show ?thesis using send_from_pool_ok [OF assms(2)] by simp
qed (use assms in simp_all)

lemma run_rows_induct_step:
  "run_rows env rc (n # ns) w d = (r, w', d') \<Longrightarrow> rowoffset rc \<le> int n \<Longrightarrow>
   \<exists>q w1 d1. process_row env rc n w d = (q, w1, d1)
     \<and> (case q of Inl e \<Rightarrow> r = Inl e \<and> w' = w1 \<and> d' = d1
        | Inr RowAbort \<Rightarrow> r = Inr RetFalse \<and> w' = w1 \<and> d' = d1
        | Inr _ \<Rightarrow> run_rows env rc ns w1 d1 = (r, w', d'))"
  by (auto split: prod.splits sum.splits row_outcome.splits)

lemma run_rows_pool_ok:
  "run_rows env rc ns w d = (r, w', d') \<Longrightarrow> pool_ok (pool d) \<Longrightarrow> pool_ok (pool d')"
proof (induction ns arbitrary: w d)
  case (Cons n ns)
  show ?case
  proof (cases "int n < rowoffset rc")
    case True
    with Cons show ?thesis by simp
  next
    case False
    then obtain q w1 d1 where p: "process_row env rc n w d = (q, w1, d1)"
      and c: "case q of Inl e \<Rightarrow> r = Inl e \<and> w' = w1 \<and> d' = d1
        | Inr RowAbort \<Rightarrow> r = Inr RetFalse \<and> w' = w1 \<and> d' = d1
        | Inr _ \<Rightarrow> run_rows env rc ns w1 d1 = (r, w', d')"
      using run_rows_induct_step [OF Cons.prems(1)] by auto
    have ok: "pool_ok (pool d1)" using process_row_pool_ok [OF p Cons.prems(2)] .
    show ?thesis using c ok Cons.IH
      by (auto split: sum.splits row_outcome.splits)
  qed
qed simp

lemma run_rows_frame:
  "run_rows env rc ns w d = (r, w', d') \<Longrightarrow> set ns \<subseteq> {..<length (sheet d)} \<Longrightarrow> distinct ns \<Longrightarrow>
   length (sheet d') = length (sheet d)
   \<and> (\<forall>m. m \<notin> set ns \<or> int m < rowoffset rc \<longrightarrow> sheet d' ! m = sheet d ! m)
   \<and> (\<forall>m. length (sheet d' ! m) = length (sheet d ! m)
        \<and> (\<forall>j. j \<noteq> colsend rc \<longrightarrow> sheet d' ! m ! j = sheet d ! m ! j))
   \<and> (saved d = sheet d \<longrightarrow> saved d' = sheet d') \<and> map ident (pool d') = map ident (pool d)
   \<and> (r = Inr RetNone \<longrightarrow> (\<forall>n \<in> set ns. rowoffset rc \<le> int n \<longrightarrow> row_done rc (sheet d' ! n)))"
proof (induction ns arbitrary: w d)
  case (Cons n ns)
  show ?case
  proof (cases "int n < rowoffset rc")
    case True
    with Cons show ?thesis by auto
  next
    case False
    then obtain q w1 d1 where p: "process_row env rc n w d = (q, w1, d1)"
      and c: "case q of Inl e \<Rightarrow> r = Inl e \<and> w' = w1 \<and> d' = d1
        | Inr RowAbort \<Rightarrow> r = Inr RetFalse \<and> w' = w1 \<and> d' = d1
        | Inr _ \<Rightarrow> run_rows env rc ns w1 d1 = (r, w', d')"
      using run_rows_induct_step [OF Cons.prems(1)] by auto
    have n: "n < length (sheet d)" "n \<notin> set ns" using Cons.prems by auto
    note f = process_row_frame [OF p n(1)]
    have rowf: "\<forall>m. length (sheet d1 ! m) = length (sheet d ! m)
        \<and> (\<forall>j. j \<noteq> colsend rc \<longrightarrow> sheet d1 ! m ! j = sheet d ! m ! j)"
      using f by (metis)
    show ?thesis
    proof (cases "\<exists>e. q = Inl e \<or> q = Inr RowAbort")
      case True
      with c f rowf False show ?thesis by (auto split: sum.splits row_outcome.splits)
    next
      case nq: False
      then have rr: "run_rows env rc ns w1 d1 = (r, w', d')" using c
        by (auto split: sum.splits row_outcome.splits)
      have ih: "length (sheet d') = length (sheet d1)
        \<and> (\<forall>m. m \<notin> set ns \<or> int m < rowoffset rc \<longrightarrow> sheet d' ! m = sheet d1 ! m)
        \<and> (\<forall>m. length (sheet d' ! m) = length (sheet d1 ! m)
             \<and> (\<forall>j. j \<noteq> colsend rc \<longrightarrow> sheet d' ! m ! j = sheet d1 ! m ! j))
        \<and> (saved d1 = sheet d1 \<longrightarrow> saved d' = sheet d') \<and> map ident (pool d') = map ident (pool d1)
        \<and> (r = Inr RetNone \<longrightarrow> (\<forall>n \<in> set ns. rowoffset rc \<le> int n \<longrightarrow> row_done rc (sheet d' ! n)))"
        using Cons.IH [OF rr] Cons.prems f by auto
      have dn: "row_done rc (sheet d1 ! n)" using f nq by auto
      show ?thesis using ih f rowf dn n False by auto
    qed
  qed
qed simp

lemma process_row_done:
  "row_done rc (sheet d ! n) \<Longrightarrow> process_row env rc n w d = (Inr RowSkipped, w, d)"
  by (auto simp: row_done_def process_row_def split: sum.splits)

lemma run_rows_all_done:
  "\<forall>n \<in> set ns. rowoffset rc \<le> int n \<longrightarrow> row_done rc (sheet d ! n) \<Longrightarrow>
   run_rows env rc ns w d = (Inr RetNone, w, d)"
  by (induction ns) (auto simp: process_row_done)


text \<open>C3: Of a pending row that has an account and passes the check of line 234, the outcome follows the result of send_mail: True writes status 1 into the row's status cell and saves the workbook; SMTPRecipientsRefused writes status 2 and saves; False ends the run and any other exception escapes, both leaving the sheet and the saved workbook unchanged.\<close>

theorem process_row_marks:
  assumes "read_row rc (sheet d ! n) = Inr (m, sj, b, st)" "\<not> already_sent st"
    and "find_free_server (pool d) = Inr (ns, c)"
    and "truthy m" "truthy (row_subject rc sj)" "truthy b"
    and "send_mail env (m, row_subject rc sj, b) 3 5 (wait_until ns w) c = (q, w2, c2)"
    and "process_row env rc n w d = (r, w', d')"
  shows "r = (case q of Inr True \<Rightarrow> Inr RowSent | Inr False \<Rightarrow> Inr RowAbort
              | Inl e \<Rightarrow> if e = SMTPRecipientsRefused then Inr RowRefused else Inl e)
    \<and> sheet d' = (if q = Inr True then set_status rc n 1 (sheet d)
                  else if q = Inl SMTPRecipientsRefused then set_status rc n 2 (sheet d) else sheet d)
    \<and> saved d' = (if q = Inr True \<or> q = Inl SMTPRecipientsRefused then sheet d' else saved d)"
  using assms(8)
proof (cases rule: process_row_cases)
  case (sent m' sj' b' st' ns' c' w3 c3)
  with assms(1,3,7) have "q = Inr True" "w3 = w2" "c3 = c2" by auto
  with sent show ?thesis using mark_row_fields [of rc n 1 w2 _ w' d'] by simp
next
  case (refused m' sj' b' st' ns' c' w3 c3)
  with assms(1,3,7) have "q = Inl SMTPRecipientsRefused" "w3 = w2" "c3 = c2" by auto
  with refused show ?thesis using mark_row_fields [of rc n 2 w2 _ w' d'] by simp
next
  case (raised m' sj' b' st' ns' c' e w3 c3)
  with assms(1,3,7) have "q = Inl e" by auto
  with raised show ?thesis by simp
next
  case (abort m' sj' b' st' ns' c' w3 c3)
  with assms(1,3,7) have "q = Inr False" by auto
  with abort show ?thesis by simp
qed (use assms(1-6) in auto)

theorem process_row_marks_witness:
  "sheet (snd (snd (process_row (env_const None) ex_rc 1 (ex_world 0) ex_state))) = set_status ex_rc 1 1 ex_sheet
   \<and> saved (snd (snd (process_row (env_const None) ex_rc 1 (ex_world 0) ex_state))) = set_status ex_rc 1 1 ex_sheet"
proof -
  let ?p = "find_free_server (pool ex_state)"
  let ?s = "send_mail (env_const None) (Str ''a@example.org'', row_subject ex_rc (Str ''hello''), Str ''text'') 3 5
      (wait_until (fst (projr ?p)) (ex_world 0)) (snd (projr ?p))"
  let ?u = "process_row (env_const None) ex_rc 1 (ex_world 0) ex_state"
  have r: "read_row ex_rc (sheet ex_state ! 1) = Inr (Str ''a@example.org'', Str ''hello'', Str ''text'', Empty)"
    by (simp add: dispatch_eval)
  have p: "?p = Inr (fst (projr ?p), snd (projr ?p))" by (simp add: dispatch_eval)
  have q: "fst ?s = Inr True" by (simp add: dispatch_eval)
  have t: "\<not> already_sent Empty" "truthy (Str ''a@example.org'')" "truthy (row_subject ex_rc (Str ''hello''))"
    "truthy (Str ''text'')"
    by (simp_all add: already_sent_def row_subject_def ex_rc_def)
  have u: "?u = (fst ?u, fst (snd ?u), snd (snd ?u))" by simp
  from process_row_marks [OF r t(1) p t(2-4) send_mail_split u] q show ?thesis by (simp add: ex_state_def)
qed

text \<open>C29: A row with missing data is still given an account: the run sleeps until the earliest next_send of the pool before finding the row invalid; it then marks the row without touching any account or the network.\<close>

theorem invalid_row_waits:
  assumes "process_row env rc n w d = (Inr RowInvalid, w', d')"
  shows "pool d' = pool d \<and> ticks w' = ticks w
    \<and> (\<exists>x \<in> set (pool d). clock w' = max (clock w) (next_send x)
         \<and> (\<forall>y \<in> set (pool d). next_send x \<le> next_send y))"
  using assms
proof (cases rule: process_row_cases)
  case (invalid m sj b st ns c)
  note f = find_free_server_Inr [OF invalid(3)]
  have "\<forall>y \<in> set (pool d). next_send c \<le> next_send y"
  proof
    fix y assume "y \<in> set (pool d)"
    with f have "(next_send c, ident c) \<le> (next_send y, ident y)" by blast
    then show "next_send c \<le> next_send y" by (auto simp: less_eq_prod_def)
  qed
  with f invalid mark_row_fields [of rc n 2 "wait_until ns w" d w' d'] show ?thesis by auto
qed simp_all

theorem invalid_row_waits_witness:
  "clock (fst (snd (process_row (env_const None) ex_rc 2 (ex_world 0)
      (ex_state\<lparr>pool := [(adaptive_sender 60 0 3 3)\<lparr>next_send := 100\<rparr>]\<rparr>)))) = 100
   \<and> fst (process_row (env_const None) ex_rc 2 (ex_world 0)
      (ex_state\<lparr>pool := [(adaptive_sender 60 0 3 3)\<lparr>next_send := 100\<rparr>]\<rparr>)) = Inr RowInvalid"
proof -
  let ?d = "ex_state\<lparr>pool := [(adaptive_sender 60 0 3 3)\<lparr>next_send := 100\<rparr>]\<rparr>"
  let ?u = "process_row (env_const None) ex_rc 2 (ex_world 0) ?d"
  have h: "fst ?u = Inr RowInvalid" by (simp add: dispatch_eval)
  have "?u = (Inr RowInvalid, fst (snd ?u), snd (snd ?u))" using h by (metis prod.collapse)
  from invalid_row_waits [OF this] h show ?thesis by (simp add: ex_world_def)
qed

end
