(* ===== verification/Runs.thy ===== *)
theory Runs
  imports Dispatcher
begin

text \<open>
  Properties of whole runs of \<open>Excel_Mail_Sender.run\<close> (\<open>src/sheetmail.py\<close>,
  lines 217-255), proved from the one-row lemmas of \<open>Dispatcher\<close>: what a run
  writes and saves, that a finished run makes a rerun do nothing, that mails are
  delivered exactly for the rows newly marked as sent, the effect of the
  \<open>staticsubject\<close> key, and that with a working network every valid pending row is
  sent.
\<close>

section \<open>Definitions of the statements\<close>

text \<open>Row \<open>m\<close> was changed by the run and now has status 1.\<close>

definition newly_sent :: "run_cfg \<Rightarrow> cell list list \<Rightarrow> cell list list \<Rightarrow> nat \<Rightarrow> bool" where
  "newly_sent rc sh sh' m \<longleftrightarrow> sh' ! m \<noteq> sh ! m \<and> sh' ! m ! colsend rc = Num 1"

text \<open>
  A cell holding a non-empty string. A false cell fails the check of line 234; a
  number passes it but makes \<open>_send_mail\<close> raise \<open>TypeError\<close> (the body at
  line 91, the recipient at line 94, the subject at line 97).
\<close>

fun text_cell :: "cell \<Rightarrow> bool" where
  "text_cell (Str s) = (s \<noteq> [])"
| "text_cell _ = False"

text \<open>
  A row the run can send: its cells are readable, and unless its status is already
  set, its recipient, subject (after \<open>staticsubject\<close>) and body are non-empty
  strings.
\<close>

definition valid_row :: "run_cfg \<Rightarrow> cell list \<Rightarrow> bool" where
  "valid_row rc row = (case read_row rc row of Inl _ \<Rightarrow> False
     | Inr (m, sj, b, st) \<Rightarrow> already_sent st \<or> text_cell m \<and> text_cell (row_subject rc sj) \<and> text_cell b)"


section \<open>Lemmas\<close>

lemma text_cell_truthy: "text_cell c \<Longrightarrow> truthy c"
  by (cases c) simp_all

lemma send_from_pool_deliveries:
  assumes "pool_ok ps" "\<forall>x \<in> set ps. \<not> nosend x" "find_free_server ps = Inr (ns, c)"
    and "send_mail env m 3 5 (wait_until ns w) c = (r, w2, c2)"
  shows "deliveries (log w2) = deliveries (log w) + (if r = Inr True then 1 else 0)"
proof -
  have "c \<in> set ps" using find_free_server_Inr [OF assms(3)] by simp
  with assms(1,2) have "adaptive_ok c \<and> quota_persist c \<and> \<not> nosend c" by (auto dest: pool_ok_member)
  with send_mail_delivers_once [OF _ _ _ assms(4)] show ?thesis by (simp add: adaptive_ok_def)
qed

lemma process_row_delivers_once:
  assumes "process_row env rc n w d = (r, w', d')" "pool_ok (pool d)" "\<forall>x \<in> set (pool d). \<not> nosend x"
  shows "deliveries (log w') = deliveries (log w) + (if r = Inr RowSent then 1 else 0)"
  using assms(1)
proof (cases rule: process_row_cases)
  case (invalid m sj b st ns c)
  then show ?thesis using mark_row_fields [of rc n 2 "wait_until ns w" d w' d'] by simp
next
  case (sent m sj b st ns c w2 c2)
  note ok = send_from_pool_deliveries [OF assms(2,3) sent(3,7)]
  then show ?thesis using sent mark_row_fields [of rc n 1 w2 _ w' d'] by simp
next
  case (refused m sj b st ns c w2 c2)
  note ok = send_from_pool_deliveries [OF assms(2,3) refused(3,7)]
  then show ?thesis using refused mark_row_fields [of rc n 2 w2 _ w' d'] by simp
next
  case (raised m sj b st ns c e w2 c2)
  then show ?thesis using send_from_pool_deliveries [OF assms(2,3) raised(3,7)] by simp
next
  case (abort m sj b st ns c w2 c2)
  then show ?thesis using send_from_pool_deliveries [OF assms(2,3) abort(3,7)] by simp
qed simp_all

lemma update_pool_all:
  "\<forall>x \<in> set ps. P x \<Longrightarrow> P c \<Longrightarrow> \<forall>x \<in> set (update_pool c ps). P x"
  by (auto simp: update_pool_def)

lemma send_from_pool_flags:
  assumes "find_free_server ps = Inr (ns, c)" "send_mail env m 3 5 w c = (r, w2, c2)"
    and "\<forall>x \<in> set ps. P (nosend x)"
  shows "\<forall>x \<in> set (update_pool c2 ps). P (nosend x)"
proof -
  have "c \<in> set ps" using find_free_server_Inr [OF assms(1)] by simp
  with assms(3) have "P (nosend c)" by blast
  with send_mail_flags [OF assms(2)] have "P (nosend c2)" by simp
  with assms(3) show ?thesis by (rule update_pool_all)
qed

lemma process_row_sending:
  assumes "process_row env rc n w d = (r, w', d')" "\<forall>x \<in> set (pool d). \<not> nosend x"
  shows "\<forall>x \<in> set (pool d'). \<not> nosend x"
  using assms(1)
proof (cases rule: process_row_cases)
  case (invalid m sj b st ns c)
  then show ?thesis using mark_row_fields [of rc n 2 "wait_until ns w" d w' d'] assms(2) by simp
next
  case (sent m sj b st ns c w2 c2)
  then show ?thesis using mark_row_fields [of rc n 1 w2 "d\<lparr>pool := update_pool c2 (pool d)\<rparr>" w' d']
      send_from_pool_flags [OF sent(3,7) assms(2)] by simp
next
  case (refused m sj b st ns c w2 c2)
  then show ?thesis using mark_row_fields [of rc n 2 w2 "d\<lparr>pool := update_pool c2 (pool d)\<rparr>" w' d']
      send_from_pool_flags [OF refused(3,7) assms(2)] by simp
next
  case (raised m sj b st ns c e w2 c2)
  then show ?thesis using send_from_pool_flags [OF raised(3,7) assms(2)] by simp
next
  case (abort m sj b st ns c w2 c2)
  then show ?thesis using send_from_pool_flags [OF abort(3,7) assms(2)] by simp
qed (use assms(2) in simp_all)

lemma read_row_colsend: "read_row rc row = Inr q \<Longrightarrow> colsend rc < length row"
  by (auto simp: read_row_def cell_at_def split: sum.splits if_splits)

lemma read_row_status: "read_row rc row = Inr (m, sj, b, st) \<Longrightarrow> row ! colsend rc = st"
  by (auto simp: read_row_def cell_at_def split: sum.splits if_splits)

lemma set_status_newly_sent:
  assumes "read_row rc (sh ! n) = Inr (m, sj, b, st)" "n < length sh"
  shows "newly_sent rc sh (set_status rc n v sh) n \<longleftrightarrow> v = 1 \<and> st \<noteq> Num 1"
proof -
  have cl: "colsend rc < length (sh ! n)" using read_row_colsend [OF assms(1)] .
  have st: "sh ! n ! colsend rc = st" using read_row_status [OF assms(1)] .
  have row: "set_status rc n v sh ! n = (sh ! n)[colsend rc := Num v]"
    using assms(2) by (simp add: set_status_def)
  have "set_status rc n v sh ! n \<noteq> sh ! n \<longleftrightarrow> st \<noteq> Num v"
  proof
    assume ch: "set_status rc n v sh ! n \<noteq> sh ! n"
    show "st \<noteq> Num v"
    proof
      assume "st = Num v"
      then have "(sh ! n)[colsend rc := Num v] = sh ! n" using st list_update_id [of "sh ! n" "colsend rc"] by simp
      with ch row show False by simp
    qed
  next
    assume ne: "st \<noteq> Num v"
    show "set_status rc n v sh ! n \<noteq> sh ! n"
    proof
      assume "set_status rc n v sh ! n = sh ! n"
      then have "set_status rc n v sh ! n ! colsend rc = sh ! n ! colsend rc" by simp
      with row cl st ne show False by simp
    qed
  qed
  with row cl show ?thesis by (auto simp: newly_sent_def)
qed

lemma process_row_newly_sent:
  assumes "process_row env rc n w d = (r, w', d')" "n < length (sheet d)"
  shows "newly_sent rc (sheet d) (sheet d') n \<longleftrightarrow> r = Inr RowSent"
  using assms(1)
proof (cases rule: process_row_cases)
  case (invalid m sj b st ns c)
  then show ?thesis using mark_row_fields [of rc n 2 "wait_until ns w" d w' d']
      set_status_newly_sent [OF invalid(1) assms(2)] by simp
next
  case (sent m sj b st ns c w2 c2)
  moreover have "st \<noteq> Num 1" using sent(2) by (auto simp: already_sent_def)
  ultimately show ?thesis using mark_row_fields [of rc n 1 w2 "d\<lparr>pool := update_pool c2 (pool d)\<rparr>" w' d']
      set_status_newly_sent [OF sent(1) assms(2)] by simp
next
  case (refused m sj b st ns c w2 c2)
  then show ?thesis using mark_row_fields [of rc n 2 w2 "d\<lparr>pool := update_pool c2 (pool d)\<rparr>" w' d']
      set_status_newly_sent [OF refused(1) assms(2)] by simp
qed (simp_all add: newly_sent_def)

lemma run_rows_deliveries:
  "run_rows env rc ns w d = (r, w', d') \<Longrightarrow> set ns \<subseteq> {..<length (sheet d)} \<Longrightarrow> distinct ns \<Longrightarrow>
   pool_ok (pool d) \<Longrightarrow> \<forall>x \<in> set (pool d). \<not> nosend x \<Longrightarrow>
   deliveries (log w') = deliveries (log w) + length (filter (newly_sent rc (sheet d) (sheet d')) ns)"
proof (induction ns arbitrary: w d)
  case (Cons n ns)
  have n: "n < length (sheet d)" "n \<notin> set ns" using Cons.prems(2,3) by auto
  note fr = run_rows_frame [OF Cons.prems(1-3)]
  have keep_n: "int n < rowoffset rc \<Longrightarrow> \<not> newly_sent rc (sheet d) (sheet d') n"
    using fr by (simp add: newly_sent_def)
  show ?case
  proof (cases "int n < rowoffset rc")
    case True
    then have "run_rows env rc ns w d = (r, w', d')" using Cons.prems(1) by simp
    with Cons.IH [OF this] Cons.prems(2-5) keep_n [OF True] show ?thesis by simp
  next
    case False
    then obtain q w1 d1 where p: "process_row env rc n w d = (q, w1, d1)"
      and c: "case q of Inl e \<Rightarrow> r = Inl e \<and> w' = w1 \<and> d' = d1
        | Inr RowAbort \<Rightarrow> r = Inr RetFalse \<and> w' = w1 \<and> d' = d1
        | Inr _ \<Rightarrow> run_rows env rc ns w1 d1 = (r, w', d')"
      using run_rows_induct_step [OF Cons.prems(1)] by auto
    note f1 = process_row_frame [OF p n(1)]
    have dl: "deliveries (log w1) = deliveries (log w) + (if q = Inr RowSent then 1 else 0)"
      using process_row_delivers_once [OF p Cons.prems(4,5)] .
    have ns_same: "\<forall>m \<in> set ns. sheet d1 ! m = sheet d ! m" using f1 n(2) by auto
    show ?thesis
    proof (cases "\<exists>e. q = Inl e \<or> q = Inr RowAbort")
      case True
      then have "w' = w1 \<and> d' = d1" using c by (auto split: sum.splits row_outcome.splits)
      moreover have "filter (newly_sent rc (sheet d) (sheet d1)) ns = []"
        using ns_same by (simp add: newly_sent_def filter_empty_conv)
      moreover have "\<not> newly_sent rc (sheet d) (sheet d1) n"
        using process_row_newly_sent [OF p n(1)] True by auto
      ultimately show ?thesis using dl True by auto
    next
      case nq: False
      then have rr: "run_rows env rc ns w1 d1 = (r, w', d')" using c
        by (auto split: sum.splits row_outcome.splits)
      have ih: "deliveries (log w') = deliveries (log w1) + length (filter (newly_sent rc (sheet d1) (sheet d')) ns)"
        using Cons.IH [OF rr] Cons.prems(2,3) f1 process_row_pool_ok [OF p Cons.prems(4)]
          process_row_sending [OF p Cons.prems(5)] by auto
      have "filter (newly_sent rc (sheet d1) (sheet d')) ns = filter (newly_sent rc (sheet d) (sheet d')) ns"
        using ns_same by (auto simp: newly_sent_def intro: filter_cong)
      moreover have "sheet d' ! n = sheet d1 ! n"
        using run_rows_frame [OF rr] Cons.prems(2,3) f1 n(2) by auto
      then have "newly_sent rc (sheet d) (sheet d') n \<longleftrightarrow> q = Inr RowSent"
        using process_row_newly_sent [OF p n(1)] by (simp add: newly_sent_def)
      ultimately show ?thesis using ih dl by simp
    qed
  qed
qed simp

lemma valid_row_mail:
  "valid_row rc row \<Longrightarrow> read_row rc row = Inr (m, sj, b, st) \<Longrightarrow> \<not> already_sent st \<Longrightarrow>
   message_ok False (m, row_subject rc sj, b)"
  by (auto simp: valid_row_def message_ok_def mime_text_def mail_to_list_def as_string_def split: cell.splits)

lemma send_from_pool_up:
  assumes "\<forall>k m. fst (env k m) = None" "pool_ok ps" "find_free_server ps = Inr (ns, c)"
    and "message_ok False m" "send_mail env m 3 5 w c = (r, w2, c2)"
  shows "r = Inr True"
proof -
  have "adaptive_ok c \<and> quota_persist c"
    using pool_ok_member [OF assms(2)] find_free_server_Inr [OF assms(3)] by simp
  then show ?thesis using send_mail_up [OF assms(1) _ _ _ assms(5) message_ok_nosend [OF assms(4)]] by (simp add: adaptive_ok_def)
qed

lemma process_row_up:
  assumes "\<forall>k m. fst (env k m) = None" "pool d \<noteq> []" "pool_ok (pool d)" "valid_row rc (sheet d ! n)"
    and "process_row env rc n w d = (r, w', d')"
  shows "if row_done rc (sheet d ! n) then r = Inr RowSkipped \<and> d' = d
         else r = Inr RowSent \<and> sheet d' = set_status rc n 1 (sheet d)"
  using assms(5)
proof (cases rule: process_row_cases)
  case (read_error e)
  then show ?thesis using assms(4) by (simp add: valid_row_def)
next
  case (skipped m sj b st)
  then show ?thesis by (simp add: row_done_def)
next
  case (no_server m sj b st e)
  obtain y ys where "pool d = y # ys" using assms(2) by (cases "pool d") auto
  with no_server(3) find_free_server_Cons [of y ys] show ?thesis by auto
next
  case (invalid m sj b st ns c)
  then show ?thesis using assms(4) by (auto simp: valid_row_def dest: text_cell_truthy)
next
  case (sent m sj b st ns c w2 c2)
  then show ?thesis
    using mark_row_fields [of rc n 1 w2 "d\<lparr>pool := update_pool c2 (pool d)\<rparr>" w' d']
    by (simp add: row_done_def)
next
  case (refused m sj b st ns c w2 c2)
  then show ?thesis using send_from_pool_up [OF assms(1,3) refused(3) valid_row_mail [OF assms(4) refused(1,2)] refused(7)]
    by simp
next
  case (raised m sj b st ns c e w2 c2)
  then show ?thesis using send_from_pool_up [OF assms(1,3) raised(3) valid_row_mail [OF assms(4) raised(1,2)] raised(7)]
    by simp
next
  case (abort m sj b st ns c w2 c2)
  then show ?thesis using send_from_pool_up [OF assms(1,3) abort(3) valid_row_mail [OF assms(4) abort(1,2)] abort(7)]
    by simp
qed

lemma run_rows_up:
  "run_rows env rc ns w d = (r, w', d') \<Longrightarrow> set ns \<subseteq> {..<length (sheet d)} \<Longrightarrow> distinct ns \<Longrightarrow>
   \<forall>k m. fst (env k m) = None \<Longrightarrow> pool d \<noteq> [] \<Longrightarrow> pool_ok (pool d) \<Longrightarrow>
   \<forall>n \<in> set ns. rowoffset rc \<le> int n \<longrightarrow> valid_row rc (sheet d ! n) \<Longrightarrow>
   r = Inr RetNone \<and> (\<forall>n \<in> set ns. rowoffset rc \<le> int n \<and> \<not> row_done rc (sheet d ! n)
      \<longrightarrow> sheet d' ! n = set_status rc n 1 (sheet d) ! n)"
proof (induction ns arbitrary: w d)
  case (Cons n ns)
  have n: "n < length (sheet d)" "n \<notin> set ns" using Cons.prems(2,3) by auto
  show ?case
  proof (cases "int n < rowoffset rc")
    case True
    then have "run_rows env rc ns w d = (r, w', d')" using Cons.prems(1) by simp
    with Cons.IH [OF this] Cons.prems(2-7) True show ?thesis by auto
  next
    case False
    then obtain q w1 d1 where p: "process_row env rc n w d = (q, w1, d1)"
      and c: "case q of Inl e \<Rightarrow> r = Inl e \<and> w' = w1 \<and> d' = d1
        | Inr RowAbort \<Rightarrow> r = Inr RetFalse \<and> w' = w1 \<and> d' = d1
        | Inr _ \<Rightarrow> run_rows env rc ns w1 d1 = (r, w', d')"
      using run_rows_induct_step [OF Cons.prems(1)] by auto
    have v: "valid_row rc (sheet d ! n)" using Cons.prems(7) False by simp
    note up = process_row_up [OF Cons.prems(4,5,6) v p]
    note f1 = process_row_frame [OF p n(1)]
    have q: "q = Inr RowSkipped \<or> q = Inr RowSent" using up by (auto split: if_splits)
    then have rr: "run_rows env rc ns w1 d1 = (r, w', d')" using c by auto
    have same: "\<forall>m \<in> set ns. sheet d1 ! m = sheet d ! m" using f1 n(2) by auto
    have pool1: "pool d1 \<noteq> []" using f1 Cons.prems(5) by (metis Nil_is_map_conv)
    have ih: "r = Inr RetNone \<and> (\<forall>m \<in> set ns. rowoffset rc \<le> int m \<and> \<not> row_done rc (sheet d1 ! m)
        \<longrightarrow> sheet d' ! m = set_status rc m 1 (sheet d1) ! m)"
      using Cons.IH [OF rr _ _ Cons.prems(4) pool1 process_row_pool_ok [OF p Cons.prems(6)]]
        Cons.prems(2,3,7) f1 same by auto
    have "sheet d' ! n = sheet d1 ! n"
      using run_rows_frame [OF rr] Cons.prems(2,3) f1 n(2) by auto
    moreover have "\<forall>m \<in> set ns. set_status rc m 1 (sheet d1) ! m = set_status rc m 1 (sheet d) ! m"
      using same f1 Cons.prems(2) by (auto simp: set_status_def)
    ultimately show ?thesis using ih up same by (auto split: if_splits)
  qed
qed simp

text \<open>C2: When every account of the pool is adaptive, within quota, has its persist callback and sends for real, a run delivers exactly as many mails as it newly marks rows with status 1: no mail is sent twice, none is sent for a row left unmarked or marked 2, whatever the network does and however the run ends.\<close>

theorem run_delivers_once:
  assumes "run env rc w d = (r, w', d')" "pool_ok (pool d)" "\<forall>x \<in> set (pool d). \<not> nosend x"
  shows "deliveries (log w') = deliveries (log w)
    + length (filter (newly_sent rc (sheet d) (sheet d')) [0..<length (sheet d)])"
proof -
  have "set [0..<length (sheet d)] \<subseteq> {..<length (sheet d)}" by auto
  from run_rows_deliveries [OF assms(1) [unfolded run_def] this _ assms(2,3)] show ?thesis by simp
qed

theorem run_delivers_once_witness:
  "deliveries (log (fst (snd (run (env_const None) ex_rc (ex_world 0) ex_state)))) = 1
   \<and> length (filter (newly_sent ex_rc (sheet ex_state) (sheet (snd (snd (run (env_const None) ex_rc (ex_world 0) ex_state)))))
       [0..<length (sheet ex_state)]) = 1"
proof -
  let ?u = "run (env_const None) ex_rc (ex_world 0) ex_state"
  have h: "deliveries (log (fst (snd ?u))) = 1" by (simp add: dispatch_eval)
  have z: "deliveries (log (ex_world 0)) = 0" by (simp add: ex_world_def)
  have p: "pool_ok (pool ex_state)" "\<forall>x \<in> set (pool ex_state). \<not> nosend x"
    by (simp_all add: pool_ok_def ex_state_def example_defs adaptive_ok_def)
  have "deliveries (log (fst (snd ?u))) = deliveries (log (ex_world 0))
      + length (filter (newly_sent ex_rc (sheet ex_state) (sheet (snd (snd ?u)))) [0..<length (sheet ex_state)])"
    using run_delivers_once [OF _ p, of "env_const None" ex_rc "ex_world 0" "fst ?u" "fst (snd ?u)" "snd (snd ?u)"]
    by simp
  with h z show ?thesis by linarith
qed

text \<open>C5: After a run that finishes normally (returns None), every row from the offset on carries a status, so running again on the resulting sheet, with any network and at any time, contacts no server, sleeps never and changes nothing.\<close>

theorem rerun_is_noop:
  assumes "run env rc w d = (Inr RetNone, w', d')"
  shows "run env2 rc w2 d' = (Inr RetNone, w2, d')"
proof -
  have "set [0..<length (sheet d)] \<subseteq> {..<length (sheet d)}" by auto
  note f = run_rows_frame [OF assms [unfolded run_def] this]
  have "\<forall>n \<in> set [0..<length (sheet d)]. rowoffset rc \<le> int n \<longrightarrow> row_done rc (sheet d' ! n)"
    using f by simp
  moreover have "length (sheet d') = length (sheet d)"
    using f by simp
  ultimately show ?thesis by (simp add: run_def run_rows_all_done)
qed

theorem rerun_is_noop_witness:
  "fst (run (env_const None) ex_rc (ex_world 0) ex_state) = Inr RetNone
   \<and> run (env_const (Some SocketError)) ex_rc (ex_world 100) (snd (snd (run (env_const None) ex_rc (ex_world 0) ex_state)))
     = (Inr RetNone, ex_world 100, snd (snd (run (env_const None) ex_rc (ex_world 0) ex_state)))"
proof -
  let ?u = "run (env_const None) ex_rc (ex_world 0) ex_state"
  have h: "fst ?u = Inr RetNone" by (simp add: dispatch_eval)
  have "?u = (Inr RetNone, fst (snd ?u), snd (snd ?u))" using h by (metis prod.collapse)
  from rerun_is_noop [OF this] h show ?thesis by simp
qed

text \<open>C6: A run, however it ends, only writes status cells: the rows before the offset are untouched, no row is added, removed or resized, every other cell keeps its value, and the saved workbook equals the sheet in memory after every step.\<close>

theorem run_sheet_frame:
  assumes "run env rc w d = (r, w', d')" "saved d = sheet d"
  shows "saved d' = sheet d' \<and> length (sheet d') = length (sheet d)
    \<and> (\<forall>m < length (sheet d). int m < rowoffset rc \<longrightarrow> sheet d' ! m = sheet d ! m)
    \<and> (\<forall>m. length (sheet d' ! m) = length (sheet d ! m)
         \<and> (\<forall>j. j \<noteq> colsend rc \<longrightarrow> sheet d' ! m ! j = sheet d ! m ! j))"
proof -
  have "set [0..<length (sheet d)] \<subseteq> {..<length (sheet d)}" by auto
  from run_rows_frame [OF assms(1) [unfolded run_def] this] assms(2) show ?thesis by simp
qed

theorem run_sheet_frame_witness:
  "saved ex_state = sheet ex_state
   \<and> saved (snd (snd (run (env_const None) ex_rc (ex_world 0) ex_state)))
     = sheet (snd (snd (run (env_const None) ex_rc (ex_world 0) ex_state)))
   \<and> sheet (snd (snd (run (env_const None) ex_rc (ex_world 0) ex_state))) ! 0 = ex_sheet ! 0"
proof -
  let ?u = "run (env_const None) ex_rc (ex_world 0) ex_state"
  have s: "saved ex_state = sheet ex_state" by (simp add: ex_state_def)
  from run_sheet_frame [of "env_const None" ex_rc "ex_world 0" ex_state "fst ?u" "fst (snd ?u)" "snd (snd ?u)"] s
  show ?thesis by (simp add: ex_rc_def ex_state_def ex_sheet_def)
qed

lemma process_row_static_invalid:
  assumes "process_row env rc n w d = (r, w', d')" "staticsubject rc = Some v" "\<not> truthy v"
  shows "ticks w' = ticks w \<and> deliveries (log w') = deliveries (log w) \<and> r \<noteq> Inr RowAbort"
  using assms(1)
proof (cases rule: process_row_cases)
  case (invalid m sj b st ns c)
  then show ?thesis using mark_row_fields [of rc n 2 "wait_until ns w" d w' d'] by simp
qed (use assms(2,3) in \<open>simp_all add: row_subject_def\<close>)

lemma run_rows_static_invalid:
  "run_rows env rc ns w d = (r, w', d') \<Longrightarrow> staticsubject rc = Some v \<Longrightarrow> \<not> truthy v \<Longrightarrow>
   ticks w' = ticks w \<and> deliveries (log w') = deliveries (log w)"
proof (induction ns arbitrary: w d)
  case (Cons n ns)
  show ?case
  proof (cases "int n < rowoffset rc")
    case True
    with Cons show ?thesis by simp
  next
    case False
    then obtain q w1 d1 where p: "process_row env rc n w d = (q, w1, d1)"
      and c: "case q of Inl e \<Rightarrow> r = Inl e \<and> w' = w1 \<and> d' = d1
        | Inr RowAbort \<Rightarrow> r = Inr RetFalse \<and> w' = w1 \<and> d' = d1
        | Inr _ \<Rightarrow> run_rows env rc ns w1 d1 = (r, w', d')"
      using run_rows_induct_step [OF Cons.prems(1)] by auto
    note f = process_row_static_invalid [OF p Cons.prems(2,3)]
    show ?thesis using c f Cons.IH [OF _ Cons.prems(2,3)]
      by (auto split: sum.splits row_outcome.splits)
  qed
qed simp

text \<open>C11: Started from the command line without --staticsubject, the options still hold the key staticsubject with value None, so every row's subject is None: the run contacts no mail server and delivers nothing (every pending row is marked as an error).\<close>

theorem staticsubject_blocks_sending:
  assumes "run env (rc\<lparr>staticsubject := cli_staticsubject None\<rparr>) w d = (r, w', d')"
  shows "ticks w' = ticks w \<and> deliveries (log w') = deliveries (log w)"
  using run_rows_static_invalid [OF assms [unfolded run_def]] by (simp add: cli_staticsubject_def)

theorem staticsubject_blocks_sending_witness:
  "ticks (fst (snd (run (env_const None) (ex_rc\<lparr>staticsubject := cli_staticsubject None\<rparr>) (ex_world 0) ex_state))) = 0
   \<and> sheet (snd (snd (run (env_const None) (ex_rc\<lparr>staticsubject := cli_staticsubject None\<rparr>) (ex_world 0) ex_state)))
     = set_status ex_rc 2 2 (set_status ex_rc 1 2 ex_sheet)"
proof -
  let ?u = "run (env_const None) (ex_rc\<lparr>staticsubject := cli_staticsubject None\<rparr>) (ex_world 0) ex_state"
  have "sheet (snd (snd ?u)) = set_status ex_rc 2 2 (set_status ex_rc 1 2 ex_sheet)"
    by (simp add: dispatch_eval cli_staticsubject_def)
  with staticsubject_blocks_sending [of "env_const None" ex_rc "ex_world 0" ex_state "fst ?u" "fst (snd ?u)" "snd (snd ?u)"]
  show ?thesis by (simp add: ex_world_def)
qed

text \<open>C4: With a network that accepts every login and every mail, a non-empty pool of adaptive accounts within quota and a sheet whose rows from the offset are all readable and, unless already marked, hold non-empty strings as address, subject (after staticsubject) and body, the run finishes normally (returns None) and every row that was pending now has status 1.\<close>

theorem run_sends_every_valid_row:
  assumes "\<forall>k m. fst (env k m) = None" "pool d \<noteq> []" "pool_ok (pool d)"
    and "\<forall>n < length (sheet d). rowoffset rc \<le> int n \<longrightarrow> valid_row rc (sheet d ! n)"
    and "run env rc w d = (r, w', d')"
  shows "r = Inr RetNone \<and> (\<forall>n < length (sheet d). rowoffset rc \<le> int n \<and> \<not> row_done rc (sheet d ! n)
      \<longrightarrow> sheet d' ! n ! colsend rc = Num 1)"
proof -
  have s: "set [0..<length (sheet d)] \<subseteq> {..<length (sheet d)}" by auto
  have "\<forall>n < length (sheet d). \<not> row_done rc (sheet d ! n) \<and> valid_row rc (sheet d ! n)
      \<longrightarrow> set_status rc n 1 (sheet d) ! n ! colsend rc = Num 1"
    by (auto simp: valid_row_def row_done_def set_status_def cell_at_def read_row_def split: sum.splits if_splits)
  with run_rows_up [OF assms(5) [unfolded run_def] s _ assms(1-3)] assms(4) show ?thesis by auto
qed

theorem run_sends_every_valid_row_witness:
  "fst (run (env_const None) ex_rc (ex_world 0) (ex_state\<lparr>sheet := take 2 ex_sheet\<rparr>)) = Inr RetNone
   \<and> sheet (snd (snd (run (env_const None) ex_rc (ex_world 0) (ex_state\<lparr>sheet := take 2 ex_sheet\<rparr>)))) ! 1 ! 3 = Num 1"
proof -
  let ?d = "ex_state\<lparr>sheet := take 2 ex_sheet\<rparr>"
  let ?u = "run (env_const None) ex_rc (ex_world 0) ?d"
  have h: "\<forall>k m. fst (env_const None k m) = None" "pool ?d \<noteq> []" "pool_ok (pool ?d)"
    "\<forall>n < length (sheet ?d). rowoffset ex_rc \<le> int n \<longrightarrow> valid_row ex_rc (sheet ?d ! n)"
    "\<not> row_done ex_rc (sheet ?d ! 1)"
    by (auto simp: env_const_def ex_state_def pool_ok_def example_defs adaptive_ok_def ex_rc_def ex_sheet_def
        valid_row_def row_done_def read_row_def cell_at_def row_subject_def already_sent_def less_Suc_eq)
  from run_sends_every_valid_row [OF h(1-4), of "ex_world 0" "fst ?u" "fst (snd ?u)" "snd (snd ?u)"] h(5)
  show ?thesis by (simp add: ex_rc_def ex_state_def ex_sheet_def)
qed

end
