(* ===== verification/Cli.thy ===== *)
theory Cli
  imports Runs
begin

text \<open>
  Start-up code around the dispatcher (\<open>src/sheetmail.py\<close>): the account pool
  built by \<open>Excel_Mail_Sender.init\<close> (lines 195-202) and the connectivity test
  \<open>test_mail\<close> of \<open>--test\<close> (lines 258-274). Each account arrives as its quota
  configuration with the identity CPython gives its \<open>Mail_sender\<close> object; the
  workbook and JSON loads around them are in \<open>Launcher\<close>.
\<close>

section \<open>Operations\<close>

text \<open>
  Lines 195-202: one \<open>Mail_sender\<close> per configured account, in file order, each
  given the \<open>_persist_config\<close> callback and the \<open>nosend\<close> flag. Its constructor
  runs \<open>_update_quotas(mail_send=False)\<close>, whose exceptions leave \<open>init\<close>.
\<close>

fun init_pool :: "bool \<Rightarrow> (nat \<times> quota_cfg) list \<Rightarrow> world \<Rightarrow> mail_sender list result \<times> world" where
  "init_pool ns [] w = (Inr [], w)"
| "init_pool ns ((i, c) # cs) w =
     (case init_sender i c True ns w of
        (Inl e, w1) \<Rightarrow> (Inl e, w1)
      | (Inr s, w1) \<Rightarrow>
          (case init_pool ns cs w1 of
             (Inl e, w2) \<Rightarrow> (Inl e, w2)
           | (Inr ss, w2) \<Rightarrow> (Inr (s # ss), w2)))"

text \<open>
  The \<open>except\<close> clauses of \<open>test_mail\<close> (lines 266-274): \<open>SMTPHeloError\<close>,
  \<open>SMTPAuthenticationError\<close>, every other \<open>SMTPException\<close>, and \<open>socket.error\<close>.
\<close>

fun test_caught :: "exc \<Rightarrow> bool" where
  "test_caught ZeroDivisionError = False"
| "test_caught TypeError = False"
| "test_caught IndexError = False"
| "test_caught OtherError = False"
| "test_caught CellCoordinatesException = False"
| "test_caught InvalidFileException = False"
| "test_caught ValueError = False"
| "test_caught KeyError = False"
| "test_caught _ = True"

text \<open>
  Lines 258-274: for each account, \<open>Mail_sender(connection, None)\<close> (no persist
  callback, sending enabled), then log in and close; a caught exception is logged
  and the loop goes on.
\<close>

fun test_mail :: "transport \<Rightarrow> (nat \<times> quota_cfg) list \<Rightarrow> world \<Rightarrow> unit result \<times> world" where
  "test_mail env [] w = (Inr (), w)"
| "test_mail env ((i, c) # cs) w =
     (case init_sender i c False False w of
        (Inl e, w1) \<Rightarrow> (Inl e, w1)
      | (Inr s, w1) \<Rightarrow>
          (case connect_to_server env w1 s of
             (Inr _, w2, s2) \<Rightarrow> test_mail env cs (fst (close w2 s2))
           | (Inl e, w2, s2) \<Rightarrow> (if test_caught e then test_mail env cs w2 else (Inl e, w2))))"

section \<open>Lemmas\<close>

text \<open>
  With the callback present, building the pool cannot fail, keeps the identities
  and the order of the file, and starts every account adaptive and within quota.
\<close>

lemma init_pool_adaptive_ok:
  assumes "\<forall>(i, c) \<in> set cs. \<not> use_fixed_delay c \<and> 1 \<le> allowed_requests c
      \<and> 0 \<le> remaining_requests c \<and> remaining_requests c \<le> allowed_requests c"
  shows "\<exists>ps w1. init_pool ns cs w = (Inr ps, w1) \<and> map ident ps = map fst cs \<and> pool_ok ps"
  using assms
proof (induction cs arbitrary: w)
  case (Cons ic cs)
  obtain i c where ic: "ic = (i, c)" by (cases ic)
  with Cons.prems obtain s w1 where s: "init_sender i c True ns w = (Inr s, w1)" "adaptive_ok s"
    using init_sender_adaptive_ok by fastforce
  have "ident s = i \<and> quota_persist s"
    using s(1) by (auto simp: init_sender_def dest!: update_quotas_frame split: sum.splits prod.splits)
  moreover obtain ps w2 where "init_pool ns cs w1 = (Inr ps, w2)" "map ident ps = map fst cs" "pool_ok ps"
    using Cons.IH [of w1] Cons.prems by auto
  ultimately show ?case using s ic by (simp add: pool_ok_def)
qed (simp add: pool_ok_def)

text \<open>C32: The connectivity test crashes with TypeError on the first account whose config asks for the quota to be persisted, before contacting its server: the test builds the sender without a persist callback.\<close>

theorem test_mail_type_error:
  assumes "update_config c"
  shows "test_mail env ((i, c) # cs) w = (Inl TypeError, w)"
  using assms by (simp add: init_sender_def quota_defs split: prod.splits)

theorem test_mail_type_error_witness:
  "test_mail (env_const None) [(0, (cfg (adaptive_sender 60 0 3 3))\<lparr>update_config := True\<rparr>)] (ex_world 0)
     = (Inl TypeError, ex_world 0)"
  using test_mail_type_error [of "(cfg (adaptive_sender 60 0 3 3))\<lparr>update_config := True\<rparr>"]
  by simp

end
