(* ===== verification/Launcher.thy ===== *)
theory Launcher
  imports Cli
begin

text \<open>
  The program around the core (\<open>src/sheetmail.py\<close>): what \<open>_persist_config\<close>
  writes and how a restart reads it back through \<open>Excel_Mail_Sender.init\<close>, the
  error handling of \<open>init\<close> and of \<open>test_spreadsheet_file\<close> around the three
  \<open>load_workbook\<close> calls and the JSON load, and the control flow of \<open>__main__\<close> from
  the parsed options to \<open>run\<close>. What the loads raise is an input of the model.
\<close>

section \<open>Definitions\<close>

text \<open>
  Lines 204-208, \<open>_persist_config\<close>: \<open>json.dump(self.server_config)\<close>. Each
  sender's \<open>config\<close> is the very dict of \<open>server_config['mail_user']\<close> it was built
  from, so the file receives every account's quota entries in file order; the
  sender's \<open>next_send\<close> is not part of it.
\<close>

definition persisted_config :: "mail_sender list \<Rightarrow> quota_cfg list" where
  "persisted_config ps = map cfg ps"

text \<open>
  Lines 318-334: the options of \<open>parse_args\<close> that reach the core. Host names,
  files and log settings are not modelled.
\<close>

record cli_opts =
  opt_test :: bool
  opt_notest :: bool
  opt_nosend :: bool
  opt_staticsubject :: "string option"
  opt_rowoffset :: int
  opt_colmail :: nat
  opt_colsubject :: nat
  opt_colbody :: nat
  opt_colsend :: nat

text \<open>Line 334 and 365: \<open>vars(parse_args())\<close> becomes the config of \<open>Excel_Mail_Sender\<close>.\<close>

definition run_cfg_of :: "cli_opts \<Rightarrow> run_cfg" where
  "run_cfg_of opts = \<lparr>colmail = opt_colmail opts, colsubject = opt_colsubject opts, colbody = opt_colbody opts,
     colsend = opt_colsend opts, rowoffset = opt_rowoffset opts, staticsubject = cli_staticsubject (opt_staticsubject opts)\<rparr>"

text \<open>
  What \<open>json.load\<close> makes of the config file: not JSON (\<open>ValueError\<close>), a document
  without the key \<open>'mail_user'\<close>, or the accounts it lists, each with the
  identity its \<open>Mail_sender\<close> object will get.
\<close>

datatype json_doc = JsonInvalid | JsonNoUsers | JsonUsers "(nat \<times> quota_cfg) list"

text \<open>
  Lines 168-202, \<open>Excel_Mail_Sender.init\<close>. \<open>wb\<close> is what \<open>load_workbook\<close> raises,
  if anything. The clause \<open>except CellCoordinatesException, InvalidFileException:\<close>
  is Python 2's \<open>except E, name:\<close>: it catches \<open>CellCoordinatesException\<close> only and
  binds it to the name \<open>InvalidFileException\<close>, so every other load error escapes.
  A config that is not JSON or has no \<open>'mail_user'\<close> raises \<open>ValueError\<close>, which is
  caught: \<open>init\<close> returns \<open>False\<close>. Then the pool is built.
\<close>

definition init_app :: "exc option \<Rightarrow> json_doc \<Rightarrow> bool \<Rightarrow> world \<Rightarrow> bool result \<times> world \<times> mail_sender list" where
  "init_app wb js ns w =
     (case wb of
        Some e \<Rightarrow> (if e = CellCoordinatesException then (Inr False, w, []) else (Inl e, w, []))
      | None \<Rightarrow>
          (case js of
             JsonInvalid \<Rightarrow> (Inr False, w, [])
           | JsonNoUsers \<Rightarrow> (Inr False, w, [])
           | JsonUsers cs \<Rightarrow>
               (case init_pool ns cs w of
                  (Inl e, w1) \<Rightarrow> (Inl e, w1, [])
                | (Inr ps, w1) \<Rightarrow> (Inr True, w1, ps))))"

text \<open>
  Lines 259-260, the start of \<open>test_mail\<close>: \<open>json.load\<close> and
  \<open>server_config['mail_user']\<close>, with no handler around them.
\<close>

definition mail_users :: "json_doc \<Rightarrow> (nat \<times> quota_cfg) list result" where
  "mail_users js = (case js of JsonInvalid \<Rightarrow> Inl ValueError | JsonNoUsers \<Rightarrow> Inl KeyError | JsonUsers cs \<Rightarrow> Inr cs)"

text \<open>
  Lines 276-312, \<open>test_spreadsheet_file\<close>: \<open>True\<close> means an error. \<open>l1\<close> is what the
  first \<open>load_workbook\<close> raises (only \<open>InvalidFileException\<close> is caught), \<open>l2\<close> what
  reloading the copy saved to a temporary file raises (only \<open>TypeError\<close>, the
  comment bug, is caught). The temporary file is not part of the world.
\<close>

definition test_spreadsheet_file :: "exc option \<Rightarrow> exc option \<Rightarrow> bool result" where
  "test_spreadsheet_file l1 l2 =
     (case l1 of
        Some e \<Rightarrow> (if e = InvalidFileException then Inr True else Inl e)
      | None \<Rightarrow> (case l2 of
                   None \<Rightarrow> Inr False
                 | Some e \<Rightarrow> (if e = TypeError then Inr True else Inl e)))"

text \<open>Lines 214-215, \<open>Excel_Mail_Sender.close\<close>: \<open>wb.save\<close>.\<close>

definition close_app :: "world \<Rightarrow> dstate \<Rightarrow> world \<times> dstate" where
  "close_app w d = (emit SaveBook w, d\<lparr>saved := sheet d\<rparr>)"

text \<open>How \<open>__main__\<close> ends: an exception escapes, an \<open>exit()\<close>, \<open>init\<close> returns
  \<open>False\<close>, \<open>run\<close> ends, or a \<open>KeyboardInterrupt\<close> stops \<open>run\<close>.\<close>

datatype main_ret = Crashed exc | Exited | InitFalse | Ran "run_ret result" | Interrupted

text \<open>
  Lines 355-370. With \<open>--test\<close> the accounts and then the spreadsheet are tested
  and the program exits; otherwise, unless \<open>--notest\<close>, the spreadsheet test runs
  and an error exits; then \<open>init\<close>, and if it succeeds \<open>run\<close> on the sheet as
  loaded. \<open>sh\<close> is that sheet; \<open>wb\<close>, \<open>l1\<close> and \<open>l2\<close> are the outcomes of the
  three \<open>load_workbook\<close> calls. \<open>intr = Some k\<close> is a \<open>KeyboardInterrupt\<close> that
  arrives when the loop reaches row \<open>k\<close> (while it waits for an account): the rows
  before \<open>k\<close> have been processed, row \<open>k\<close> is not, and \<open>close\<close> saves the
  workbook. An interrupt that the loop does not reach changes nothing.
\<close>

definition main ::
  "transport \<Rightarrow> cli_opts \<Rightarrow> exc option \<Rightarrow> json_doc \<Rightarrow> exc option \<Rightarrow> exc option \<Rightarrow> nat option
   \<Rightarrow> cell list list \<Rightarrow> world \<Rightarrow> main_ret \<times> world \<times> dstate option" where
  "main env opts wb js l1 l2 intr sh w =
     (if opt_test opts then
        (case (case mail_users js of Inl e \<Rightarrow> (Inl e, w) | Inr cs \<Rightarrow> test_mail env cs w) of
           (Inl e, w') \<Rightarrow> (Crashed e, w', None)
         | (Inr _, w') \<Rightarrow>
             (case test_spreadsheet_file l1 l2 of
                Inl e \<Rightarrow> (Crashed e, w', None)
              | Inr _ \<Rightarrow> (Exited, w', None)))
      else
        (case (if opt_notest opts then Inr False else test_spreadsheet_file l1 l2) of
           Inl e \<Rightarrow> (Crashed e, w, None)
         | Inr True \<Rightarrow> (Exited, w, None)
         | Inr False \<Rightarrow>
             (case init_app wb js (opt_nosend opts) w of
                (Inl e, w1, _) \<Rightarrow> (Crashed e, w1, None)
              | (Inr False, w1, _) \<Rightarrow> (InitFalse, w1, None)
              | (Inr True, w1, ps) \<Rightarrow>
                  (let d0 = \<lparr>pool = ps, sheet = sh, saved = sh\<rparr> in
                   case intr of
                     None \<Rightarrow> (case run env (run_cfg_of opts) w1 d0 of (r, w2, d) \<Rightarrow> (Ran r, w2, Some d))
                   | Some k \<Rightarrow>
                       (case run_rows env (run_cfg_of opts) (take k [0..<length sh]) w1 d0 of
                          (r, w2, d) \<Rightarrow>
                            (if r = Inr RetNone \<and> k < length sh
                             then (case close_app w2 d of (w3, d3) \<Rightarrow> (Interrupted, w3, Some d3))
                             else (Ran r, w2, Some d)))))))"

text \<open>The command line with its defaults and no \<open>--staticsubject\<close>.\<close>

definition ex_opts :: cli_opts where
  "ex_opts = \<lparr>opt_test = False, opt_notest = False, opt_nosend = False, opt_staticsubject = None,
     opt_rowoffset = 1, opt_colmail = 0, opt_colsubject = 1, opt_colbody = 2, opt_colsend = 3\<rparr>"

section \<open>Lemmas\<close>

lemma init_sender_world:
  "init_sender i c p ns w = (r, w') \<Longrightarrow> ticks w' = ticks w \<and> deliveries (log w') = deliveries (log w)"
  by (auto simp: init_sender_def dest!: update_quotas_log split: prod.splits sum.splits)

lemma init_pool_world:
  "init_pool ns cs w = (r, w') \<Longrightarrow> ticks w' = ticks w \<and> deliveries (log w') = deliveries (log w)"
proof (induction cs arbitrary: w r w')
  case (Cons ic cs)
  obtain i c where ic: "ic = (i, c)" by (cases ic)
  obtain r1 w1 where s: "init_sender i c True ns w = (r1, w1)" by (cases "init_sender i c True ns w")
  note f = init_sender_world [OF s]
  show ?case
  proof (cases r1)
    case (Inl e)
    with Cons.prems ic s f show ?thesis by simp
  next
    case (Inr s1)
    obtain r2 w2 where p: "init_pool ns cs w1 = (r2, w2)" by (cases "init_pool ns cs w1")
    with Cons.IH [OF p] Cons.prems ic s f Inr show ?thesis by (auto split: sum.splits)
  qed
qed simp

lemma init_app_world:
  "init_app wb js ns w = (r, w', ps) \<Longrightarrow> ticks w' = ticks w \<and> deliveries (log w') = deliveries (log w)"
  by (auto simp: init_app_def dest!: init_pool_world split: option.splits if_splits json_doc.splits prod.splits sum.splits)

lemma main_without_staticsubject:
  assumes "opt_staticsubject opts = None" "\<not> opt_test opts" "main env opts wb js l1 l2 intr sh w = (r, w', dopt)"
  shows "ticks w' = ticks w \<and> deliveries (log w') = deliveries (log w)"
proof -
  have st: "staticsubject (run_cfg_of opts) = Some Empty" using assms(1) by (simp add: run_cfg_of_def cli_staticsubject_def)
  obtain q w1 ps where i: "init_app wb js (opt_nosend opts) w = (q, w1, ps)" using prod_cases3 by blast
  note f = init_app_world [OF i]
  let ?d0 = "\<lparr>pool = ps, sheet = sh, saved = sh\<rparr>"
  have rr: "ticks w2 = ticks w \<and> deliveries (log w2) = deliveries (log w)"
    if "run_rows env (run_cfg_of opts) ns w1 ?d0 = (r2, w2, d2)" for ns r2 w2 d2
    using run_rows_static_invalid [OF that st] f by simp
  show ?thesis
  proof (cases intr)
    case None
    obtain r2 w2 d2 where "run_rows env (run_cfg_of opts) [0..<length sh] w1 ?d0 = (r2, w2, d2)"
      using prod_cases3 by blast
    with rr [OF this] assms(2,3) i f None show ?thesis
      by (auto simp: main_def run_def split: if_splits sum.splits bool.splits)
  next
    case (Some k)
    obtain r2 w2 d2 where "run_rows env (run_cfg_of opts) (take k [0..<length sh]) w1 ?d0 = (r2, w2, d2)"
      using prod_cases3 by blast
    with rr [OF this] assms(2,3) i f Some show ?thesis
      by (auto simp: main_def close_app_def split: if_splits sum.splits bool.splits)
  qed
qed

text \<open>C13: Without --test, a workbook that the spreadsheet loader rejects as invalid makes the program exit cleanly when the spreadsheet integrity test runs, but with --notest init lets the InvalidFileException escape and the program crashes; only a CellCoordinatesException is turned into init returning False.\<close>

theorem invalid_workbook_crashes_init:
  assumes "\<not> opt_test opts"
  shows "fst (main env opts (Some InvalidFileException) js (Some InvalidFileException) l2 intr sh w)
    = (if opt_notest opts then Crashed InvalidFileException else Exited)
    \<and> fst (main env opts (Some CellCoordinatesException) js None None intr sh w) = InitFalse"
  using assms by (simp add: main_def init_app_def test_spreadsheet_file_def)

theorem invalid_workbook_crashes_init_witness:
  "fst (main (env_const None) (ex_opts\<lparr>opt_notest := True\<rparr>) (Some InvalidFileException) JsonInvalid
      (Some InvalidFileException) None None ex_sheet (ex_world 0)) = Crashed InvalidFileException
   \<and> fst (main (env_const None) ex_opts (Some InvalidFileException) JsonInvalid
      (Some InvalidFileException) None None ex_sheet (ex_world 0)) = Exited"
proof -
  have "\<not> opt_test (ex_opts\<lparr>opt_notest := True\<rparr>)" "\<not> opt_test ex_opts" by (simp_all add: ex_opts_def)
  from invalid_workbook_crashes_init [OF this(1)] invalid_workbook_crashes_init [OF this(2)]
  show ?thesis by (simp add: ex_opts_def)
qed

lemma main_interrupted_cases:
  assumes "main env opts wb js l1 l2 (Some k) sh w = (Interrupted, w', Some d')"
  obtains w1 ps w2 d2 where "init_app wb js (opt_nosend opts) w = (Inr True, w1, ps)" "k < length sh"
    "run_rows env (run_cfg_of opts) [0..<k] w1 \<lparr>pool = ps, sheet = sh, saved = sh\<rparr> = (Inr RetNone, w2, d2)"
    "close_app w2 d2 = (w', d')"
proof -
  obtain q w1 ps where i: "init_app wb js (opt_nosend opts) w = (q, w1, ps)" using prod_cases3 by blast
  obtain r2 w2 d2 where rn: "run_rows env (run_cfg_of opts) (take k [0..<length sh]) w1
      \<lparr>pool = ps, sheet = sh, saved = sh\<rparr> = (r2, w2, d2)" using prod_cases3 by blast
  have "q = Inr True \<and> r2 = Inr RetNone \<and> k < length sh \<and> close_app w2 d2 = (w', d')"
    using assms i rn by (auto simp: main_def close_app_def split: if_splits sum.splits bool.splits prod.splits)
  moreover have "take k [0..<length sh] = [0..<k]" if "k < length sh" using that by (simp add: take_upt)
  ultimately show ?thesis using that i rn by auto
qed

text \<open>C14: When a keyboard interrupt reaches the row loop at row k, the program saves the workbook last, the saved copy holds every outcome decided before the interrupt (each data row before k is marked), and no row from k on has been changed: no outcome is invented for the row in flight.\<close>

theorem interrupt_saves_decided_rows:
  assumes "main env opts wb js l1 l2 (Some k) sh w = (Interrupted, w', Some d')"
  shows "saved d' = sheet d' \<and> length (sheet d') = length sh \<and> (\<forall>m. k \<le> m \<longrightarrow> sheet d' ! m = sh ! m)
    \<and> (\<forall>n < k. rowoffset (run_cfg_of opts) \<le> int n \<longrightarrow> row_done (run_cfg_of opts) (sheet d' ! n))
    \<and> last (log w') = SaveBook"
proof -
  obtain w1 ps w2 d2 where k: "k < length sh"
    and rn: "run_rows env (run_cfg_of opts) [0..<k] w1 \<lparr>pool = ps, sheet = sh, saved = sh\<rparr> = (Inr RetNone, w2, d2)"
    and c: "close_app w2 d2 = (w', d')"
    using main_interrupted_cases [OF assms] by metis
  have "set [0..<k] \<subseteq> {..<length (sheet \<lparr>pool = ps, sheet = sh, saved = sh\<rparr>)}" "distinct [0..<k]"
    using k by auto
  from run_rows_frame [OF rn this] c show ?thesis by (auto simp: close_app_def)
qed

theorem interrupt_saves_decided_rows_witness:
  "fst (main (env_const None) ex_opts None (JsonUsers [(0, cfg (adaptive_sender 60 0 3 3))]) None None (Some 2)
      ex_sheet (ex_world 0)) = Interrupted
   \<and> (let d' = the (snd (snd (main (env_const None) ex_opts None (JsonUsers [(0, cfg (adaptive_sender 60 0 3 3))])
      None None (Some 2) ex_sheet (ex_world 0))))
      in saved d' = sheet d' \<and> sheet d' ! 2 = ex_sheet ! 2 \<and> row_done (run_cfg_of ex_opts) (sheet d' ! 1))"
proof -
  let ?u = "main (env_const None) ex_opts None (JsonUsers [(0, cfg (adaptive_sender 60 0 3 3))]) None None (Some 2)
      ex_sheet (ex_world 0)"
  have u: "fst ?u = Interrupted" "snd (snd ?u) \<noteq> None"
    by (simp_all add: main_def test_spreadsheet_file_def init_app_def init_sender_def quota_defs dispatch_eval
        ex_opts_def run_cfg_of_def cli_staticsubject_def close_app_def)
  then obtain d' where d: "snd (snd ?u) = Some d'" by blast
  with u(1) have "?u = (Interrupted, fst (snd ?u), Some d')" by (metis prod.collapse)
  from interrupt_saves_decided_rows [OF this] d u(1) have "saved d' = sheet d'" "sheet d' ! 2 = ex_sheet ! 2"
    "row_done (run_cfg_of ex_opts) (sheet d' ! 1)" by (simp_all add: ex_opts_def run_cfg_of_def)
  with d u(1) show ?thesis by simp
qed

lemma init_sender_restart:
  assumes "clock w < timeframe_end c"
  shows "\<exists>s w'. init_sender i c True ns w = (Inr s, w') \<and> cfg s = c \<and> ident s = i \<and> quota_persist s
    \<and> clock w' = clock w
    \<and> next_send s = (if \<not> use_fixed_delay c \<and> remaining_requests c \<le> 0 then timeframe_end c else clock w)"
  using assms by (auto simp: init_sender_def quota_defs)

lemma init_pool_restart:
  "\<forall>(i, c) \<in> set cs. clock w < timeframe_end c \<Longrightarrow>
   \<exists>ps w'. init_pool ns cs w = (Inr ps, w') \<and> map cfg ps = map snd cs \<and> map ident ps = map fst cs
     \<and> (\<forall>s \<in> set ps. quota_persist s \<and> next_send s =
          (if \<not> use_fixed_delay (cfg s) \<and> remaining_requests (cfg s) \<le> 0 then timeframe_end (cfg s) else clock w))"
proof (induction cs arbitrary: w)
  case (Cons ic cs)
  obtain i c where ic: "ic = (i, c)" by (cases ic)
  with Cons.prems obtain s w1 where s: "init_sender i c True ns w = (Inr s, w1)" "cfg s = c" "ident s = i"
    "quota_persist s" "clock w1 = clock w"
    "next_send s = (if \<not> use_fixed_delay c \<and> remaining_requests c \<le> 0 then timeframe_end c else clock w)"
    using init_sender_restart [of w c i ns] by auto
  obtain ps w2 where "init_pool ns cs w1 = (Inr ps, w2)" "map cfg ps = map snd cs" "map ident ps = map fst cs"
    "\<forall>s \<in> set ps. quota_persist s \<and> next_send s =
       (if \<not> use_fixed_delay (cfg s) \<and> remaining_requests (cfg s) \<le> 0 then timeframe_end (cfg s) else clock w1)"
    using Cons.IH [of w1] Cons.prems s(5) by auto
  with s ic show ?case by auto
qed simp

text \<open>C10: Persisting the pool's configuration and building a new pool from it inside the current windows gives back every account's quota state (window, allowance, budget) in order, keeps the adaptive quota invariant, but not the pacing: an adaptive account with budget left may send at once after the restart.\<close>

theorem restart_roundtrip:
  assumes "\<forall>s \<in> set ps. clock w < timeframe_end (cfg s)" "length ids = length ps"
  shows "\<exists>ps' w'. init_pool ns (zip ids (persisted_config ps)) w = (Inr ps', w')
    \<and> persisted_config ps' = persisted_config ps \<and> map ident ps' = ids
    \<and> (pool_ok ps \<longrightarrow> pool_ok ps')
    \<and> (\<forall>s \<in> set ps'. \<not> use_fixed_delay (cfg s) \<and> 0 < remaining_requests (cfg s) \<longrightarrow> next_send s = clock w)"
proof -
  have "\<forall>(i, c) \<in> set (zip ids (persisted_config ps)). clock w < timeframe_end c"
    using assms(1) by (auto simp: persisted_config_def dest!: set_zip_rightD)
  then obtain ps' w' where r: "init_pool ns (zip ids (persisted_config ps)) w = (Inr ps', w')"
    "map cfg ps' = map snd (zip ids (persisted_config ps))" "map ident ps' = map fst (zip ids (persisted_config ps))"
    "\<forall>s \<in> set ps'. quota_persist s \<and> next_send s =
       (if \<not> use_fixed_delay (cfg s) \<and> remaining_requests (cfg s) \<le> 0 then timeframe_end (cfg s) else clock w)"
    using init_pool_restart by blast
  have c: "map cfg ps' = map cfg ps" "map ident ps' = ids"
    using r(2,3) assms(2) by (simp_all add: persisted_config_def)
  have "pool_ok ps'" if ok: "pool_ok ps"
  proof -
    have "adaptive_ok s'" if s': "s' \<in> set ps'" for s'
    proof -
      have "cfg s' \<in> set (map cfg ps)" using s' c(1) by (metis image_eqI list.set_map)
      then obtain s where "s \<in> set ps" "cfg s' = cfg s" by auto
      with ok have "adaptive_ok s" by (auto simp: pool_ok_def list_all_iff)
      with \<open>cfg s' = cfg s\<close> r(4) s' show ?thesis by (auto simp: adaptive_ok_def)
    qed
    with r(4) show ?thesis by (auto simp: pool_ok_def list_all_iff)
  qed
  with r(1,4) c show ?thesis by (auto simp: persisted_config_def)
qed

theorem restart_roundtrip_witness:
  "init_pool False (zip [5] (persisted_config [(adaptive_sender 60 60 3 2)\<lparr>next_send := 30\<rparr>])) (ex_world 10)
     = (Inr [(adaptive_sender 60 60 3 2)\<lparr>ident := 5, next_send := 10\<rparr>], ex_world 10)
   \<and> pool_ok [(adaptive_sender 60 60 3 2)\<lparr>ident := 5, next_send := 10\<rparr>]"
proof -
  let ?ps = "[(adaptive_sender 60 60 3 2)\<lparr>next_send := 30\<rparr>]"
  have h: "\<forall>s \<in> set ?ps. clock (ex_world 10) < timeframe_end (cfg s)" "length [5::nat] = length ?ps"
    by (simp_all add: example_defs)
  have ok: "pool_ok ?ps" by (simp add: pool_ok_def adaptive_ok_def example_defs)
  have e: "init_pool False (zip [5] (persisted_config ?ps)) (ex_world 10)
     = (Inr [(adaptive_sender 60 60 3 2)\<lparr>ident := 5, next_send := 10\<rparr>], ex_world 10)"
    by (simp add: persisted_config_def init_sender_def quota_defs example_defs)
  from restart_roundtrip [OF h, of False] ok e show ?thesis by auto
qed

end
