(* ===== verification/Args.thy ===== *)
theory Args
  imports Launcher
begin

text \<open>
  The start of \<open>__main__\<close> (\<open>src/sheetmail.py\<close>, lines 315-353): the option table
  given to \<open>argparse\<close> (lines 318-334) with the way \<open>parse_args\<close> of Python 2.7
  reads an argument list against it, the logging set-up (lines 341-353), and
  the whole program \<open>prog\<close> from the argument list to the end of \<open>main\<close>.
  Whether a file named on the command line can be opened is an oracle.
\<close>

section \<open>The option table\<close>

text \<open>The destinations of the options of lines 318-334, \<open>-h\<close>/\<open>--help\<close> (added by \<open>argparse\<close>) first.\<close>

datatype dest = DHelp | DConfig | DLoglvl | DLogfile | DRowoffset | DColmail | DColsubject | DColbody
  | DColsend | DStaticsubject | DSheetindex | DCleancomments | DTest | DNosend | DNotest

definition option_table :: "(string \<times> dest) list" where
  "option_table =
     [(''-h'', DHelp), (''--help'', DHelp), (''--config'', DConfig), (''-c'', DConfig),
      (''--loglvl'', DLoglvl), (''-l'', DLoglvl), (''--logfile'', DLogfile), (''-f'', DLogfile),
      (''--rowoffset'', DRowoffset), (''-r'', DRowoffset), (''--colmail'', DColmail), (''-m'', DColmail),
      (''--colsubject'', DColsubject), (''-s'', DColsubject), (''--colbody'', DColbody), (''-b'', DColbody),
      (''--colsend'', DColsend), (''-o'', DColsend), (''--staticsubject'', DStaticsubject),
      (''-x'', DStaticsubject), (''--sheetindex'', DSheetindex), (''-i'', DSheetindex),
      (''--cleancomments'', DCleancomments), (''--test'', DTest), (''--nosend'', DNosend),
      (''--notest'', DNotest)]"

text \<open>\<open>store_true\<close> options and help take no argument; every other option takes one.\<close>

fun takes_arg :: "dest \<Rightarrow> bool" where
  "takes_arg DHelp = False"
| "takes_arg DCleancomments = False"
| "takes_arg DTest = False"
| "takes_arg DNosend = False"
| "takes_arg DNotest = False"
| "takes_arg _ = True"

text \<open>
  The namespace \<open>vars(parse_args())\<close>, with the defaults of the table. The two
  files are kept by name (lines 337-339 replace the open \<open>excel_file\<close> by its name);
  \<open>None\<close> for them means not given yet.
\<close>

record params =
  p_config :: "string option"
  p_loglvl :: string
  p_logfile :: "string option"
  p_rowoffset :: int
  p_colmail :: int
  p_colsubject :: int
  p_colbody :: int
  p_colsend :: int
  p_staticsubject :: "string option"
  p_sheetindex :: int
  p_cleancomments :: bool
  p_excel_file :: "string option"
  p_test :: bool
  p_nosend :: bool
  p_notest :: bool

definition default_params :: params where
  "default_params = \<lparr>p_config = None, p_loglvl = ''INFO'', p_logfile = None, p_rowoffset = 1, p_colmail = 0,
     p_colsubject = 1, p_colbody = 2, p_colsend = 3, p_staticsubject = None, p_sheetindex = 0,
     p_cleancomments = False, p_excel_file = None, p_test = False, p_nosend = False, p_notest = False\<rparr>"

definition loglvl_choices :: "string list" where
  "loglvl_choices = [''DEBUG'', ''INFO'', ''WARN'', ''ERROR'']"

section \<open>Reading the argument strings\<close>

text \<open>\<open>str.startswith\<close>, and ASCII digits.\<close>

definition starts_with :: "string \<Rightarrow> string \<Rightarrow> bool" where
  "starts_with pre s \<longleftrightarrow> take (length pre) s = pre"

definition is_digit :: "char \<Rightarrow> bool" where
  "is_digit c \<longleftrightarrow> 48 \<le> (of_char c :: nat) \<and> (of_char c :: nat) \<le> 57"

definition digit_val :: "char \<Rightarrow> nat" where
  "digit_val c = of_char c - 48"

text \<open>The digits of a natural number, most significant first.\<close>

definition digits_nat :: "string \<Rightarrow> nat" where
  "digits_nat ds = foldl (\<lambda>n c. 10 * n + digit_val c) 0 ds"

text \<open>
  Python 2's \<open>int(s)\<close>, the \<open>type=int\<close> of the table (\<open>PyInt_FromString\<close> with
  \<open>PyOS_strtol\<close>): white space (\<open>isspace\<close> of C) is skipped, then an optional
  sign, white space again, at least one decimal digit and trailing white space;
  anything else is a \<open>ValueError\<close>, which \<open>argparse\<close> reports as a usage error.
\<close>

definition is_space :: "char \<Rightarrow> bool" where
  "is_space c \<longleftrightarrow> c \<in> set [CHR '' '', CHR 0x09, CHR 0x0A, CHR 0x0B, CHR 0x0C, CHR 0x0D]"

definition strip :: "string \<Rightarrow> string" where
  "strip s = rev (dropWhile is_space (rev (dropWhile is_space s)))"

definition unsigned_int :: "string \<Rightarrow> nat option" where
  "unsigned_int ds = (if ds \<noteq> [] \<and> list_all is_digit ds then Some (digits_nat ds) else None)"

definition py_int :: "string \<Rightarrow> int option" where
  "py_int s =
     (case strip s of
        c # ds \<Rightarrow>
          if c = CHR ''-'' then map_option (\<lambda>n. - int n) (unsigned_int (dropWhile is_space ds))
          else if c = CHR ''+'' then map_option int (unsigned_int (dropWhile is_space ds))
          else map_option int (unsigned_int (c # ds))
      | [] \<Rightarrow> None)"

text \<open>
  \<open>_negative_number_matcher\<close>: a minus sign followed by digits, or by digits, a
  point and at least one digit; the \<open>$\<close> of the pattern also matches before a
  final newline.
\<close>

definition neg_number :: "string \<Rightarrow> bool" where
  "neg_number s0 \<longleftrightarrow>
     (let s = (if s0 \<noteq> [] \<and> last s0 = CHR 0x0A then butlast s0 else s0) in
      case s of
        c # r \<Rightarrow> c = CHR ''-'' \<and>
          (r \<noteq> [] \<and> list_all is_digit r
           \<or> (case dropWhile is_digit r of d # e \<Rightarrow> d = CHR ''.'' \<and> e \<noteq> [] \<and> list_all is_digit e | [] \<Rightarrow> False))
      | [] \<Rightarrow> False)"

text \<open>
  \<open>_get_option_tuples\<close>: the options an unknown string starting with \<open>-\<close> may
  abbreviate. After \<open>--\<close>, every option string with the part before \<open>=\<close> as a
  prefix, with the part after it as explicit argument; after a single \<open>-\<close>, the
  short option of its first two characters with the rest as explicit argument,
  and every option string with the whole string as a prefix.
\<close>

definition split_eq :: "string \<Rightarrow> string \<times> string option" where
  "split_eq s = (if CHR ''='' \<in> set s
     then (takeWhile (\<lambda>c. c \<noteq> CHR ''='') s, Some (tl (dropWhile (\<lambda>c. c \<noteq> CHR ''='') s)))
     else (s, None))"

definition option_tuples :: "string \<Rightarrow> (string \<times> dest \<times> string option) list" where
  "option_tuples s =
     (if take 2 s = ''--'' then
        (case split_eq s of (pre, ex) \<Rightarrow> [(os, d, ex). (os, d) \<leftarrow> option_table, starts_with pre os])
      else
        concat (map (\<lambda>(os, d). if os = take 2 s then [(os, d, Some (drop 2 s))]
                              else if starts_with s os then [(os, d, None)] else []) option_table))"

text \<open>An argument string after classification: an option with the option string it
  matched and its explicit argument, an unknown option, a plain argument, \<open>--\<close>.\<close>

datatype tok = TOpt string dest "string option" | TUnknown | TArg string | TDashes

text \<open>
  \<open>_parse_optional\<close>: \<open>None\<close> is the usage error of an ambiguous abbreviation.
\<close>

definition classify :: "string \<Rightarrow> tok option" where
  "classify s =
     (if s = [] \<or> hd s \<noteq> CHR ''-'' then Some (TArg s)
      else case map_of option_table s of
        Some d \<Rightarrow> Some (TOpt s d None)
      | None \<Rightarrow>
          if length s = 1 then Some (TArg s)
          else
            (case split_eq s of (pre, ex) \<Rightarrow>
               case (if ex = None then None else map_of option_table pre) of
                 Some d \<Rightarrow> Some (TOpt pre d ex)
               | None \<Rightarrow>
                   (case option_tuples s of
                      [(os, d, e)] \<Rightarrow> Some (TOpt os d e)
                    | [] \<Rightarrow> if neg_number s \<or> CHR '' '' \<in> set s then Some (TArg s) else Some TUnknown
                    | _ \<Rightarrow> None)))"

text \<open>All strings are classified before any is consumed; after \<open>--\<close> all are arguments.\<close>

fun classify_all :: "string list \<Rightarrow> tok list option" where
  "classify_all [] = Some []"
| "classify_all (a # as) =
     (if a = ''--'' then Some (TDashes # map TArg as)
      else case classify a of
        None \<Rightarrow> None
      | Some t \<Rightarrow> map_option (Cons t) (classify_all as))"

section \<open>Consuming the arguments\<close>

text \<open>
  How \<open>parse_args\<close> stops early: a usage error (exit status 2), the help text
  (exit status 0), or an exception inside \<open>argparse\<close> itself.
\<close>

datatype pstop = PUsage | PHelp | PCrash exc

text \<open>
  \<open>consume_optional\<close> for an option with its explicit argument. An option that
  takes an argument uses the explicit one, or else waits for the next string. A
  short option without argument followed by more characters (only \<open>-h\<close> is one)
  reads them as further short options (\<open>chain\<close>), the first character first;
  an empty explicit argument there is an \<open>IndexError\<close> of \<open>explicit_arg[0]\<close>. A
  long option without argument given one is a usage error. The result is the
  actions to take, in order, and the option still waiting for its argument.
\<close>

fun chain :: "string \<Rightarrow> pstop + ((dest \<times> string option) list \<times> dest option)" where
  "chain [] = Inl (PCrash IndexError)"
| "chain (c # r) =
     (case map_of option_table [CHR ''-'', c] of
        None \<Rightarrow> Inl PUsage
      | Some d \<Rightarrow>
          if takes_arg d then (if r = [] then Inr ([], Some d) else Inr ([(d, Some r)], None))
          else if r = [] then Inr ([(d, None)], None)
          else (case chain r of Inl e \<Rightarrow> Inl e | Inr (acts, pend) \<Rightarrow> Inr ((d, None) # acts, pend)))"

definition opt_start :: "string \<Rightarrow> dest \<Rightarrow> string option \<Rightarrow> pstop + ((dest \<times> string option) list \<times> dest option)" where
  "opt_start os d ex =
     (if takes_arg d then (case ex of Some e \<Rightarrow> Inr ([(d, Some e)], None) | None \<Rightarrow> Inr ([], Some d))
      else
        (case ex of
           None \<Rightarrow> Inr ([(d, None)], None)
         | Some e \<Rightarrow>
             if os ! 1 = CHR ''-'' then Inl PUsage
             else (case chain e of Inl err \<Rightarrow> Inl err | Inr (acts, pend) \<Rightarrow> Inr ((d, None) # acts, pend))))"

text \<open>
  \<open>argparse.FileType\<close>: \<open>-\<close> is standard input (mode \<open>r+b\<close>) or output (mode \<open>w\<close>);
  any other name is opened, which the oracle \<open>fo\<close> decides. A file is kept by
  its \<open>name\<close>.
\<close>

datatype fmode = ReadWrite | WriteOnly

definition file_arg :: "(fmode \<Rightarrow> string \<Rightarrow> bool) \<Rightarrow> fmode \<Rightarrow> string \<Rightarrow> string option" where
  "file_arg fo m s =
     (if s = ''-'' then Some (if m = WriteOnly then ''<stdout>'' else ''<stdin>'')
      else if fo m s then Some s else None)"

text \<open>
  \<open>take_action\<close> with the conversions of lines 319-334: \<open>type\<close>, then \<open>choices\<close>;
  a failed conversion is a usage error. \<open>-h\<close> prints the help and exits.
\<close>

fun take_action :: "(fmode \<Rightarrow> string \<Rightarrow> bool) \<Rightarrow> params \<Rightarrow> dest \<times> string option \<Rightarrow> pstop + params" where
  "take_action fo p (DHelp, _) = Inl PHelp"
| "take_action fo p (DCleancomments, _) = Inr (p\<lparr>p_cleancomments := True\<rparr>)"
| "take_action fo p (DTest, _) = Inr (p\<lparr>p_test := True\<rparr>)"
| "take_action fo p (DNosend, _) = Inr (p\<lparr>p_nosend := True\<rparr>)"
| "take_action fo p (DNotest, _) = Inr (p\<lparr>p_notest := True\<rparr>)"
| "take_action fo p (_, None) = Inl PUsage"
| "take_action fo p (DConfig, Some v) =
     (case file_arg fo ReadWrite v of None \<Rightarrow> Inl PUsage | Some n \<Rightarrow> Inr (p\<lparr>p_config := Some n\<rparr>))"
| "take_action fo p (DLoglvl, Some v) = (if v \<in> set loglvl_choices then Inr (p\<lparr>p_loglvl := v\<rparr>) else Inl PUsage)"
| "take_action fo p (DLogfile, Some v) =
     (case file_arg fo WriteOnly v of None \<Rightarrow> Inl PUsage | Some n \<Rightarrow> Inr (p\<lparr>p_logfile := Some n\<rparr>))"
| "take_action fo p (DRowoffset, Some v) = (case py_int v of None \<Rightarrow> Inl PUsage | Some i \<Rightarrow> Inr (p\<lparr>p_rowoffset := i\<rparr>))"
| "take_action fo p (DColmail, Some v) = (case py_int v of None \<Rightarrow> Inl PUsage | Some i \<Rightarrow> Inr (p\<lparr>p_colmail := i\<rparr>))"
| "take_action fo p (DColsubject, Some v) = (case py_int v of None \<Rightarrow> Inl PUsage | Some i \<Rightarrow> Inr (p\<lparr>p_colsubject := i\<rparr>))"
| "take_action fo p (DColbody, Some v) = (case py_int v of None \<Rightarrow> Inl PUsage | Some i \<Rightarrow> Inr (p\<lparr>p_colbody := i\<rparr>))"
| "take_action fo p (DColsend, Some v) = (case py_int v of None \<Rightarrow> Inl PUsage | Some i \<Rightarrow> Inr (p\<lparr>p_colsend := i\<rparr>))"
| "take_action fo p (DSheetindex, Some v) = (case py_int v of None \<Rightarrow> Inl PUsage | Some i \<Rightarrow> Inr (p\<lparr>p_sheetindex := i\<rparr>))"
| "take_action fo p (DStaticsubject, Some v) = Inr (p\<lparr>p_staticsubject := Some v\<rparr>)"

fun run_actions :: "(fmode \<Rightarrow> string \<Rightarrow> bool) \<Rightarrow> (dest \<times> string option) list \<Rightarrow> params \<Rightarrow> pstop + params" where
  "run_actions fo [] p = Inr p"
| "run_actions fo (a # as) p = (case take_action fo p a of Inl e \<Rightarrow> Inl e | Inr p' \<Rightarrow> run_actions fo as p')"

text \<open>
  The loop of \<open>_parse_known_args\<close>, left to right. An option waiting for its
  argument needs a plain argument next (\<open>--\<close> is not allowed there); the first
  other plain argument is \<open>excel_file\<close>, together with a \<open>--\<close> right before or
  after it; every further plain argument, unknown option or stray \<open>--\<close> is an
  unrecognized argument (\<open>x\<close>), reported once the loop has ended.
\<close>

fun consume ::
  "(fmode \<Rightarrow> string \<Rightarrow> bool) \<Rightarrow> tok list \<Rightarrow> ((dest \<times> string option) list \<times> dest) option \<Rightarrow> params \<Rightarrow> bool
   \<Rightarrow> pstop + (params \<times> bool)" where
  "consume fo [] None p x = Inr (p, x)"
| "consume fo [] (Some _) p x = Inl PUsage"
| "consume fo (TArg v # ts) (Some (acts, d)) p x =
     (case run_actions fo (acts @ [(d, Some v)]) p of Inl e \<Rightarrow> Inl e | Inr p' \<Rightarrow> consume fo ts None p' x)"
| "consume fo (_ # ts) (Some _) p x = Inl PUsage"
| "consume fo (TArg a # TDashes # ts) None p x =
     (if p_excel_file p = None then
        (case file_arg fo ReadWrite a of
           None \<Rightarrow> Inl PUsage
         | Some n \<Rightarrow> consume fo ts None (p\<lparr>p_excel_file := Some n\<rparr>) x)
      else consume fo (TDashes # ts) None p True)"
| "consume fo (TArg a # ts) None p x =
     (if p_excel_file p = None then
        (case file_arg fo ReadWrite a of
           None \<Rightarrow> Inl PUsage
         | Some n \<Rightarrow> consume fo ts None (p\<lparr>p_excel_file := Some n\<rparr>) x)
      else consume fo ts None p True)"
| "consume fo (TDashes # ts) None p x = consume fo ts None p (x \<or> p_excel_file p \<noteq> None)"
| "consume fo (TUnknown # ts) None p x = consume fo ts None p True"
| "consume fo (TOpt os d ex # ts) None p x =
     (case opt_start os d ex of
        Inl e \<Rightarrow> Inl e
      | Inr (acts, None) \<Rightarrow> (case run_actions fo acts p of Inl e \<Rightarrow> Inl e | Inr p' \<Rightarrow> consume fo ts None p' x)
      | Inr (acts, Some d') \<Rightarrow> consume fo ts (Some (acts, d')) p x)"

text \<open>
  \<open>parse_args\<close>: classify, consume, then the checks of the end of the loop: the
  positional \<open>excel_file\<close> and the required \<open>--config\<close> must be present, and no
  argument may be left unrecognized.
\<close>

definition parse_args :: "(fmode \<Rightarrow> string \<Rightarrow> bool) \<Rightarrow> string list \<Rightarrow> pstop + params" where
  "parse_args fo args =
     (case classify_all args of
        None \<Rightarrow> Inl PUsage
      | Some ts \<Rightarrow>
          (case consume fo ts None default_params False of
             Inl e \<Rightarrow> Inl e
           | Inr (p, x) \<Rightarrow> if p_excel_file p = None \<or> p_config p = None \<or> x then Inl PUsage else Inr p))"

section \<open>Logging set-up and the program\<close>

text \<open>Lines 342-349: the \<open>if\<close>/\<open>elif\<close> chain on \<open>loglvl\<close>, which has no \<open>else\<close>.\<close>

datatype log_level = DEBUG | INFO | WARN | ERROR

definition log_level_of :: "string \<Rightarrow> log_level option" where
  "log_level_of s =
     (if s = ''DEBUG'' then Some DEBUG else if s = ''INFO'' then Some INFO
      else if s = ''WARN'' then Some WARN else if s = ''ERROR'' then Some ERROR else None)"

text \<open>
  Lines 350-353. Without a level the name \<open>log_lvl\<close> is unbound (\<open>NameError\<close>).
  \<open>'logfile' in params\<close> always holds, so \<open>logging.basicConfig\<close> always gets
  \<open>filename=params['logfile']\<close>: \<open>None\<close> logs to the standard error stream; the
  open file that \<open>--logfile\<close> leaves there is not a path, and the \<open>FileHandler\<close>
  built from it fails in \<open>os.path.abspath\<close> (\<open>AttributeError\<close>). Both exceptions are
  \<open>OtherError\<close> here.
\<close>

definition log_setup :: "params \<Rightarrow> log_level result" where
  "log_setup p =
     (case log_level_of (p_loglvl p) of
        None \<Rightarrow> Inl OtherError
      | Some l \<Rightarrow> (case p_logfile p of None \<Rightarrow> Inr l | Some _ \<Rightarrow> Inl OtherError))"

text \<open>
  The options that reach \<open>Excel_Mail_Sender\<close>. A negative column number would
  index a row from its end, which the dispatcher model does not cover.
\<close>

definition cli_of :: "params \<Rightarrow> cli_opts option" where
  "cli_of p =
     (if 0 \<le> p_colmail p \<and> 0 \<le> p_colsubject p \<and> 0 \<le> p_colbody p \<and> 0 \<le> p_colsend p then
        Some \<lparr>opt_test = p_test p, opt_notest = p_notest p, opt_nosend = p_nosend p,
          opt_staticsubject = p_staticsubject p, opt_rowoffset = p_rowoffset p,
          opt_colmail = nat (p_colmail p), opt_colsubject = nat (p_colsubject p),
          opt_colbody = nat (p_colbody p), opt_colsend = nat (p_colsend p)\<rparr>
      else None)"

text \<open>How the program ends, from its argument list.\<close>

datatype prog_ret = UsageExit | HelpExit | NegativeColumn | Main main_ret

text \<open>
  Lines 315-370: \<open>parse_args\<close>, the logging set-up, then \<open>main\<close> (see \<open>Launcher\<close>)
  on the options read. The remaining inputs are those of \<open>main\<close>.
\<close>

definition prog ::
  "transport \<Rightarrow> (fmode \<Rightarrow> string \<Rightarrow> bool) \<Rightarrow> string list \<Rightarrow> exc option \<Rightarrow> json_doc \<Rightarrow> exc option \<Rightarrow> exc option
   \<Rightarrow> nat option \<Rightarrow> cell list list \<Rightarrow> world \<Rightarrow> prog_ret \<times> world \<times> dstate option" where
  "prog env fo args wb js l1 l2 intr sh w =
     (case parse_args fo args of
        Inl PUsage \<Rightarrow> (UsageExit, w, None)
      | Inl PHelp \<Rightarrow> (HelpExit, w, None)
      | Inl (PCrash e) \<Rightarrow> (Main (Crashed e), w, None)
      | Inr p \<Rightarrow>
          (case log_setup p of
             Inl e \<Rightarrow> (Main (Crashed e), w, None)
           | Inr _ \<Rightarrow>
               (case cli_of p of
                  None \<Rightarrow> (NegativeColumn, w, None)
                | Some opts \<Rightarrow> (case main env opts wb js l1 l2 intr sh w of (r, w', d) \<Rightarrow> (Main r, w', d)))))"

section \<open>Writing an argument list\<close>

text \<open>Decimal notation, as \<open>str()\<close> writes an integer.\<close>

fun nat_str :: "nat \<Rightarrow> string" where
  "nat_str n = (if n < 10 then [char_of (48 + n)] else nat_str (n div 10) @ [char_of (48 + n mod 10)])"

definition int_str :: "int \<Rightarrow> string" where
  "int_str i = (if i < 0 then CHR ''-'' # nat_str (nat (- i)) else nat_str (nat i))"

text \<open>The argument list that asks for the namespace \<open>p\<close>, with long option names.\<close>

definition render_args :: "params \<Rightarrow> string list" where
  "render_args p =
     (case p_config p of None \<Rightarrow> [] | Some c \<Rightarrow> [''--config'', c])
     @ [''--loglvl'', p_loglvl p]
     @ (case p_logfile p of None \<Rightarrow> [] | Some f \<Rightarrow> [''--logfile'', f])
     @ [''--rowoffset'', int_str (p_rowoffset p), ''--colmail'', int_str (p_colmail p),
        ''--colsubject'', int_str (p_colsubject p), ''--colbody'', int_str (p_colbody p),
        ''--colsend'', int_str (p_colsend p), ''--sheetindex'', int_str (p_sheetindex p)]
     @ (case p_staticsubject p of None \<Rightarrow> [] | Some t \<Rightarrow> [''--staticsubject'', t])
     @ (if p_cleancomments p then [''--cleancomments''] else [])
     @ (if p_test p then [''--test''] else [])
     @ (if p_nosend p then [''--nosend''] else [])
     @ (if p_notest p then [''--notest''] else [])
     @ (case p_excel_file p of None \<Rightarrow> [] | Some e \<Rightarrow> [e])"

text \<open>
  A string that \<open>argparse\<close> reads as a plain argument: empty or not starting with
  \<open>-\<close>; a file name that is not \<open>-\<close> and can be opened.
\<close>

definition plain :: "string \<Rightarrow> bool" where
  "plain s \<longleftrightarrow> s = [] \<or> hd s \<noteq> CHR ''-''"

definition file_ok :: "(fmode \<Rightarrow> string \<Rightarrow> bool) \<Rightarrow> fmode \<Rightarrow> string \<Rightarrow> bool" where
  "file_ok fo m s \<longleftrightarrow> plain s \<and> fo m s"

definition render_ok :: "(fmode \<Rightarrow> string \<Rightarrow> bool) \<Rightarrow> params \<Rightarrow> bool" where
  "render_ok fo p \<longleftrightarrow>
     (case p_config p of None \<Rightarrow> False | Some c \<Rightarrow> file_ok fo ReadWrite c)
     \<and> (case p_excel_file p of None \<Rightarrow> False | Some e \<Rightarrow> file_ok fo ReadWrite e)
     \<and> (case p_logfile p of None \<Rightarrow> True | Some f \<Rightarrow> file_ok fo WriteOnly f)
     \<and> (case p_staticsubject p of None \<Rightarrow> True | Some t \<Rightarrow> plain t)
     \<and> p_loglvl p \<in> set loglvl_choices"

section \<open>Lemmas\<close>

declare nat_str.simps [simp del]

lemma digit_char [simp]:
  assumes "k < 10" shows "is_digit (char_of (48 + k))" "digit_val (char_of (48 + k)) = k"
  using assms by (simp_all add: is_digit_def digit_val_def of_char_of)

lemma nat_str_digits: "nat_str n \<noteq> [] \<and> list_all is_digit (nat_str n) \<and> digits_nat (nat_str n) = n"
proof (induction n rule: nat_str.induct)
  case (1 n)
  show ?case
  proof (cases "n < 10")
    case True
    then show ?thesis by (simp add: nat_str.simps [of n] digits_nat_def)
  next
    case False
    with "1.IH" show ?thesis by (simp add: nat_str.simps [of n] digits_nat_def)
  qed
qed

lemma digit_not_space: "is_digit c \<Longrightarrow> \<not> is_space c"
  by (auto simp: is_digit_def is_space_def)

lemma strip_id: "\<forall>c \<in> set s. \<not> is_space c \<Longrightarrow> strip s = s"
proof -
  have dw: "\<forall>c \<in> set xs. \<not> is_space c \<Longrightarrow> dropWhile is_space xs = xs" for xs
    by (induction xs) auto
  assume "\<forall>c \<in> set s. \<not> is_space c"
  then show ?thesis by (simp add: strip_def dw)
qed

lemma digit_not_sign: "is_digit c \<Longrightarrow> c \<noteq> CHR ''-'' \<and> c \<noteq> CHR ''+''"
  by (auto simp: is_digit_def)

lemma py_int_int_str: "py_int (int_str i) = Some i"
proof -
  obtain ds where ds: "nat_str (nat \<bar>i\<bar>) = ds" "ds \<noteq> []" "list_all is_digit ds" "digits_nat ds = nat \<bar>i\<bar>"
    using nat_str_digits by blast
  then have sp: "\<forall>c \<in> set ds. \<not> is_space c" by (auto simp: list_all_iff digit_not_space)
  obtain c r where cr: "ds = c # r" using ds(2) by (cases ds) auto
  have c: "c \<noteq> CHR ''-'' \<and> c \<noteq> CHR ''+''" using ds(3) cr by (simp add: digit_not_sign)
  show ?thesis
  proof (cases "i < 0")
    case True
    then have "int_str i = CHR ''-'' # ds" using ds(1) by (simp add: int_str_def)
    moreover have "strip (CHR ''-'' # ds) = CHR ''-'' # ds" using sp by (intro strip_id) (auto simp: is_space_def)
    moreover have "\<not> is_space c" using cr sp by simp
    ultimately show ?thesis using ds True cr by (simp add: py_int_def unsigned_int_def)
  next
    case False
    then have "int_str i = ds" using ds(1) by (simp add: int_str_def)
    with sp ds cr c False show ?thesis by (simp add: py_int_def unsigned_int_def strip_id)
  qed
qed


lemma classify_plain: "plain s \<Longrightarrow> classify s = Some (TArg s)"
  by (simp add: classify_def plain_def)

lemma table_shape: "(os, d) \<in> set option_table \<Longrightarrow> 2 \<le> length os \<and> \<not> is_digit (os ! 1)"
  by (auto simp: option_table_def is_digit_def)

lemma starts_with_nth: "starts_with s os \<Longrightarrow> i < length s \<Longrightarrow> os ! i = s ! i"
  by (metis nth_take starts_with_def)

lemma classify_int_str: "classify (int_str i) = Some (TArg (int_str i))"
proof (cases "i < 0")
  case False
  obtain c r where "nat_str (nat i) = c # r" "is_digit c" using nat_str_digits [of "nat i"]
    by (cases "nat_str (nat i)") auto
  with False show ?thesis by (intro classify_plain) (auto simp: int_str_def plain_def digit_not_sign)
next
  case True
  obtain c r where cr: "nat_str (nat (- i)) = c # r" "list_all is_digit (c # r)"
    using nat_str_digits [of "nat (- i)"] by (cases "nat_str (nat (- i))") auto
  let ?s = "CHR ''-'' # c # r"
  have s: "int_str i = ?s" using True cr by (simp add: int_str_def)
  have nt: "(os, d) \<in> set option_table \<Longrightarrow> os \<noteq> take 2 ?s \<and> \<not> starts_with ?s os" for os d
    using table_shape [of os d] starts_with_nth [of ?s os 1] cr(2)
    by (cases os rule: list.exhaust[case_product list.exhaust]) auto
  have "map_of option_table ?s = None"
  proof (cases "map_of option_table ?s")
    case (Some d)
    then have "(?s, d) \<in> set option_table" by (rule map_of_SomeD)
    from nt [OF this] show ?thesis by (simp add: starts_with_def)
  qed simp
  moreover have "option_tuples ?s = []"
  proof -
    have "c \<noteq> CHR ''-''" using cr(2) digit_not_sign by auto
    then show ?thesis using nt by (auto simp: option_tuples_def)
  qed
  moreover have "\<not> (CHR ''='' \<in> set ?s)" using cr(2) by (auto simp: list_all_iff is_digit_def)
  moreover have "neg_number ?s"
  proof -
    have "last (c # r) \<in> set (c # r)" by (rule last_in_set) simp
    then have "is_digit (last ?s)" using cr(2) by (simp add: list_all_iff)
    then have "last ?s \<noteq> CHR 0x0A" by (auto simp: is_digit_def)
    then show ?thesis using cr(2) by (simp add: neg_number_def)
  qed
  ultimately show ?thesis using s by (simp add: classify_def split_eq_def)
qed


lemma classify_all_Cons: "a \<noteq> ''--'' \<Longrightarrow> classify a = Some t \<Longrightarrow> classify_all (a # as) = map_option (Cons t) (classify_all as)"
  by simp

lemma plain_not_dash: "plain s \<Longrightarrow> s \<noteq> ''--'' \<and> s \<noteq> ''-''"
  by (auto simp: plain_def)

lemma int_str_not_dashes: "int_str i \<noteq> ''--''"
proof
  assume "int_str i = ''--''"
  with py_int_int_str [of i] have "py_int ''--'' = Some i" by simp
  moreover have "py_int ''--'' = None"
    by (simp add: py_int_def strip_def is_space_def unsigned_int_def is_digit_def)
  ultimately show False by simp
qed

lemma classify_long:
  "classify ''--config'' = Some (TOpt ''--config'' DConfig None)"
  "classify ''--loglvl'' = Some (TOpt ''--loglvl'' DLoglvl None)"
  "classify ''--logfile'' = Some (TOpt ''--logfile'' DLogfile None)"
  "classify ''--rowoffset'' = Some (TOpt ''--rowoffset'' DRowoffset None)"
  "classify ''--colmail'' = Some (TOpt ''--colmail'' DColmail None)"
  "classify ''--colsubject'' = Some (TOpt ''--colsubject'' DColsubject None)"
  "classify ''--colbody'' = Some (TOpt ''--colbody'' DColbody None)"
  "classify ''--colsend'' = Some (TOpt ''--colsend'' DColsend None)"
  "classify ''--sheetindex'' = Some (TOpt ''--sheetindex'' DSheetindex None)"
  "classify ''--staticsubject'' = Some (TOpt ''--staticsubject'' DStaticsubject None)"
  "classify ''--cleancomments'' = Some (TOpt ''--cleancomments'' DCleancomments None)"
  "classify ''--test'' = Some (TOpt ''--test'' DTest None)"
  "classify ''--nosend'' = Some (TOpt ''--nosend'' DNosend None)"
  "classify ''--notest'' = Some (TOpt ''--notest'' DNotest None)"
  by (simp_all add: classify_def option_table_def)

lemma loglvl_plain: "v \<in> set loglvl_choices \<Longrightarrow> plain v"
  by (auto simp: loglvl_choices_def plain_def)

lemma classify_all_if:
  "s \<noteq> ''--'' \<Longrightarrow> classify s = Some t \<Longrightarrow>
   classify_all ((if b then [s] else []) @ as) = map_option ((@) (if b then [t] else [])) (classify_all as)"
  by (cases "classify_all as") auto

lemma consume_flags:
  "consume fo ((if b then [TOpt os DCleancomments None] else []) @ ts) None p x
     = consume fo ts None (p\<lparr>p_cleancomments := p_cleancomments p \<or> b\<rparr>) x"
  "consume fo ((if b then [TOpt os DTest None] else []) @ ts) None p x = consume fo ts None (p\<lparr>p_test := p_test p \<or> b\<rparr>) x"
  "consume fo ((if b then [TOpt os DNosend None] else []) @ ts) None p x = consume fo ts None (p\<lparr>p_nosend := p_nosend p \<or> b\<rparr>) x"
  "consume fo ((if b then [TOpt os DNotest None] else []) @ ts) None p x = consume fo ts None (p\<lparr>p_notest := p_notest p \<or> b\<rparr>) x"
  by (cases b; simp add: opt_start_def)+

lemmas render_simps = classify_all_Cons classify_long classify_plain classify_int_str plain_not_dash
  int_str_not_dashes py_int_int_str opt_start_def file_arg_def classify_all_if consume_flags

lemma run_actions_inv:
  assumes "\<And>p a p'. take_action fo p a = Inr p' \<Longrightarrow> P p \<Longrightarrow> Q a \<Longrightarrow> P p'"
  shows "run_actions fo acts p = Inr p' \<Longrightarrow> P p \<Longrightarrow> list_all Q acts \<Longrightarrow> P p'"
  by (induction acts arbitrary: p) (auto split: sum.splits dest: assms)

lemma take_action_loglvl: "take_action fo p a = Inr p' \<Longrightarrow> p_loglvl p \<in> set loglvl_choices \<Longrightarrow> p_loglvl p' \<in> set loglvl_choices"
  by (cases "(fo, p, a)" rule: take_action.cases) (auto split: option.splits if_splits)

lemma run_actions_loglvl:
  "run_actions fo acts p = Inr p' \<Longrightarrow> p_loglvl p \<in> set loglvl_choices \<Longrightarrow> p_loglvl p' \<in> set loglvl_choices"
  using run_actions_inv [where P = "\<lambda>p. p_loglvl p \<in> set loglvl_choices" and Q = "\<lambda>_. True", OF take_action_loglvl]
  by (simp add: list_all_iff)

lemma consume_loglvl:
  "consume fo ts pend p x = Inr (p', x') \<Longrightarrow> p_loglvl p \<in> set loglvl_choices \<Longrightarrow> p_loglvl p' \<in> set loglvl_choices"
  by (induction fo ts pend p x rule: consume.induct)
    (auto split: sum.splits option.splits prod.splits if_splits dest: run_actions_loglvl,
      blast dest: run_actions_loglvl)

lemma parse_args_loglvl: "parse_args fo args = Inr p \<Longrightarrow> p_loglvl p \<in> set loglvl_choices"
  by (auto simp: parse_args_def default_params_def loglvl_choices_def dest: consume_loglvl
      split: option.splits sum.splits prod.splits if_splits)

lemma static_entries: "(os, DStaticsubject) \<in> set option_table \<longleftrightarrow> os = ''--staticsubject'' \<or> os = ''-x''"
  by (auto simp: option_table_def)

lemma starts_with_trans: "starts_with a b \<Longrightarrow> starts_with b c \<Longrightarrow> starts_with a c"
  unfolding starts_with_def by (metis length_take min.absorb_iff1 min.commute take_take)

lemma starts_with_takeWhile: "starts_with (takeWhile P a) a"
  by (metis starts_with_def takeWhile_eq_take)

lemma split_eq_pre: "split_eq a = (pre, ex) \<Longrightarrow> starts_with pre a"
  using starts_with_takeWhile [of "\<lambda>c. c \<noteq> CHR ''=''" a]
  by (auto simp: split_eq_def starts_with_def split: if_splits)

lemma split_eq_dashes: "split_eq (CHR ''-'' # CHR ''-'' # r) = (pre, ex) \<Longrightarrow> \<exists>q. pre = CHR ''-'' # CHR ''-'' # q"
  by (auto simp: split_eq_def split: if_splits)

lemma tuples_long_static:
  assumes "[(os, d, ex). (os, d) \<leftarrow> option_table, starts_with (CHR ''-'' # CHR ''-'' # q) os] = [(os', DStaticsubject, e)]"
  shows "take 2 q = ''st''"
proof -
  have "(os', DStaticsubject, e) \<in> set [(os, d, ex). (os, d) \<leftarrow> option_table, starts_with (CHR ''-'' # CHR ''-'' # q) os]"
    unfolding assms by simp
  then have "(os', DStaticsubject) \<in> set option_table" "starts_with (CHR ''-'' # CHR ''-'' # q) os'"
    by auto
  then have os: "starts_with (CHR ''-'' # CHR ''-'' # q) ''--staticsubject''"
    by (auto simp: static_entries starts_with_def)
  show ?thesis
  proof (cases q)
    case Nil
    with assms show ?thesis by (simp add: option_table_def starts_with_def)
  next
    case (Cons c r)
    show ?thesis
    proof (cases r)
      case Nil
      with Cons os assms show ?thesis by (simp add: option_table_def starts_with_def)
    next
      case (Cons c' r')
      with \<open>q = c # r\<close> os show ?thesis by (simp add: starts_with_def)
    qed
  qed
qed

lemma classify_static:
  assumes "classify a = Some (TOpt os DStaticsubject ex)"
  shows "starts_with ''-x'' a \<or> starts_with ''--st'' a"
proof -
  have a: "a \<noteq> []" "hd a = CHR ''-''" using assms by (auto simp: classify_def split: if_splits)
  show ?thesis
  proof (cases "map_of option_table a")
    case (Some d)
    with assms a have "d = DStaticsubject" by (simp add: classify_def)
    with Some have "(a, DStaticsubject) \<in> set option_table" by (auto dest: map_of_SomeD)
    then show ?thesis by (auto simp: static_entries starts_with_def)
  next
    case None
    obtain pre ex' where sp: "split_eq a = (pre, ex')" by fastforce
    have l: "length a \<noteq> 1" using assms a None by (auto simp: classify_def)
    show ?thesis
    proof (cases "ex' \<noteq> None \<and> map_of option_table pre \<noteq> None")
      case True
      with assms a None l sp have "pre = os" "(pre, DStaticsubject) \<in> set option_table"
        by (auto simp: classify_def dest: map_of_SomeD)
      then have "pre = ''--staticsubject'' \<or> pre = ''-x''" by (simp add: static_entries)
      moreover have "starts_with ''--st'' ''--staticsubject''" by (simp add: starts_with_def)
      ultimately show ?thesis using split_eq_pre [OF sp] by (auto intro: starts_with_trans)
    next
      case False
      with assms a None l sp have tu: "option_tuples a = [(os, DStaticsubject, ex)]"
        by (auto simp: classify_def split: list.splits if_splits)
      show ?thesis
      proof (cases "take 2 a = ''--''")
        case True
        have "a = take 2 a @ drop 2 a" by simp
        with True have r: "a = CHR ''-'' # CHR ''-'' # drop 2 a" by simp
        then obtain q where q: "pre = CHR ''-'' # CHR ''-'' # q" using split_eq_dashes sp r by metis
        from tu True sp q have "take 2 q = ''st''" by (auto simp: option_tuples_def intro: tuples_long_static)
        then have "starts_with ''--st'' pre" using q
          by (cases q rule: list.exhaust[case_product list.exhaust]) (auto simp: starts_with_def)
        with split_eq_pre [OF sp] show ?thesis by (blast intro: starts_with_trans)
      next
        case False
        have "(os, DStaticsubject, ex) \<in> set (option_tuples a)" using tu by simp
        with False have "(os, DStaticsubject) \<in> set option_table \<and> (os = take 2 a \<or> starts_with a os)"
          by (auto simp: option_tuples_def split: if_splits)
        moreover obtain t where t: "a = CHR ''-'' # t" using a by (cases a) auto
        moreover obtain c r where "t = c # r" using l t by (cases t) auto
        ultimately show ?thesis using False by (auto simp: static_entries starts_with_def)
      qed
    qed
  qed
qed


lemma option_tuples_table: "(os, d, e) \<in> set (option_tuples s) \<Longrightarrow> (os, d) \<in> set option_table"
  by (auto simp: option_tuples_def split: if_splits prod.splits)

lemma classify_table: "classify a = Some (TOpt os d ex) \<Longrightarrow> (os, d) \<in> set option_table"
  using option_tuples_table [of os d ex a]
  by (auto simp: classify_def dest: map_of_SomeD split: if_splits option.splits prod.splits list.splits)

lemma classify_all_opt:
  "classify_all args = Some ts \<Longrightarrow> TOpt os d ex \<in> set ts \<Longrightarrow> \<exists>a \<in> set args. classify a = Some (TOpt os d ex)"
  by (induction args arbitrary: ts) (auto split: if_splits option.splits)

lemma short_flag_help: "(os, d) \<in> set option_table \<Longrightarrow> \<not> takes_arg d \<Longrightarrow> os ! 1 \<noteq> CHR ''-'' \<Longrightarrow> d = DHelp"
  by (auto simp: option_table_def)

lemma opt_start_shape:
  assumes "(os, d) \<in> set option_table" "opt_start os d ex = Inr (acts, pend)"
  shows "(acts = [] \<and> pend = Some d) \<or> (\<exists>v. acts = [(d, v)] \<and> pend = None) \<or> (\<exists>r. acts = (DHelp, None) # r)"
  using assms short_flag_help [OF assms(1)]
  by (auto simp: opt_start_def split: if_splits option.splits sum.splits prod.splits)

lemma take_action_static:
  "take_action fo p (d, v) = Inr p' \<Longrightarrow> d \<noteq> DStaticsubject \<Longrightarrow> p_staticsubject p' = p_staticsubject p"
  by (cases "(fo, p, (d, v))" rule: take_action.cases) (auto split: option.splits if_splits)

lemma run_actions_static:
  "run_actions fo acts p = Inr p' \<Longrightarrow> \<forall>(d, v) \<in> set acts. d \<noteq> DStaticsubject \<Longrightarrow> p_staticsubject p' = p_staticsubject p"
  by (induction acts arbitrary: p) (auto split: sum.splits dest: take_action_static)

lemma consume_static:
  "consume fo ts pend p x = Inr (p', x') \<Longrightarrow>
   \<forall>t \<in> set ts. \<forall>os d ex. t = TOpt os d ex \<longrightarrow> (os, d) \<in> set option_table \<and> d \<noteq> DStaticsubject \<Longrightarrow>
   (\<forall>acts d. pend = Some (acts, d) \<longrightarrow> (acts = [] \<and> d \<noteq> DStaticsubject) \<or> (\<exists>r. acts = (DHelp, None) # r)) \<Longrightarrow>
   p_staticsubject p' = p_staticsubject p"
proof (induction fo ts pend p x rule: consume.induct)
  case (9 fo os d ex ts p x)
  then have od: "(os, d) \<in> set option_table" "d \<noteq> DStaticsubject" by auto
  obtain acts pend where st: "opt_start os d ex = Inr (acts, pend)"
    using "9.prems"(1) by (auto split: sum.splits)
  from opt_start_shape [OF od(1) st] show ?case
  proof (elim disjE exE conjE)
    assume "acts = []" "pend = Some d"
    with 9 st od show ?thesis by auto
  next
    fix v assume "acts = [(d, v)]" "pend = None"
    with 9 st od show ?thesis by (auto split: sum.splits dest: take_action_static)
  next
    fix r assume "acts = (DHelp, None) # r"
    with 9 st show ?thesis by (auto split: option.splits)
  qed
qed (auto split: if_splits option.splits sum.splits dest: run_actions_static)


lemma parse_args_static:
  assumes "parse_args fo args = Inr p" "\<forall>a \<in> set args. \<not> starts_with ''-x'' a \<and> \<not> starts_with ''--st'' a"
  shows "p_staticsubject p = None"
proof -
  obtain ts x where ts: "classify_all args = Some ts" "consume fo ts None default_params False = Inr (p, x)"
    using assms(1) by (auto simp: parse_args_def split: option.splits sum.splits prod.splits if_splits)
  have "\<forall>t \<in> set ts. \<forall>os d ex. t = TOpt os d ex \<longrightarrow> (os, d) \<in> set option_table \<and> d \<noteq> DStaticsubject"
    using assms(2) by (blast dest: classify_all_opt [OF ts(1)] classify_table classify_static)
  from consume_static [OF ts(2) this] show ?thesis by (simp add: default_params_def)
qed

lemma classify_TArg: "classify v = Some (TArg u) \<Longrightarrow> u = v"
  by (auto simp: classify_def split: if_splits option.splits prod.splits list.splits)

lemma int_options:
  assumes "os \<in> set [''--rowoffset'', ''-r'', ''--colmail'', ''-m'', ''--colsubject'', ''-s'', ''--colbody'', ''-b'',
    ''--colsend'', ''-o'', ''--sheetindex'', ''-i'']"
  shows "\<exists>d. classify os = Some (TOpt os d None) \<and> takes_arg d
    \<and> (\<forall>p. take_action fo p (d, Some v) = (case py_int v of None \<Rightarrow> Inl PUsage | Some i \<Rightarrow> take_action fo p (d, Some v)))"
  using assms by (auto simp: classify_def option_table_def split: option.splits)

lemmas parse_eval = parse_args_def classify_def option_table_def opt_start_def file_arg_def default_params_def
  split_eq_def option_tuples_def starts_with_def

section \<open>Properties\<close>

text \<open>C15: Writing any namespace of options as an argument list with long option names and reading it back with the program's argument parser gives the same namespace, provided the two files can be opened, their names and the static subject do not start with a dash, and the log level is one of the four choices: every option of the table is read with its type, negative integers included.\<close>

theorem parse_render_roundtrip:
  assumes "render_ok fo p"
  shows "parse_args fo (render_args p) = Inr p"
proof -
  obtain c e where ce: "p_config p = Some c" "p_excel_file p = Some e" "file_ok fo ReadWrite c" "file_ok fo ReadWrite e"
    using assms by (auto simp: render_ok_def split: option.splits)
  have rest: "case p_logfile p of None \<Rightarrow> True | Some f \<Rightarrow> file_ok fo WriteOnly f"
    "case p_staticsubject p of None \<Rightarrow> True | Some t \<Rightarrow> plain t" "p_loglvl p \<in> set loglvl_choices"
    using assms by (auto simp: render_ok_def)
  have "plain (p_loglvl p)" using rest(3) by (rule loglvl_plain)
  then show ?thesis using ce rest
    by (cases p; cases "p_logfile p"; cases "p_staticsubject p")
      (simp_all add: parse_args_def render_args_def file_ok_def render_simps default_params_def)
qed


theorem parse_render_roundtrip_witness:
  "parse_args (\<lambda>_ _. True) (render_args (default_params\<lparr>p_config := Some ''c.json'', p_excel_file := Some ''book.xlsx'',
     p_rowoffset := -3, p_staticsubject := Some ''Hi'', p_test := True\<rparr>))
   = Inr (default_params\<lparr>p_config := Some ''c.json'', p_excel_file := Some ''book.xlsx'',
     p_rowoffset := -3, p_staticsubject := Some ''Hi'', p_test := True\<rparr>)"
  by (rule parse_render_roundtrip)
    (simp add: render_ok_def file_ok_def plain_def default_params_def loglvl_choices_def)

text \<open>C12: The program run from any argument list that argparse accepts, without --test and with no argument starting with -x or --st (so no form or abbreviation of --staticsubject), never logs in to a server and never delivers a mail, whatever the config file, the spreadsheet, the outcome of loading the workbook and the network.\<close>

theorem prog_without_staticsubject:
  assumes "parse_args fo args = Inr p" "\<not> p_test p"
    "\<forall>a \<in> set args. \<not> starts_with ''-x'' a \<and> \<not> starts_with ''--st'' a"
    "prog env fo args wb js l1 l2 intr sh w = (r, w', dopt)"
  shows "ticks w' = ticks w \<and> deliveries (log w') = deliveries (log w)"
proof -
  have st: "p_staticsubject p = None" using parse_args_static [OF assms(1,3)] .
  show ?thesis
  proof (cases "log_setup p = Inl OtherError \<or> cli_of p = None")
    case True
    with assms(1,4) show ?thesis by (auto simp: prog_def split: sum.splits option.splits)
  next
    case False
    then obtain l opts where l: "log_setup p = Inr l" "cli_of p = Some opts"
      by (auto simp: log_setup_def split: option.splits)
    then have "opt_staticsubject opts = None" "\<not> opt_test opts" using st assms(2) by (auto simp: cli_of_def split: if_splits)
    moreover have "main env opts wb js l1 l2 intr sh w = (r', w', dopt)" if "r = Main r'" for r'
      using assms(1,4) l that by (auto simp: prog_def split: prod.splits)
    moreover have "\<exists>r'. r = Main r'" using assms(1,4) l by (auto simp: prog_def split: prod.splits)
    ultimately show ?thesis using main_without_staticsubject by blast
  qed
qed

theorem prog_without_staticsubject_witness:
  "ticks (fst (snd (prog (env_const None) (\<lambda>_ _. True) [''-c'', ''c.json'', ''book.xlsx''] None
      (JsonUsers [(0, cfg (adaptive_sender 60 0 3 3))]) None None None ex_sheet (ex_world 0)))) = 0"
proof -
  let ?a = "[''-c'', ''c.json'', ''book.xlsx'']"
  let ?p = "default_params\<lparr>p_config := Some ''c.json'', p_excel_file := Some ''book.xlsx''\<rparr>"
  let ?u = "prog (env_const None) (\<lambda>_ _. True) ?a None (JsonUsers [(0, cfg (adaptive_sender 60 0 3 3))]) None None None
      ex_sheet (ex_world 0)"
  have h: "parse_args (\<lambda>_ _. True) ?a = Inr ?p" "\<not> p_test ?p"
    "\<forall>a \<in> set ?a. \<not> starts_with ''-x'' a \<and> \<not> starts_with ''--st'' a"
    by (simp_all add: parse_eval)
  from prog_without_staticsubject [OF h, of "env_const None" None "JsonUsers [(0, cfg (adaptive_sender 60 0 3 3))]"
      None None None ex_sheet "ex_world 0" "fst ?u" "fst (snd ?u)" "snd (snd ?u)"]
  show ?thesis by (simp add: ex_world_def)
qed

text \<open>C16: Whenever the arguments are accepted and include --logfile, the program stops with an exception in the logging set-up before it loads anything or contacts a server: the world is unchanged.\<close>

theorem logfile_crashes_startup:
  assumes "parse_args fo args = Inr p" "p_logfile p \<noteq> None"
  shows "prog env fo args wb js l1 l2 intr sh w = (Main (Crashed OtherError), w, None)"
  using assms by (auto simp: prog_def log_setup_def split: option.splits)

theorem logfile_crashes_startup_witness:
  "prog (env_const None) (\<lambda>_ _. True) [''-c'', ''c.json'', ''-f'', ''run.log'', ''book.xlsx''] None JsonInvalid None None None
     ex_sheet (ex_world 0) = (Main (Crashed OtherError), ex_world 0, None)"
proof -
  have "parse_args (\<lambda>_ _. True) [''-c'', ''c.json'', ''-f'', ''run.log'', ''book.xlsx'']
    = Inr (default_params\<lparr>p_config := Some ''c.json'', p_logfile := Some ''run.log'', p_excel_file := Some ''book.xlsx''\<rparr>)"
    by (simp add: parse_eval)
  from logfile_crashes_startup [OF this] show ?thesis by simp
qed

text \<open>C17: For every argument list the parser accepts, the log level chain always binds a level (its missing else branch is unreachable because of the choices of --loglvl), so the logging set-up succeeds exactly when --logfile is not given.\<close>

theorem parsed_logging_setup:
  assumes "parse_args fo args = Inr p"
  shows "(\<exists>l. log_setup p = Inr l) \<longleftrightarrow> p_logfile p = None"
  using parse_args_loglvl [OF assms]
  by (auto simp: log_setup_def log_level_of_def loglvl_choices_def split: option.splits)

theorem parsed_logging_setup_witness:
  "\<exists>l. log_setup (default_params\<lparr>p_config := Some ''c.json'', p_loglvl := ''DEBUG'', p_excel_file := Some ''book.xlsx''\<rparr>) = Inr l"
proof -
  have "parse_args (\<lambda>_ _. True) [''-l'', ''DEBUG'', ''-c'', ''c.json'', ''book.xlsx'']
    = Inr (default_params\<lparr>p_config := Some ''c.json'', p_loglvl := ''DEBUG'', p_excel_file := Some ''book.xlsx''\<rparr>)"
    by (simp add: parse_eval loglvl_choices_def)
  from parsed_logging_setup [OF this] show ?thesis by (simp add: default_params_def)
qed

text \<open>C18: An integer option (row offset, a column or the sheet index) given first with a value that Python 2's int() rejects (white space and a sign are allowed, also between them) makes the parser stop with a usage error, whatever follows, before any option is acted on.\<close>

theorem int_option_rejects:
  assumes "os \<in> set [''--rowoffset'', ''-r'', ''--colmail'', ''-m'', ''--colsubject'', ''-s'', ''--colbody'', ''-b'',
    ''--colsend'', ''-o'', ''--sheetindex'', ''-i'']" "py_int v = None"
  shows "parse_args fo (os # v # args) = Inl PUsage"
proof -
  obtain d where d: "classify os = Some (TOpt os d None)" "takes_arg d" "\<And>p. take_action fo p (d, Some v) = Inl PUsage"
    using int_options [OF assms(1), of fo v] assms(2) by auto
  have os: "os \<noteq> ''--''" using assms(1) by auto
  have c: "consume fo (t # z) (Some ([], d)) default_params False = Inl PUsage" if "classify v = Some t" for t z
    using that d(3) by (cases t) (auto dest: classify_TArg)
  show ?thesis
    using d os c by (auto simp: parse_args_def opt_start_def split: option.splits)
qed

theorem int_option_rejects_witness:
  "parse_args (\<lambda>_ _. True) [''--colsend'', ''D'', ''-c'', ''c.json'', ''book.xlsx''] = Inl PUsage"
  using int_option_rejects [of "''--colsend''" "''D''" "\<lambda>_ _. True" "[''-c'', ''c.json'', ''book.xlsx'']"]
  by (simp add: py_int_def strip_def is_space_def unsigned_int_def is_digit_def)

end
