(* ===== verification/Quota_Spec.thy ===== *)
theory Quota_Spec
  imports Quota
begin

text \<open>
  The quota tracker as the specification describes it (its section 4.1, the
  contract of \<open>QuotaTracker\<close>), on an abstract quota state with the pacing
  formulas written over the reals, and the refinement of it by
  \<open>Mail_sender._update_quotas\<close> (\<open>src/sheetmail.py\<close>, lines 42-65). Adaptive pacing
  refines the contract exactly; fixed pacing does not, since Python 2 floors
  \<open>timeframe / allowed_requests\<close> where the contract takes the ceiling.
\<close>

section \<open>The contract\<close>

text \<open>\<open>QuotaState\<close>: window length and end, allowance, budget left, next send.\<close>

record qstate =
  q_length :: int
  q_end :: int
  q_allowed :: int
  q_remaining :: int
  q_next :: int

text \<open>\<open>onWindowCheck()\<close>: once \<open>now \<ge> windowEnd\<close>, a new window, with \<open>nextSend\<close> at its end.\<close>

definition spec_window_check :: "int \<Rightarrow> qstate \<Rightarrow> qstate" where
  "spec_window_check now q =
     (if q_end q \<le> now
      then q\<lparr>q_end := now + q_length q, q_remaining := q_allowed q, q_next := now + q_length q\<rparr>
      else q)"

text \<open>
  \<open>recordSend()\<close>: one unit of budget spent, and the next send spread over what
  is left of the window (adaptive) or a constant cadence (fixed).
\<close>

definition spec_record_send_adaptive :: "int \<Rightarrow> qstate \<Rightarrow> qstate" where
  "spec_record_send_adaptive now q =
     (let r = q_remaining q - 1
      in q\<lparr>q_remaining := r,
           q_next := (if 0 < r then now + \<lceil>real_of_int (q_end q - now) / real_of_int r\<rceil> else q_end q)\<rparr>)"

definition spec_record_send_fixed :: "int \<Rightarrow> qstate \<Rightarrow> qstate" where
  "spec_record_send_fixed now q =
     q\<lparr>q_remaining := q_remaining q - 1,
       q_next := now + \<lceil>real_of_int (q_length q) / real_of_int (q_allowed q)\<rceil>\<rparr>"

text \<open>The quota state of an account: the entries of its config dict and \<open>next_send\<close>.\<close>

definition abs_quota :: "mail_sender \<Rightarrow> qstate" where
  "abs_quota s = \<lparr>q_length = timeframe (cfg s), q_end = timeframe_end (cfg s),
     q_allowed = allowed_requests (cfg s), q_remaining = remaining_requests (cfg s), q_next = next_send s\<rparr>"

section \<open>Refinement\<close>

lemma roll_window_refines: "abs_quota (roll_window t s) = spec_window_check t (abs_quota s)"
  by (simp add: abs_quota_def roll_window_def spec_window_check_def)

lemma update_quotas_send_state:
  assumes "update_quotas True w s = (Inr (), w', s')"
  shows "\<exists>s3. pace (clock w) True (count_send True (roll_window (clock w) s)) = Inr s3 \<and> s' = s3"
  using assms by (auto simp: update_quotas_def Let_def split: prod.splits sum.splits)

lemma pace_refines_adaptive:
  assumes "\<not> use_fixed_delay (cfg r)" "pace t True (count_send True r) = Inr s3"
  shows "abs_quota s3 = spec_record_send_adaptive t (abs_quota r)"
  using assms by (auto simp: pace_def count_send_def spec_record_send_adaptive_def abs_quota_def Let_def
      ceil_div_real split: if_splits)

text \<open>C9: In adaptive mode a send that completes refines the specification's QuotaTracker exactly: the account's quota state afterwards is the specification's onWindowCheck followed by recordSend at the same instant, with the specification's ceiling of a real quotient for the next send.\<close>

theorem update_quotas_refines_adaptive:
  assumes "\<not> use_fixed_delay (cfg s)" "update_quotas True w s = (Inr (), w', s')"
  shows "abs_quota s' = spec_record_send_adaptive (clock w) (spec_window_check (clock w) (abs_quota s))"
proof -
  obtain s3 where p: "pace (clock w) True (count_send True (roll_window (clock w) s)) = Inr s3" "s' = s3"
    using update_quotas_send_state [OF assms(2)] by blast
  have "\<not> use_fixed_delay (cfg (roll_window (clock w) s))" using assms(1) by (simp add: roll_window_def)
  from pace_refines_adaptive [OF this p(1)] p(2) show ?thesis by (simp add: roll_window_refines)
qed

theorem update_quotas_refines_adaptive_witness:
  "fst (update_quotas True (ex_world 0) (adaptive_sender 60 0 3 3)) = Inr ()
   \<and> abs_quota (snd (snd (update_quotas True (ex_world 0) (adaptive_sender 60 0 3 3))))
     = spec_record_send_adaptive 0 (spec_window_check 0 (abs_quota (adaptive_sender 60 0 3 3)))
   \<and> q_next (spec_record_send_adaptive 0 (spec_window_check 0 (abs_quota (adaptive_sender 60 0 3 3)))) = 30"
proof -
  let ?u = "update_quotas True (ex_world 0) (adaptive_sender 60 0 3 3)"
  have h: "fst ?u = Inr ()" by (simp add: quota_defs example_defs)
  have "?u = (Inr (), fst (snd ?u), snd (snd ?u))" using h by (metis prod.collapse)
  from update_quotas_refines_adaptive [OF _ this] h show ?thesis
    by (simp add: example_defs spec_record_send_adaptive_def spec_window_check_def abs_quota_def Let_def)
qed

end
