(* ===== verification/Status.thy ===== *)
theory Status
  imports Runs
begin

text \<open>
  The type of the status column. The specification (its section 6) encodes a
  message's status in the status cell of its row: \<open>0\<close> or empty is Pending, \<open>1\<close>
  Sent, \<open>2\<close> Error. The code never names this type: it reads the cell with
  \<open>row[4] and row[4] >= 1\<close> (line 223 of \<open>src/sheetmail.py\<close>, \<open>already_sent\<close>) and
  writes \<open>1\<close> or \<open>2\<close> (lines 244 and 249, \<open>set_status\<close>). This theory gives the
  decoding of a cell into a status, shows that the code's skip test is exactly
  "the status is terminal" on every well-typed cell, and that a run keeps the
  status column well typed.
\<close>

section \<open>Definitions\<close>

text \<open>The \<open>Status\<close> of a Message.\<close>

datatype status = Pending | Sent | Error

text \<open>The encoding of the specification: a cell holding anything else is not a status.\<close>

fun status_of :: "cell \<Rightarrow> status option" where
  "status_of Empty = Some Pending"
| "status_of (Num i) = (if i = 0 then Some Pending else if i = 1 then Some Sent else if i = 2 then Some Error else None)"
| "status_of (Str s) = None"

text \<open>
  The status column is well typed: every data row (from \<open>rowoffset\<close> on) whose
  status cell exists holds a status.
\<close>

definition status_ok :: "run_cfg \<Rightarrow> cell list list \<Rightarrow> bool" where
  "status_ok rc sh \<longleftrightarrow>
     (\<forall>n < length sh. rowoffset rc \<le> int n \<longrightarrow> colsend rc < length (sh ! n)
        \<longrightarrow> status_of (sh ! n ! colsend rc) \<noteq> None)"

section \<open>Lemmas\<close>

text \<open>Writing a status code \<open>1\<close> or \<open>2\<close> keeps the column well typed, whatever the row.\<close>

lemma set_status_status_ok:
  assumes "status_ok rc sh" "v = 1 \<or> v = 2"
  shows "status_ok rc (set_status rc n v sh)"
  unfolding status_ok_def
proof (intro allI impI)
  fix m
  assume m: "m < length (set_status rc n v sh)" "rowoffset rc \<le> int m"
    "colsend rc < length (set_status rc n v sh ! m)"
  show "status_of (set_status rc n v sh ! m ! colsend rc) \<noteq> None"
  proof (cases "m = n")
    case True
    with m assms(2) show ?thesis by (auto simp: set_status_def)
  next
    case False
    with m assms(1) show ?thesis by (simp add: set_status_other status_ok_def)
  qed
qed

text \<open>One row either leaves the sheet alone or writes \<open>1\<close> or \<open>2\<close> into its own status cell.\<close>

lemma process_row_sheet:
  assumes "process_row env rc n w d = (r, w', d')"
  shows "sheet d' = sheet d \<or> (\<exists>v. (v = 1 \<or> v = 2) \<and> sheet d' = set_status rc n v (sheet d))"
  using assms
proof (cases rule: process_row_cases)
  case (invalid m sj b st ns c)
  then show ?thesis using mark_row_fields [of rc n 2 "wait_until ns w" d w' d'] by auto
next
  case (sent m sj b st ns c w2 c2)
  then show ?thesis
    using mark_row_fields [of rc n 1 w2 "d\<lparr>pool := update_pool c2 (pool d)\<rparr>" w' d'] by auto
next
  case (refused m sj b st ns c w2 c2)
  then show ?thesis
    using mark_row_fields [of rc n 2 w2 "d\<lparr>pool := update_pool c2 (pool d)\<rparr>" w' d'] by auto
qed simp_all

lemma process_row_status_ok:
  "process_row env rc n w d = (r, w', d') \<Longrightarrow> status_ok rc (sheet d) \<Longrightarrow> status_ok rc (sheet d')"
  by (auto dest!: process_row_sheet intro: set_status_status_ok)

lemma run_rows_status_ok:
  "run_rows env rc ns w d = (r, w', d') \<Longrightarrow> status_ok rc (sheet d) \<Longrightarrow> status_ok rc (sheet d')"
proof (induction ns arbitrary: w d)
  case (Cons n ns)
  show ?case
  proof (cases "int n < rowoffset rc")
    case True
    with Cons show ?thesis by simp
  next
    case False
    then obtain q w1 d1 where p: "process_row env rc n w d = (q, w1, d1)"
      and c: "case q of Inl e \<Rightarrow> r = Inl e \<and> w' = w1 \<and> d' = d1
        | Inr RowAbort \<Rightarrow> r = Inr RetFalse \<and> w' = w1 \<and> d' = d1
        | Inr _ \<Rightarrow> run_rows env rc ns w1 d1 = (r, w', d')"
      using run_rows_induct_step [OF Cons.prems(1)] by auto
    have "status_ok rc (sheet d1)" using process_row_status_ok [OF p Cons.prems(2)] .
    then show ?thesis using c Cons.IH by (auto split: sum.splits row_outcome.splits)
  qed
qed simp

text \<open>C8: On a cell that holds a status, the code's skip test row[4] and row[4] >= 1 holds exactly when the status is terminal (Sent or Error), so among well-typed rows the Pending ones, and only they, are sent.\<close>

theorem already_sent_terminal:
  assumes "status_of st = Some s"
  shows "already_sent st \<longleftrightarrow> s = Sent \<or> s = Error"
  using assms by (cases st) (auto simp: already_sent_def split: if_splits)

theorem already_sent_terminal_witness:
  "already_sent (Num 2) \<and> \<not> already_sent Empty \<and> \<not> already_sent (Num 0)"
  using already_sent_terminal [of "Num 2" Error] already_sent_terminal [of Empty Pending]
    already_sent_terminal [of "Num 0" Pending]
  by simp

text \<open>C7: A run, however it ends, leaves the status column well typed when it started so: every data row's status cell still decodes to Pending, Sent or Error, because the run writes no value other than the codes 1 (Sent) and 2 (Error).\<close>

theorem run_keeps_status_typed:
  assumes "status_ok rc (sheet d)" "run env rc w d = (r, w', d')"
  shows "status_ok rc (sheet d')"
  using run_rows_status_ok assms unfolding run_def by blast

theorem run_keeps_status_typed_witness:
  "status_ok ex_rc (sheet (snd (snd (run (env_const None) ex_rc (ex_world 0) ex_state))))"
proof -
  let ?u = "run (env_const None) ex_rc (ex_world 0) ex_state"
  have "status_ok ex_rc (sheet ex_state)"
    by (simp add: status_ok_def ex_rc_def ex_state_def ex_sheet_def less_Suc_eq numeral_eq_Suc)
  from run_keeps_status_typed [OF this, of "env_const None" "ex_world 0" "fst ?u" "fst (snd ?u)" "snd (snd ?u)"]
  show ?thesis by simp
qed

end
