(* ===== verification/Spec2Isabelle.thy ===== *)
theory Spec2Isabelle
  imports Args Quota_Spec Status
begin

text \<open>
  \<^bold>\<open>A verification library for sheetmail.\<close>
  \<open>src/sheetmail.py\<close> (Python 2) sends one mail per row of a spreadsheet through a
  pool of SMTP accounts, each paced by a quota of \<open>allowed_requests\<close> mails per
  \<open>timeframe\<close> seconds, and writes a status (1 sent, 2 error) back into each row.
  Its parts, from the bottom up, and the theory that models each:

  \<^item> \<open>Prelude\<close>: the shared vocabulary. The exceptions the program raises or
    catches (\<open>exc\<close>), results as \<open>exc + 'a\<close>, spreadsheet cells (\<open>cell\<close>) with
    Python 2's truthiness and \<open>>= 1\<close> on them, \<open>ceil\<close> and Python 2's floor \<open>/\<close>
    on integers (\<open>ceil_div\<close>, with \<open>ceil_div_real\<close> equating it to the ceiling of
    the real quotient), and the world the program runs in: a record of the clock,
    the number of SMTP interactions so far and a log of observable events
    (connect, sendmail, quit, sleep, config persisted, workbook saved). The SMTP
    servers and the network are a transport oracle that answers the \<open>k\<close>-th
    interaction with an exception or success and a duration; every theorem
    quantifies over all oracles unless it names one.
  \<^item> \<open>Quota\<close>: \<open>Mail_sender._update_quotas\<close> and \<open>Mail_sender.__init__\<close> (lines
    26-65). The account is the record \<open>mail_sender\<close> (its quota entries of the
    config dict as \<open>quota_cfg\<close>); \<open>update_quotas\<close> is composed of \<open>roll_window\<close>,
    \<open>count_send\<close>, \<open>persist_quota\<close> (\<open>TypeError\<close> when the callback is \<open>None\<close>)
    and \<open>pace\<close> (fixed or adaptive delay, \<open>ZeroDivisionError\<close> on a zero
    allowance), all at one instant \<open>now()\<close>.
  \<^item> \<open>Sender\<close>: \<open>connect_to_server\<close>, \<open>close\<close>, \<open>_send_mail\<close> (\<open>send_mail_once\<close>) and
    the retry loop \<open>send_mail\<close> (lines 68-156). The message \<open>(mail_to, subject,
    mail_body)\<close> is built as the code builds it: \<open>mime_text\<close> (line 91) rejects a
    non-zero number as body, \<open>mail_to_list\<close> (line 94) a recipient that is not a
    string, and \<open>as_string\<close> (line 97, inside \<open>transmit\<close>, so only when not
    \<open>nosend\<close>) a number as subject or payload, each with \<open>TypeError\<close>; the
    predicate \<open>message_ok\<close> says a message passes them. The \<open>except\<close> clauses are the
    function \<open>handler\<close> in source order; the loop over \<open>xrange(retries)\<close> is the
    terminating \<open>send_mail_loop\<close> on the attempt index, its measure
    \<open>retries - i\<close>, so no fuel is needed: \<open>send_mail\<close> is total and returns after
    at most \<open>retries\<close> attempts.
  \<^item> \<open>Scheduler\<close>: \<open>_find_free_server\<close> (lines 210-212) as a sort on
    \<open>(next_send, identity)\<close>, since Python 2 compares the old-style sender objects
    by address, and the wait of \<open>run\<close> until the chosen \<open>next_send\<close> (\<open>wait_until\<close>,
    lines 228-231). \<open>can_send\<close> is \<open>Mail_sender.can_send\<close> (lines 81-83), unused
    by the program.
  \<^item> \<open>Quota_Spec\<close>: the specification's \<open>QuotaTracker\<close> contract on an abstract
    \<open>qstate\<close>, with its pacing formulas over the reals, and the abstraction
    \<open>abs_quota\<close> of an account to it.
  \<^item> \<open>Dispatcher\<close>: \<open>Excel_Mail_Sender.run\<close> with \<open>excel_data_iterator\<close> (lines
    18-23, 217-255). Its state \<open>dstate\<close> is the pool, the sheet in memory and the
    workbook as saved; \<open>process_row\<close> is one iteration of the loop, \<open>run_rows\<close> the
    loop over the row numbers, \<open>run\<close> the method. The sender chosen for a row is
    the pool's own object, so its new state replaces the pool entry of the same
    identity (\<open>update_pool\<close>). \<open>cli_staticsubject\<close> records what \<open>__main__\<close>
    passes for \<open>--staticsubject\<close> (lines 327-334).
  \<^item> \<open>Runs\<close>: properties of whole runs, from the one-row lemmas of \<open>Dispatcher\<close>.
  \<^item> \<open>Cli\<close>: the pool built by \<open>Excel_Mail_Sender.init\<close> (\<open>init_pool\<close>, lines
    195-202) and the connectivity test \<open>test_mail\<close> (lines 258-274).
  \<^item> \<open>Launcher\<close>: what \<open>_persist_config\<close> writes (\<open>persisted_config\<close>, lines
    204-208); \<open>Excel_Mail_Sender.init\<close> with its exception handling
    (\<open>init_app\<close>, lines 168-202: what \<open>load_workbook\<close> raises and what
    \<open>json.load\<close> gives, \<open>json_doc\<close>, are inputs), \<open>Excel_Mail_Sender.close\<close>
    (\<open>close_app\<close>, lines 214-215), \<open>test_spreadsheet_file\<close> (lines 276-312, from
    the outcomes of its two loads) and the control flow of \<open>__main__\<close> (\<open>main\<close>,
    lines 355-370) from the parsed options (\<open>cli_opts\<close>) through \<open>test_mail\<close>,
    the integrity test, \<open>init\<close> and \<open>run\<close>, with a \<open>KeyboardInterrupt\<close> reaching
    the row loop.
  \<^item> \<open>Args\<close>: the rest of \<open>__main__\<close> (lines 315-353): the option table of
    lines 318-334 (\<open>option_table\<close>, \<open>params\<close>, \<open>default_params\<close>) read by a
    model of Python 2.7's \<open>argparse\<close> (\<open>classify\<close> and \<open>classify_all\<close> for the
    classification of each string, \<open>opt_start\<close>, \<open>take_action\<close> and \<open>consume\<close> for
    the left-to-right consumption with \<open>type=int\<close> as \<open>py_int\<close>, \<open>FileType\<close> as
    \<open>file_arg\<close> and \<open>choices\<close>, \<open>parse_args\<close> for the final checks), the
    log-level chain and \<open>logging.basicConfig\<close> (\<open>log_setup\<close>), and the whole
    program \<open>prog\<close> from the argument list through \<open>main\<close>.
  \<^item> \<open>Status\<close>: the specification's status type (Pending, Sent, Error) and its
    encoding in the status cell (\<open>status_of\<close>), against which the skip test of
    \<open>run\<close> (line 223) and the codes it writes (lines 244, 249) are checked.

  What the lemmas show. \<open>Quota\<close>: the fixed-delay invariant \<open>fixed_ok\<close> is kept
  by sends made when due, provided the allowance divides the timeframe
  (\<open>update_quotas_fixed_ok\<close>). Where it does not, Python 2's floor division lets
  the budget go negative (\<open>fixed_floor_overruns\<close>), and a restart with an exhausted
  budget overruns too (\<open>fixed_ignores_persisted_budget\<close>). The adaptive invariant
  \<open>adaptive_ok\<close> is kept by every send made when due. Also proved: the cadence of both
  modes (\<open>fixed_cadence\<close>). The overrun is proved for every allowance that
  does not divide the timeframe, by induction over the sends of one window
  (\<open>fixed_sends_in_window\<close>). \<open>Sender\<close>: a case rule for one attempt (login
  failed, bad message, refused, transmitted) and a loop-invariant rule for the
  retry loop. From them follow the behaviour of each exception class (re-raise,
  give up, reconnect and retry, and the uncaught \<open>TypeError\<close> of a bad message),
  the bounds on sleeps and interactions, and the number of deliveries. With a
  network that never fails, a call with a well-formed message delivers at once. \<open>Scheduler\<close>: the choice is exactly
  the least account in \<open>(next_send, identity)\<close> order, so ties go by address, not
  by registration; the wait makes the
  chosen account able to send and is no longer than needed. \<open>Quota_Spec\<close>:
  adaptive pacing refines the specification's contract exactly. \<open>Dispatcher\<close>: a case rule for one
  row (read error, skipped, empty pool, invalid, sent, refused, raised, abort)
  gives the status each result of \<open>send_mail\<close> leads to, and that each write is
  saved at once. It
  also gives that a run only writes status cells, that a run which returns
  \<open>None\<close> leaves every row marked so a rerun does nothing, and that the pool keeps
  the adaptive invariant. \<open>Runs\<close>: mails are delivered exactly for the rows newly
  marked 1. With a working network, every pending row whose address, subject and
  body are non-empty strings is sent and the run returns \<open>None\<close>; a number
  there passes the check of line 234 but crashes \<open>_send_mail\<close>. \<open>Launcher\<close>: a restart from the persisted configuration
  inside the current windows gives back every account's quota state but not its
  pacing, and the program started without \<open>--staticsubject\<close> never contacts a
  server. An invalid workbook is caught by the integrity test but, through
  Python 2's \<open>except A, B:\<close>, not by \<open>init\<close>, so with \<open>--notest\<close> the
  program crashes; an interrupt saves every decided outcome and touches no later
  row. \<open>Status\<close>: on well-typed cells the skip test is "the status is terminal",
  and a run keeps the status column well typed. \<open>Args\<close>:
  reading back an argument list written from any namespace gives the namespace
  (with the decimal round trip \<open>py_int (int_str i) = Some i\<close>, where \<open>py_int\<close>
  is Python 2's \<open>int()\<close> with white space around and after the sign); no argument list without a
  form of \<open>-x\<close> or \<open>--staticsubject\<close> leads to a delivery; every accepted list
  binds a log level, and \<open>--logfile\<close> always crashes the logging set-up; a bad
  integer is a usage error. Below, \<open>run_keeps_quota\<close> joins \<open>Cli\<close>, \<open>Dispatcher\<close>,
  \<open>Scheduler\<close>, \<open>Sender\<close> and \<open>Quota\<close>: a pool of adaptive accounts never exceeds
  its quota during a run, whatever the network does. The wait before every send is
  what makes \<open>next_send \<le> now\<close> hold at each \<open>_update_quotas(mail_send=True)\<close>.

  Choices and bounds. Time is an integer number of seconds: \<open>time.time()\<close> is a
  float, and the pacing lemmas that depend on whole seconds (the adaptive
  \<open>ceil\<close>, the cadence of the wait) hold for the model's clock. One \<open>now()\<close> is
  taken per quota update, so the few microseconds between the calls of line 44-47
  are not modelled. Cell values are \<open>None\<close>, whole numbers or strings. The
  retries and the sleep time of \<open>run\<close> are the constants 3 and 5 of line 239.
  Each login (SSL or STARTTLS, \<open>ehlo\<close>, \<open>login\<close>) is one interaction of the
  oracle, and so is each \<open>sendmail\<close>.

  A \<open>KeyboardInterrupt\<close> is modelled where the loop waits before a row, which
  is where the program spends its time (the sleep until \<open>next_send\<close>); one
  arriving inside \<open>send_mail\<close> can leave a delivered mail unmarked, which the
  specification accepts (its section 9) and which is not modelled.

  Not modelled: the bytes of the workbook and the JSON config (loading them
  appears as the exception it raises or the accounts it yields, saving them as
  the \<open>SaveBook\<close> and \<open>Persist\<close> events), the comment cleaning and the
  temporary file of \<open>init\<close> and \<open>test_spreadsheet_file\<close> (openpyxl file I/O
  that affects the result only through what the loads raise), the texts of
  \<open>argparse\<close>'s help and error messages and of the log records, whether a file
  can be opened (an oracle of \<open>parse_args\<close>), negative column numbers (\<open>prog\<close>
  stops with \<open>NegativeColumn\<close>, since Python would index the row from its end),
  the text of the MIME message beyond the checks that can raise, the value of
  an integer beyond 64 bits (Python 2 then parses it as a \<open>long\<close>), a config
  dict without one of the quota keys (\<open>KeyError\<close> in \<open>__init__\<close>), and float
  cell values.
\<close>

section \<open>Properties of the whole program\<close>

text \<open>C1: For any network behaviour and any spreadsheet, a run over a pool built by init from adaptive accounts whose stored budgets lie between 0 and the allowance keeps every account within its quota: the budget stays between 0 and the allowance, and an exhausted account is not due before its window ends. The pool keeps its accounts in file order.\<close>

theorem run_keeps_quota:
  assumes "\<forall>(i, c) \<in> set cs. \<not> use_fixed_delay c \<and> 1 \<le> allowed_requests c
      \<and> 0 \<le> remaining_requests c \<and> remaining_requests c \<le> allowed_requests c"
  shows "\<exists>ps w1. init_pool ns cs w0 = (Inr ps, w1)
    \<and> (\<forall>r w' d'. run env rc w1 \<lparr>pool = ps, sheet = sh, saved = sh\<rparr> = (r, w', d') \<longrightarrow>
         map ident (pool d') = map fst cs \<and> (\<forall>x \<in> set (pool d'). adaptive_ok x))"
proof -
  obtain ps w1 where i: "init_pool ns cs w0 = (Inr ps, w1)" "map ident ps = map fst cs" "pool_ok ps"
    using init_pool_adaptive_ok [OF assms] by blast
  have "map ident (pool d') = map fst cs \<and> (\<forall>x \<in> set (pool d'). adaptive_ok x)"
    if r: "run env rc w1 \<lparr>pool = ps, sheet = sh, saved = sh\<rparr> = (r, w', d')" for r w' d'
  proof -
    note rr = r [unfolded run_def dstate.select_convs]
    have "set [0..<length sh] \<subseteq> {..<length sh}" by auto
    from run_rows_frame [OF rr] this have "map ident (pool d') = map ident ps" by simp
    moreover have "pool_ok (pool d')" using run_rows_pool_ok [OF rr] i(3) by simp
    ultimately show ?thesis using i(2) by (auto simp: pool_ok_def list_all_iff)
  qed
  with i(1) show ?thesis by blast
qed

theorem run_keeps_quota_witness:
  "init_pool False [(0, cfg (adaptive_sender 60 0 3 3))] (ex_world 0) = (Inr [adaptive_sender 60 60 3 3], ex_world 0)
   \<and> map ident (pool (snd (snd (run (env_const None) ex_rc (ex_world 0)
       \<lparr>pool = [adaptive_sender 60 60 3 3], sheet = ex_sheet, saved = ex_sheet\<rparr>)))) = [0]
   \<and> list_all adaptive_ok (pool (snd (snd (run (env_const None) ex_rc (ex_world 0)
       \<lparr>pool = [adaptive_sender 60 60 3 3], sheet = ex_sheet, saved = ex_sheet\<rparr>))))"
proof -
  let ?cs = "[(0::nat, cfg (adaptive_sender 60 0 3 3))]" and ?p = "adaptive_sender 60 60 3 3"
  let ?u = "run (env_const None) ex_rc (ex_world 0) \<lparr>pool = [?p], sheet = ex_sheet, saved = ex_sheet\<rparr>"
  have i: "init_pool False ?cs (ex_world 0) = (Inr [?p], ex_world 0)"
    by (simp add: init_sender_def quota_defs example_defs)
  have h: "\<forall>(i, c) \<in> set ?cs. \<not> use_fixed_delay c \<and> 1 \<le> allowed_requests c
      \<and> 0 \<le> remaining_requests c \<and> remaining_requests c \<le> allowed_requests c"
    by (simp add: example_defs)
  obtain ps w1 where e: "init_pool False ?cs (ex_world 0) = (Inr ps, w1)"
    and q: "\<forall>r w' d'. run (env_const None) ex_rc w1 \<lparr>pool = ps, sheet = ex_sheet, saved = ex_sheet\<rparr> = (r, w', d')
      \<longrightarrow> map ident (pool d') = map fst ?cs \<and> (\<forall>x \<in> set (pool d'). adaptive_ok x)"
    using run_keeps_quota [OF h, of False "ex_world 0" "env_const None" ex_rc ex_sheet] by blast
  have "ps = [?p]" "w1 = ex_world 0" using e i by simp_all
  then have "run (env_const None) ex_rc w1 \<lparr>pool = ps, sheet = ex_sheet, saved = ex_sheet\<rparr>
      = (fst ?u, fst (snd ?u), snd (snd ?u))" by simp
  from q [rule_format, OF this]
  have "map ident (pool (snd (snd ?u))) = map fst ?cs \<and> (\<forall>x \<in> set (pool (snd (snd ?u))). adaptive_ok x)" .
  with i show ?thesis by (simp add: list_all_iff)
qed

end
